theory Spec2Isabelle
  imports Complex_Main "HOL-Library.AList"
begin

section \<open>The presentation controller of js/presentation.js\<close>

text \<open>
  The script is one \<open>DOMContentLoaded\<close> callback: module-level variables, functions that
  read and write them and toggle classes of page elements, and event listeners.  The
  embedding has two parts.

  \<^item> A \<open>page\<close> is the markup the script runs on: the elements it looks up and the
    \<open>data-\<close> attributes it reads.  The script never changes any of this.  The HTML file is
    not part of the sources, so the page is a parameter of every function.
  \<^item> A \<open>pres\<close> is everything the script changes: its variables (\<open>currentSlide\<close>,
    \<open>clickRevealState\<close>, \<open>interactiveState\<close>, ...) and, for each class it toggles, the set
    of elements that carry the class.

  A JavaScript object is the association list of its own properties, in the order of
  \<open>Object.keys\<close>.  \<open>clickRevealState\<close> and the attributes of the arrows are read by key
  only, with numbers and fixed names as keys: there \<open>AList.update\<close> is the assignment.  An
  element is named by its position in document order among the elements of its kind;
  \<open>querySelector\<close> yields the first match.
\<close>

subsection \<open>Markup\<close>

text \<open>
  A \<open>.slide\<close> section: its \<open>data-slide\<close> number, whether \<open>data-click-reveal\<close> is
  \<open>'true'\<close>, and, for each descendant with a \<open>data-delay\<close> attribute in document order,
  the value of \<open>parseInt(el.dataset.delay)\<close> (\<open>None\<close> is \<open>NaN\<close>).
\<close>

record slide_markup =
  data_slide :: int
  click_reveal :: bool
  delays :: "int option list"

text \<open>
  An element with a \<open>data-fag\<close> attribute: the \<open>data-slide\<close> number of the slide section
  it lies in, \<open>data-fag\<close>, \<open>data-requires\<close> (\<open>None\<close> when the attribute is absent) and
  whether it has the classes \<open>fag-cell clickable\<close>.  The elements with these classes are
  taken to have a \<open>data-fag\<close> attribute.
\<close>

record cell_markup =
  in_slide :: int
  data_fag :: string
  data_requires :: "string option"
  clickable :: bool

text \<open>
  What \<open>document.querySelector\<close> does with a selector text: the text is no selector and a
  \<open>SyntaxError\<close> is thrown; or it yields \<open>null\<close> or an element that has a \<open>data-fag\<close>
  attribute (\<open>Result\<close>); or it yields an element that has none, of which the script reads
  \<open>data-requires\<close> only (\<open>Stranger\<close>).
\<close>

datatype query_result = SyntaxError | Result "nat option" | Stranger "string option"

text \<open>
  The click handlers of the widgets build selector texts from the names of the flags.  The
  embedding reads such a text itself when the name stands for itself between the quotes
  (\<open>cssPlain\<close> below).  For every other text the answer depends on markup and on selector
  syntax that are not modelled, and the page gives it: \<open>other_query\<close>.
\<close>

record page =
  slides :: "slide_markup list"
  initially_active :: "nat set"
  cells :: "cell_markup list"
  menu_goto :: "int option list"
  has_indicator :: bool
  has_image_modal :: bool
  has_modal_image :: bool
  has_qr_modal :: bool
  other_query :: "string \<Rightarrow> query_result"

text \<open>
  \<open>getBoundingClientRect()\<close>, the fields the script reads, and the live screen positions
  at the time of a click: of \<open>.fagvalg-interactive\<close> (\<open>None\<close> when the slide has no such
  element), whether the slide has a \<open>.fordypning-arrows\<close> element, and of each
  \<open>data-fag\<close> element.  Coordinates are real numbers here; the script computes in
  floating point.
\<close>

record rect =
  r_left :: real
  r_top :: real
  r_width :: real
  r_bottom :: real

record layout =
  container_rect :: "rect option"
  svg_present :: bool
  cell_rect :: "nat \<Rightarrow> rect"

subsection \<open>State\<close>

text \<open>
  A timer set by \<open>setTimeout\<close> whose callback changes the state: \<open>init\<close> defers
  \<open>animateSlide(document.querySelector('.slide.active'))\<close>, looked up when the timer fires,
  and \<open>goToSlide\<close> defers \<open>animateSlide(activeSlide)\<close> for the slide it has just activated.
\<close>

datatype timer = AnimateActive | Animate nat

record pres =
  currentSlide :: int
  clickRevealState :: "(int \<times> int) list"
  interactiveState :: "(string \<times> bool) list"
  interactiveState11 :: "(string \<times> bool) list"
  touchStartX :: real
  touchEndX :: real
  pending :: "timer list"
  active_slides :: "nat set"
  visible_els :: "(nat \<times> nat) set"
  selected_cells :: "nat set"
  shaking_cells :: "nat set"
  arrows_visible :: "string set"
  results_visible :: "string set"
  arrow_attrs :: "(string \<times> real \<times> real \<times> real \<times> real) list"
  menu_active :: "nat set"
  indicator_visible :: bool
  progress :: real
  current_text :: int
  prev_disabled :: bool
  next_disabled :: bool
  image_modal_visible :: bool
  qr_modal_visible :: bool
  bubbles_visible :: "nat set"
  body_overflow_hidden :: bool

text \<open>
  \<open>visible_els\<close> holds pairs (slide, element) of \<open>data-delay\<close> elements with class
  \<open>visible\<close>; \<open>arrows_visible\<close> and \<open>results_visible\<close> hold the pair names
  (\<open>fysikk\<close>, \<open>matte\<close>, \<open>okonomi\<close>, \<open>samfunn\<close>) whose \<open>.<name>-arrow\<close> or
  \<open>.<name>-result\<close> element has class \<open>visible\<close>; \<open>arrow_attrs\<close> holds the attributes
  \<open>x1, y1, x2, y2\<close> set on an arrow; \<open>selected_cells\<close> holds the \<open>data-fag\<close> elements
  with class \<open>selected\<close>, \<open>shaking_cells\<close> those whose \<open>style.animation\<close> has been set to
  the shake.  Left out are decorations that no function reads back and
  that a timer removes again: the classes \<open>just-selected\<close>, \<open>exiting-left\<close>,
  \<open>exiting-right\<close>, the \<open>data-direction\<close> attribute, the keyboard hint, parallax
  transforms, the \<open>grayed-out\<close> toggle of the optional boxes of slide 6 and the
  fullscreen request of the \<open>f\<close> key.
\<close>

definition totalSlides :: int where
  "totalSlides = 14"

datatype completion = Returned | Thrown

text \<open>
  An uncaught \<open>TypeError\<close> (a property read on \<open>null\<close>) ends the running listener;
  what it has written so far stays.  \<open>Thrown\<close> marks such an end.
\<close>

subsection \<open>Lookups\<close>

definition querySelector :: "nat \<Rightarrow> (nat \<Rightarrow> bool) \<Rightarrow> nat option" where
  "querySelector n matches = List.find matches [0..<n]"

text \<open>\<open>document.querySelector(`[data-slide="${n}"]`)\<close>\<close>

definition slideByNumber :: "page \<Rightarrow> int \<Rightarrow> nat option" where
  "slideByNumber p n = querySelector (length (slides p)) (\<lambda>j. data_slide (slides p ! j) = n)"

text \<open>\<open>document.querySelector('.slide.active')\<close>\<close>

definition activeSlideEl :: "page \<Rightarrow> pres \<Rightarrow> nat option" where
  "activeSlideEl p s = querySelector (length (slides p)) (\<lambda>j. j \<in> active_slides s)"

text \<open>\<open>clickRevealState[n] || 0\<close>\<close>

definition counterOr0 :: "(int \<times> int) list \<Rightarrow> int \<Rightarrow> int" where
  "counterOr0 st n = (case map_of st n of None \<Rightarrow> 0 | Some c \<Rightarrow> c)"

text \<open>
  The names of the members of \<open>Object.prototype\<close>.  \<open>interactiveState\<close> and
  \<open>interactiveState11\<close> are made by object literals, so a read of a name that is not an own
  property yields the member of \<open>Object.prototype\<close> of that name if there is one: a
  function, or the prototype object itself for \<open>__proto__\<close>.
\<close>

definition objectPrototypeNames :: "string list" where
  "objectPrototypeNames =
     [''constructor'', ''hasOwnProperty'', ''isPrototypeOf'', ''propertyIsEnumerable'',
      ''toLocaleString'', ''toString'', ''valueOf'', ''__proto__'',
      ''__defineGetter__'', ''__defineSetter__'', ''__lookupGetter__'', ''__lookupSetter__'']"

text \<open>
  A flag read in a condition, \<open>state[k]\<close>: the own property if there is one; otherwise a
  member of \<open>Object.prototype\<close>, which is truthy, or \<open>undefined\<close>, which is falsy.
\<close>

definition truthy :: "(string \<times> bool) list \<Rightarrow> string \<Rightarrow> bool" where
  "truthy st k =
     (case map_of st k of
        Some b \<Rightarrow> b
      | None \<Rightarrow> k \<in> set objectPrototypeNames)"

text \<open>
  An array index is the decimal numeral, without leading zeros, of a number below
  \<open>2\<^sup>3\<^sup>2 - 1\<close>.  \<open>Object.keys\<close> lists the own properties that are array indices first, in
  ascending order, and the others after them in the order of their creation.
\<close>

definition indexValue :: "string \<Rightarrow> nat" where
  "indexValue k = foldl (\<lambda>n c. 10 * n + (of_char c - 48)) 0 k"

definition isArrayIndex :: "string \<Rightarrow> bool" where
  "isArrayIndex k \<longleftrightarrow>
     k \<noteq> [] \<and> list_all (\<lambda>c. 48 \<le> (of_char c :: nat) \<and> (of_char c :: nat) \<le> 57) k
     \<and> (k = ''0'' \<or> hd k \<noteq> CHR ''0'') \<and> indexValue k < 4294967295"

text \<open>
  The assignment \<open>state[k] = v\<close>.  An own property is overwritten in place.  A new name
  becomes an own property, at its place in the order of \<open>Object.keys\<close>; but \<open>__proto__\<close>
  is a setter of \<open>Object.prototype\<close>, which ignores a boolean and creates nothing.
\<close>

definition assignProp :: "string \<Rightarrow> bool \<Rightarrow> (string \<times> bool) list \<Rightarrow> (string \<times> bool) list" where
  "assignProp k v st =
     (if map_of st k \<noteq> None then AList.update k v st
      else if k = ''__proto__'' then st
      else if isArrayIndex k then
        takeWhile (\<lambda>e. isArrayIndex (fst e) \<and> indexValue (fst e) < indexValue k) st
          @ (k, v) # dropWhile (\<lambda>e. isArrayIndex (fst e) \<and> indexValue (fst e) < indexValue k) st
      else st @ [(k, v)])"

text \<open>
  The loop \<open>elements.forEach(el => { if (parseInt(el.dataset.delay) === k) found = el; })\<close>:
  the last element whose ordinal is \<open>k\<close>.
\<close>

definition elementWithDelay :: "int option list \<Rightarrow> int \<Rightarrow> nat option" where
  "elementWithDelay ds k =
     fold (\<lambda>i found. if ds ! i = Some k then Some i else found) [0..<length ds] None"

subsection \<open>Click-reveal functions\<close>

text \<open>\<open>getClickRevealElements(slide)\<close>: the slide's \<open>[data-delay]\<close> elements.\<close>

definition getClickRevealElements :: "page \<Rightarrow> nat \<Rightarrow> int option list" where
  "getClickRevealElements p a = delays (slides p ! a)"

definition isCurrentSlideClickReveal :: "page \<Rightarrow> pres \<Rightarrow> bool" where
  "isCurrentSlideClickReveal p s =
     (case slideByNumber p (currentSlide s) of
        None \<Rightarrow> False
      | Some a \<Rightarrow> click_reveal (slides p ! a))"

definition allElementsRevealed :: "page \<Rightarrow> pres \<Rightarrow> bool" where
  "allElementsRevealed p s =
     (case slideByNumber p (currentSlide s) of
        None \<Rightarrow> True
      | Some a \<Rightarrow>
          counterOr0 (clickRevealState s) (currentSlide s)
            \<ge> int (length (getClickRevealElements p a)))"

definition revealNextElement :: "page \<Rightarrow> pres \<Rightarrow> bool \<times> pres" where
  "revealNextElement p s =
     (case slideByNumber p (currentSlide s) of
        None \<Rightarrow> (False, s)
      | Some a \<Rightarrow>
          let elements = getClickRevealElements p a;
              currentIndex = counterOr0 (clickRevealState s) (currentSlide s)
          in if currentIndex \<ge> int (length elements) then (False, s)
             else
               let s1 = (case elementWithDelay elements currentIndex of
                           None \<Rightarrow> s
                         | Some e \<Rightarrow> s\<lparr>visible_els := insert (a, e) (visible_els s)\<rparr>)
               in (True, s1\<lparr>clickRevealState :=
                     AList.update (currentSlide s) (currentIndex + 1) (clickRevealState s1)\<rparr>))"

definition hideLastRevealedElement :: "page \<Rightarrow> pres \<Rightarrow> bool \<times> pres" where
  "hideLastRevealedElement p s =
     (case activeSlideEl p s of
        None \<Rightarrow> (False, s)
      | Some a \<Rightarrow>
          if \<not> click_reveal (slides p ! a) then (False, s)
          else
            let elements = delays (slides p ! a);
                currentIndex = counterOr0 (clickRevealState s) (currentSlide s)
            in if currentIndex \<le> 0 then (False, s)
               else
                 let s1 = (case elementWithDelay elements (currentIndex - 1) of
                             None \<Rightarrow> s
                           | Some e \<Rightarrow> s\<lparr>visible_els := visible_els s - {(a, e)}\<rparr>)
                 in (True, s1\<lparr>clickRevealState :=
                       AList.update (currentSlide s) (currentIndex - 1) (clickRevealState s1)\<rparr>))"

definition updateClickRevealIndicator :: "page \<Rightarrow> pres \<Rightarrow> pres" where
  "updateClickRevealIndicator p s =
     (if \<not> has_indicator p then s
      else if isCurrentSlideClickReveal p s \<and> \<not> allElementsRevealed p s
        then s\<lparr>indicator_visible := True\<rparr>
        else s\<lparr>indicator_visible := False\<rparr>)"

text \<open>
  \<open>animateSlide(slide)\<close> for the slide element \<open>j\<close>.  On a slide that is not click-reveal
  it starts one timer per \<open>data-delay\<close> element, each of which adds \<open>visible\<close>; the model
  takes the state once all of them have fired.
\<close>

definition animateSlide :: "page \<Rightarrow> nat \<Rightarrow> pres \<Rightarrow> pres" where
  "animateSlide p j s =
     (if click_reveal (slides p ! j) then
        (let slideNum = data_slide (slides p ! j)
         in if map_of (clickRevealState s) slideNum = None
            then s\<lparr>clickRevealState := AList.update slideNum 0 (clickRevealState s)\<rparr>
            else s)
      else s\<lparr>visible_els := visible_els s \<union> Pair j ` set [0..<length (delays (slides p ! j))]\<rparr>)"

subsection \<open>Slide navigation\<close>

definition updateProgress :: "pres \<Rightarrow> pres" where
  "updateProgress s =
     s\<lparr>progress := (real_of_int (currentSlide s - 1) / real_of_int (totalSlides - 1)) * 100,
       current_text := currentSlide s\<rparr>"

definition updateNavButtons :: "pres \<Rightarrow> pres" where
  "updateNavButtons s =
     s\<lparr>prev_disabled := (currentSlide s = 1), next_disabled := (currentSlide s = totalSlides)\<rparr>"

text \<open>
  The function declared as \<open>goToSlide\<close>, which the script later keeps as
  \<open>originalGoToSlide\<close>.  \<open>activeSlide.classList\<close> throws when no element has the target's
  \<open>data-slide\<close>: \<open>currentSlide\<close> is already written then, and no slide is active.
\<close>

definition originalGoToSlide :: "page \<Rightarrow> int \<Rightarrow> pres \<Rightarrow> completion \<times> pres" where
  "originalGoToSlide p slideNum s =
     (if slideNum < 1 \<or> slideNum > totalSlides then (Returned, s)
      else
        let s1 = s\<lparr>active_slides := {}, currentSlide := slideNum\<rparr>
        in case slideByNumber p slideNum of
             None \<Rightarrow> (Thrown, s1)
           | Some a \<Rightarrow>
               (Returned,
                updateNavButtons (updateProgress
                  (s1\<lparr>active_slides := {a}, pending := pending s1 @ [Animate a]\<rparr>))))"

definition updateSlideMenuActive :: "page \<Rightarrow> pres \<Rightarrow> pres" where
  "updateSlideMenuActive p s =
     s\<lparr>menu_active :=
         set (filter (\<lambda>i. menu_goto p ! i = Some (currentSlide s)) [0..<length (menu_goto p)])\<rparr>"

subsection \<open>The dependency widgets of slides 10 and 11\<close>

text \<open>\<open>slideN.querySelector(`[data-fag="${f}"]`)\<close>\<close>

definition cellInSlide :: "page \<Rightarrow> int \<Rightarrow> string \<Rightarrow> nat option" where
  "cellInSlide p n f =
     querySelector (length (cells p)) (\<lambda>j. in_slide (cells p ! j) = n \<and> data_fag (cells p ! j) = f)"

text \<open>
  A name that stands for itself between double quotes in a selector.  There CSS reads
  every character as itself except the double quote, which ends the string, the backslash,
  which starts an escape, the line feed, carriage return and form feed, which make the
  string invalid, and the null character, which is read as another one.
\<close>

definition cssPlain :: "string \<Rightarrow> bool" where
  "cssPlain key =
     list_all (\<lambda>c. c \<notin> set [CHR 0x00, CHR 0x0A, CHR 0x0C, CHR 0x0D, CHR 0x22, CHR 0x5C]) key"

text \<open>The selector text \<open>`[data-fag="${key}"]`\<close>, and \<open>[data-slide="11"]\<close> with a space.\<close>

definition fagSelector :: "string \<Rightarrow> string" where
  "fagSelector key = ''[data-fag='' @ [CHR 0x22] @ key @ [CHR 0x22] @ '']''"

definition slide11Prefix :: string where
  "slide11Prefix = ''[data-slide='' @ [CHR 0x22] @ ''11'' @ [CHR 0x22] @ ''] ''"

text \<open>
  \<open>document.querySelector(`[data-fag="${key}"]`)\<close> of \<open>handleFagClick\<close> and
  \<open>document.querySelector(`[data-slide="11"] [data-fag="${key}"]`)\<close> of
  \<open>handleFagClickSlide11\<close>.  For a plain key the text is the test that \<open>data-fag\<close> equals
  the key, on slide 11 for the elements inside a \<open>data-slide="11"\<close> section.
\<close>

definition queryFag :: "page \<Rightarrow> string \<Rightarrow> query_result" where
  "queryFag p key =
     (if cssPlain key
      then Result (querySelector (length (cells p)) (\<lambda>j. data_fag (cells p ! j) = key))
      else other_query p (fagSelector key))"

definition queryFagSlide11 :: "page \<Rightarrow> string \<Rightarrow> query_result" where
  "queryFagSlide11 p key =
     (if cssPlain key
      then Result (querySelector (length (cells p))
                     (\<lambda>j. in_slide (cells p ! j) = 11 \<and> data_fag (cells p ! j) = key))
      else other_query p (slide11Prefix @ fagSelector key))"

text \<open>
  The body of the loop \<open>Object.keys(state).forEach(key => ...)\<close> of both click handlers,
  on the flags and the set of selected cells; \<open>query\<close> finds \<open>otherCell\<close>.  The key is an
  own property, so the assignment overwrites it in place.  A \<open>SyntaxError\<close> is not caught.
\<close>

definition deselectIfRequires ::
  "page \<Rightarrow> (string \<Rightarrow> query_result) \<Rightarrow> string \<Rightarrow> string \<Rightarrow> (string \<times> bool) list \<times> nat set
     \<Rightarrow> completion \<times> (string \<times> bool) list \<times> nat set" where
  "deselectIfRequires p query fagId key state =
     (case query key of
        SyntaxError \<Rightarrow> (Thrown, state)
      | Result None \<Rightarrow> (Returned, state)
      | Result (Some j) \<Rightarrow>
          (Returned,
           if data_requires (cells p ! j) = Some fagId
           then (AList.update key False (fst state), snd state - {j})
           else state)
      | Stranger r \<Rightarrow>
          (Returned,
           if r = Some fagId then (AList.update key False (fst state), snd state) else state))"

text \<open>\<open>keys.forEach(body)\<close>: a throw of the body ends the loop, and what is written stays.\<close>

fun forEachKey ::
  "(string \<Rightarrow> 'a \<Rightarrow> completion \<times> 'a) \<Rightarrow> string list \<Rightarrow> 'a \<Rightarrow> completion \<times> 'a" where
  "forEachKey body [] state = (Returned, state)"
| "forEachKey body (key # keys) state =
     (case body key state of
        (Thrown, state1) \<Rightarrow> (Thrown, state1)
      | (Returned, state1) \<Rightarrow> forEachKey body keys state1)"

definition deselectRequiring ::
  "page \<Rightarrow> (string \<Rightarrow> query_result) \<Rightarrow> string \<Rightarrow> (string \<times> bool) list \<times> nat set
     \<Rightarrow> completion \<times> (string \<times> bool) list \<times> nat set" where
  "deselectRequiring p query fagId start =
     forEachKey (deselectIfRequires p query fagId) (map fst (fst start)) start"

definition updateArrowPosition :: "page \<Rightarrow> layout \<Rightarrow> string \<Rightarrow> pres \<Rightarrow> pres" where
  "updateArrowPosition p lay type s =
     (case slideByNumber p 10 of
        None \<Rightarrow> s
      | Some _ \<Rightarrow>
          let cell1 = cellInSlide p 10 (if type = ''fysikk'' then ''fysikk1'' else ''r1'');
              cell2 = cellInSlide p 10 (if type = ''fysikk'' then ''fysikk2'' else ''r2'')
          in case (cell1, cell2, container_rect lay) of
               (Some c1, Some c2, Some containerRect) \<Rightarrow>
                 if \<not> svg_present lay then s
                 else
                   let cell1Rect = cell_rect lay c1;
                       cell2Rect = cell_rect lay c2;
                       centerX = r_left cell1Rect + r_width cell1Rect / 2 - r_left containerRect;
                       y1 = r_bottom cell1Rect - r_top containerRect + 5;
                       y2 = r_top cell2Rect - r_top containerRect - 5
                   in s\<lparr>arrow_attrs := AList.update type (centerX, y1, centerX, y2) (arrow_attrs s)\<rparr>
             | _ \<Rightarrow> s)"

text \<open>
  The arrow and result elements are read without a null check, so the page is taken to
  have them.
\<close>

definition updateFordypningVisuals :: "page \<Rightarrow> layout \<Rightarrow> pres \<Rightarrow> pres" where
  "updateFordypningVisuals p lay s =
     (case slideByNumber p 10 of
        None \<Rightarrow> s
      | Some _ \<Rightarrow>
          let s1 =
            (if truthy (interactiveState s) ''fysikk1'' \<and> truthy (interactiveState s) ''fysikk2''
             then
               (let s' = (if ''fysikk'' \<notin> arrows_visible s
                          then (let s'' = updateArrowPosition p lay ''fysikk'' s
                                in s''\<lparr>arrows_visible := insert ''fysikk'' (arrows_visible s'')\<rparr>)
                          else s)
                in s'\<lparr>results_visible := insert ''fysikk'' (results_visible s')\<rparr>)
             else s\<lparr>arrows_visible := arrows_visible s - {''fysikk''},
                    results_visible := results_visible s - {''fysikk''}\<rparr>)
          in
            (if truthy (interactiveState s1) ''r1'' \<and> truthy (interactiveState s1) ''r2''
             then
               (let s' = (if ''matte'' \<notin> arrows_visible s1
                          then (let s'' = updateArrowPosition p lay ''matte'' s1
                                in s''\<lparr>arrows_visible := insert ''matte'' (arrows_visible s'')\<rparr>)
                          else s1)
                in s'\<lparr>results_visible := insert ''matte'' (results_visible s')\<rparr>)
             else s1\<lparr>arrows_visible := arrows_visible s1 - {''matte''},
                     results_visible := results_visible s1 - {''matte''}\<rparr>))"

text \<open>
  \<open>handleFagClick(cell)\<close> for the cell at position \<open>i\<close>.  The result is the state when the
  call ends, by returning or by a throw of the cascade.  Nothing catches the throw and
  nothing runs after the call, since its listener stops the click; so after a throw the
  state is what the handler has written until then, and \<open>updateFordypningVisuals\<close> has not
  run.
\<close>

definition handleFagClick :: "page \<Rightarrow> layout \<Rightarrow> nat \<Rightarrow> pres \<Rightarrow> pres" where
  "handleFagClick p lay i s =
     (let fagId = data_fag (cells p ! i);
          requires = data_requires (cells p ! i)
      in if (case requires of None \<Rightarrow> False
                            | Some r \<Rightarrow> r \<noteq> [] \<and> \<not> truthy (interactiveState s) r)
         then s\<lparr>shaking_cells := insert i (shaking_cells s)\<rparr>
         else if truthy (interactiveState s) fagId then
           (case deselectRequiring p (queryFag p) fagId
                   (assignProp fagId False (interactiveState s), selected_cells s - {i}) of
              (Thrown, st, sel) \<Rightarrow> s\<lparr>interactiveState := st, selected_cells := sel\<rparr>
            | (Returned, st, sel) \<Rightarrow>
                updateFordypningVisuals p lay (s\<lparr>interactiveState := st, selected_cells := sel\<rparr>))
         else
           updateFordypningVisuals p lay
             (s\<lparr>interactiveState := assignProp fagId True (interactiveState s),
                selected_cells := insert i (selected_cells s)\<rparr>))"

text \<open>
  Modelled from the spec: the markup is not in the sources.  Leaving a widget's slide
  "hides all indicators/results": the \<open>.arrow-line\<close> elements of slide 10 are its two
  arrows \<open>.fysikk-arrow\<close> and \<open>.matte-arrow\<close>, those of slide 11 are \<open>.okonomi-arrow\<close> and
  \<open>.samfunn-arrow\<close>, and the \<open>.fordypning-result\<close> elements are the result boxes of the
  same pairs.
\<close>

definition arrow_lines :: "int \<Rightarrow> string set" where
  "arrow_lines n =
     (if n = 10 then {''fysikk'', ''matte''}
      else if n = 11 then {''okonomi'', ''samfunn''} else {})"

definition fordypning_results :: "int \<Rightarrow> string set" where
  "fordypning_results n = arrow_lines n"

text \<open>\<open>slideN.querySelectorAll('.fag-cell.clickable')\<close>\<close>

definition clickableCells :: "page \<Rightarrow> int \<Rightarrow> nat set" where
  "clickableCells p n =
     set (filter (\<lambda>j. in_slide (cells p ! j) = n \<and> clickable (cells p ! j)) [0..<length (cells p)])"

text \<open>
  The four names that the reset functions assign to are no array indices and not
  \<open>__proto__\<close>: the assignment overwrites in place, or appends if the name is not there,
  which is \<open>AList.update\<close>.
\<close>

definition resetInteractiveSlide10 :: "page \<Rightarrow> pres \<Rightarrow> pres" where
  "resetInteractiveSlide10 p s =
     (let s1 = s\<lparr>interactiveState :=
                   AList.update ''r2'' False (AList.update ''r1'' False
                     (AList.update ''fysikk2'' False (AList.update ''fysikk1'' False
                       (interactiveState s))))\<rparr>
      in case slideByNumber p 10 of
           None \<Rightarrow> s1
         | Some _ \<Rightarrow>
             s1\<lparr>selected_cells := selected_cells s1 - clickableCells p 10,
                arrows_visible := arrows_visible s1 - arrow_lines 10,
                results_visible := results_visible s1 - fordypning_results 10\<rparr>)"

text \<open>Slide 11: the same functions on \<open>interactiveState11\<close>.\<close>

definition updateArrowPositionSlide11 :: "page \<Rightarrow> layout \<Rightarrow> string \<Rightarrow> pres \<Rightarrow> pres" where
  "updateArrowPositionSlide11 p lay type s =
     (case slideByNumber p 11 of
        None \<Rightarrow> s
      | Some _ \<Rightarrow>
          let cell1 = cellInSlide p 11 (if type = ''okonomi'' then ''okonomi1'' else ''samfunn1'');
              cell2 = cellInSlide p 11 (if type = ''okonomi'' then ''okonomi2'' else ''samfunn2'')
          in case (cell1, cell2, container_rect lay) of
               (Some c1, Some c2, Some containerRect) \<Rightarrow>
                 if \<not> svg_present lay then s
                 else
                   let cell1Rect = cell_rect lay c1;
                       cell2Rect = cell_rect lay c2;
                       centerX = r_left cell1Rect + r_width cell1Rect / 2 - r_left containerRect;
                       y1 = r_bottom cell1Rect - r_top containerRect + 5;
                       y2 = r_top cell2Rect - r_top containerRect - 5
                   in s\<lparr>arrow_attrs := AList.update type (centerX, y1, centerX, y2) (arrow_attrs s)\<rparr>
             | _ \<Rightarrow> s)"

definition updateFordypningVisualsSlide11 :: "page \<Rightarrow> layout \<Rightarrow> pres \<Rightarrow> pres" where
  "updateFordypningVisualsSlide11 p lay s =
     (case slideByNumber p 11 of
        None \<Rightarrow> s
      | Some _ \<Rightarrow>
          let s1 =
            (if truthy (interactiveState11 s) ''okonomi1'' \<and> truthy (interactiveState11 s) ''okonomi2''
             then
               (let s' = (if ''okonomi'' \<notin> arrows_visible s
                          then (let s'' = updateArrowPositionSlide11 p lay ''okonomi'' s
                                in s''\<lparr>arrows_visible := insert ''okonomi'' (arrows_visible s'')\<rparr>)
                          else s)
                in s'\<lparr>results_visible := insert ''okonomi'' (results_visible s')\<rparr>)
             else s\<lparr>arrows_visible := arrows_visible s - {''okonomi''},
                    results_visible := results_visible s - {''okonomi''}\<rparr>)
          in
            (if truthy (interactiveState11 s1) ''samfunn1'' \<and> truthy (interactiveState11 s1) ''samfunn2''
             then
               (let s' = (if ''samfunn'' \<notin> arrows_visible s1
                          then (let s'' = updateArrowPositionSlide11 p lay ''samfunn'' s1
                                in s''\<lparr>arrows_visible := insert ''samfunn'' (arrows_visible s'')\<rparr>)
                          else s1)
                in s'\<lparr>results_visible := insert ''samfunn'' (results_visible s')\<rparr>)
             else s1\<lparr>arrows_visible := arrows_visible s1 - {''samfunn''},
                     results_visible := results_visible s1 - {''samfunn''}\<rparr>))"

definition handleFagClickSlide11 :: "page \<Rightarrow> layout \<Rightarrow> nat \<Rightarrow> pres \<Rightarrow> pres" where
  "handleFagClickSlide11 p lay i s =
     (let fagId = data_fag (cells p ! i);
          requires = data_requires (cells p ! i)
      in if (case requires of None \<Rightarrow> False
                            | Some r \<Rightarrow> r \<noteq> [] \<and> \<not> truthy (interactiveState11 s) r)
         then s\<lparr>shaking_cells := insert i (shaking_cells s)\<rparr>
         else if truthy (interactiveState11 s) fagId then
           (case deselectRequiring p (queryFagSlide11 p) fagId
                   (assignProp fagId False (interactiveState11 s), selected_cells s - {i}) of
              (Thrown, st, sel) \<Rightarrow> s\<lparr>interactiveState11 := st, selected_cells := sel\<rparr>
            | (Returned, st, sel) \<Rightarrow>
                updateFordypningVisualsSlide11 p lay
                  (s\<lparr>interactiveState11 := st, selected_cells := sel\<rparr>))
         else
           updateFordypningVisualsSlide11 p lay
             (s\<lparr>interactiveState11 := assignProp fagId True (interactiveState11 s),
                selected_cells := insert i (selected_cells s)\<rparr>))"

definition resetInteractiveSlide11 :: "page \<Rightarrow> pres \<Rightarrow> pres" where
  "resetInteractiveSlide11 p s =
     (let s1 = s\<lparr>interactiveState11 :=
                   AList.update ''samfunn2'' False (AList.update ''samfunn1'' False
                     (AList.update ''okonomi2'' False (AList.update ''okonomi1'' False
                       (interactiveState11 s))))\<rparr>
      in case slideByNumber p 11 of
           None \<Rightarrow> s1
         | Some _ \<Rightarrow>
             s1\<lparr>selected_cells := selected_cells s1 - clickableCells p 11,
                arrows_visible := arrows_visible s1 - arrow_lines 11,
                results_visible := results_visible s1 - fordypning_results 11\<rparr>)"

text \<open>
  \<open>goToSlide\<close> as every caller sees it: the script replaces the declared function by this
  wrapper before any event is handled.  A throw of \<open>originalGoToSlide\<close> skips the rest.
\<close>

definition goToSlide :: "page \<Rightarrow> int \<Rightarrow> pres \<Rightarrow> completion \<times> pres" where
  "goToSlide p slideNum s =
     (let s1 = (if currentSlide s = 10 \<and> slideNum \<noteq> 10 then resetInteractiveSlide10 p s else s);
          s2 = (if currentSlide s1 = 11 \<and> slideNum \<noteq> 11 then resetInteractiveSlide11 p s1 else s1)
      in case originalGoToSlide p slideNum s2 of
           (Thrown, s3) \<Rightarrow> (Thrown, s3)
         | (Returned, s3) \<Rightarrow>
             (Returned, updateClickRevealIndicator p (updateSlideMenuActive p s3)))"

definition nextSlide :: "page \<Rightarrow> pres \<Rightarrow> completion \<times> pres" where
  "nextSlide p s = goToSlide p (currentSlide s + 1) s"

definition prevSlide :: "page \<Rightarrow> pres \<Rightarrow> completion \<times> pres" where
  "prevSlide p s = goToSlide p (currentSlide s - 1) s"

subsection \<open>Speech bubbles and modals\<close>

definition closeSpeechBubble :: "nat \<Rightarrow> pres \<Rightarrow> pres" where
  "closeSpeechBubble b s = s\<lparr>bubbles_visible := bubbles_visible s - {b}\<rparr>"

definition closeAllSpeechBubbles :: "pres \<Rightarrow> pres" where
  "closeAllSpeechBubbles s = s\<lparr>bubbles_visible := {}\<rparr>"

definition toggleSpeechBubble :: "nat \<Rightarrow> pres \<Rightarrow> pres" where
  "toggleSpeechBubble b s =
     (if b \<in> bubbles_visible s then closeSpeechBubble b s
      else (let s1 = closeAllSpeechBubbles s
            in s1\<lparr>bubbles_visible := insert b (bubbles_visible s1)\<rparr>))"

definition openImageModal :: "page \<Rightarrow> pres \<Rightarrow> pres" where
  "openImageModal p s =
     (if \<not> has_image_modal p \<or> \<not> has_modal_image p then s
      else s\<lparr>image_modal_visible := True, body_overflow_hidden := True\<rparr>)"

definition closeImageModal :: "page \<Rightarrow> pres \<Rightarrow> pres" where
  "closeImageModal p s =
     (if \<not> has_image_modal p then s
      else s\<lparr>image_modal_visible := False, body_overflow_hidden := False\<rparr>)"

definition openQrModal :: "page \<Rightarrow> pres \<Rightarrow> pres" where
  "openQrModal p s =
     (if \<not> has_qr_modal p then s
      else s\<lparr>qr_modal_visible := True, body_overflow_hidden := True\<rparr>)"

definition closeQrModal :: "page \<Rightarrow> pres \<Rightarrow> pres" where
  "closeQrModal p s =
     (if \<not> has_qr_modal p then s
      else s\<lparr>qr_modal_visible := False, body_overflow_hidden := False\<rparr>)"

subsection \<open>Input handlers\<close>

text \<open>
  \<open>handleKeydown(e)\<close> on \<open>e.key\<close>.  \<open>toggleFullscreen\<close> changes nothing that is modelled.
\<close>

definition handleKeydown :: "page \<Rightarrow> string \<Rightarrow> pres \<Rightarrow> pres" where
  "handleKeydown p key s =
     (if key = ''ArrowRight'' \<or> key = ''ArrowDown'' \<or> key = '' '' \<or> key = ''PageDown'' then
        (if isCurrentSlideClickReveal p s \<and> \<not> allElementsRevealed p s
         then snd (revealNextElement p s)
         else snd (nextSlide p s))
      else if key = ''ArrowLeft'' \<or> key = ''ArrowUp'' \<or> key = ''PageUp'' then snd (prevSlide p s)
      else if key = ''Home'' then snd (goToSlide p 1 s)
      else if key = ''End'' then snd (goToSlide p totalSlides s)
      else if key = ''f'' \<or> key = ''F'' then s
      else if key = ''Escape'' then
        (if isCurrentSlideClickReveal p s then
           (case hideLastRevealedElement p s of
              (True, s1) \<Rightarrow> updateClickRevealIndicator p s1
            | (False, s1) \<Rightarrow> s1)
         else s)
      else s)"

text \<open>
  \<open>handleSlideContainerClick(e)\<close>; \<open>onInteractive\<close> is
  \<open>e.target.closest('a, button, input, .fag-cell.clickable, .has-info')\<close> being non-null.
\<close>

definition handleSlideContainerClick :: "page \<Rightarrow> bool \<Rightarrow> pres \<Rightarrow> pres" where
  "handleSlideContainerClick p onInteractive s =
     (if \<not> isCurrentSlideClickReveal p s then s
      else if onInteractive then s
      else if \<not> allElementsRevealed p s
        then updateClickRevealIndicator p (snd (revealNextElement p s))
        else s)"

definition handleTouchStart :: "real \<Rightarrow> pres \<Rightarrow> pres" where
  "handleTouchStart screenX s = s\<lparr>touchStartX := screenX\<rparr>"

definition handleSwipe :: "page \<Rightarrow> pres \<Rightarrow> pres" where
  "handleSwipe p s =
     (let swipeThreshold = 50;
          diff = touchStartX s - touchEndX s
      in if \<bar>diff\<bar> > swipeThreshold then
           (if diff > 0 then
              (if isCurrentSlideClickReveal p s \<and> \<not> allElementsRevealed p s
               then snd (revealNextElement p s)
               else snd (nextSlide p s))
            else snd (prevSlide p s))
         else s)"

definition handleTouchEnd :: "page \<Rightarrow> real \<Rightarrow> pres \<Rightarrow> pres" where
  "handleTouchEnd p screenX s = handleSwipe p (s\<lparr>touchEndX := screenX\<rparr>)"

subsection \<open>Events\<close>

text \<open>
  The four \<open>keydown\<close> listeners are all added to \<open>document\<close>, and none stops the event, so
  each key press runs them in the order they were added: \<open>handleKeydown\<close> (line 490), the
  listener of \<open>initSpeechBubbles\<close> (line 1093), the image modal's (line 1208), the QR
  modal's (line 1261).
\<close>

definition keydownListeners :: "page \<Rightarrow> string \<Rightarrow> (pres \<Rightarrow> pres) list" where
  "keydownListeners p key =
     [handleKeydown p key,
      (\<lambda>s. if key = ''Escape'' then closeAllSpeechBubbles s else s),
      (\<lambda>s. if key = ''Escape'' \<and> has_image_modal p \<and> image_modal_visible s
            then closeImageModal p s else s),
      (\<lambda>s. if key = ''Escape'' \<and> has_qr_modal p \<and> qr_modal_visible s
            then closeQrModal p s else s)]"

text \<open>
  The dispatch of one event to its listeners, one after the other: the state before the
  first listener, and the state after each.
\<close>

fun dispatch :: "('s \<Rightarrow> 's) list \<Rightarrow> 's \<Rightarrow> 's list" where
  "dispatch [] s = [s]"
| "dispatch (listener # listeners) s = s # dispatch listeners (listener s)"

definition keydown :: "page \<Rightarrow> string \<Rightarrow> pres \<Rightarrow> pres" where
  "keydown p key s = last (dispatch (keydownListeners p key) s)"

text \<open>The listener a menu item gets in \<open>initSlideMenu\<close>; \<open>None\<close> is \<open>NaN\<close>.\<close>

definition menuItemClick :: "page \<Rightarrow> nat \<Rightarrow> pres \<Rightarrow> pres" where
  "menuItemClick p i s =
     (case menu_goto p ! i of
        None \<Rightarrow> s
      | Some slideNum \<Rightarrow>
          if slideNum \<ge> 1 \<and> slideNum \<le> totalSlides then snd (goToSlide p slideNum s) else s)"

text \<open>
  \<open>initInteractiveSlide10\<close> and \<open>initInteractiveSlide11\<close> give a click listener to each
  \<open>.fag-cell.clickable\<close> of their slide, if the slide exists.  The listener calls the
  handler on every click on the cell, whatever the current slide is.
\<close>

definition cellClick :: "page \<Rightarrow> layout \<Rightarrow> nat \<Rightarrow> pres \<Rightarrow> pres" where
  "cellClick p lay i s =
     (if i \<in> clickableCells p 10 \<and> slideByNumber p 10 \<noteq> None
        then handleFagClick p lay i s
      else if i \<in> clickableCells p 11 \<and> slideByNumber p 11 \<noteq> None
        then handleFagClickSlide11 p lay i s
      else s)"

definition timerFires :: "page \<Rightarrow> nat \<Rightarrow> pres \<Rightarrow> pres" where
  "timerFires p k s =
     (if k < length (pending s) then
        (let s1 = s\<lparr>pending := take k (pending s) @ drop (Suc k) (pending s)\<rparr>
         in case pending s ! k of
              Animate a \<Rightarrow> animateSlide p a s1
            | AnimateActive \<Rightarrow>
                (case activeSlideEl p s1 of None \<Rightarrow> s1 | Some a \<Rightarrow> animateSlide p a s1))
      else s)"

text \<open>
  What the user and the clock can do.  A click that no listener stops reaches the
  \<open>document\<close> listener that closes all speech bubbles; the listeners of cells, info icons
  and the QR trigger stop it.  A disabled button gets no click.
\<close>

datatype event =
    KeyDown string
  | TouchStart real
  | TouchEnd real
  | PrevClick
  | NextClick
  | MenuClick nat
  | ContainerClick
  | CellClick nat layout
  | InfoClick nat
  | BubbleCloseClick nat
  | ImageClick
  | ImageModalClose
  | QrClick
  | QrModalClose
  | TimerFires nat

fun step :: "page \<Rightarrow> event \<Rightarrow> pres \<Rightarrow> pres" where
  "step p (KeyDown key) s = keydown p key s"
| "step p (TouchStart x) s = handleTouchStart x s"
| "step p (TouchEnd x) s = handleTouchEnd p x s"
| "step p PrevClick s =
     (if prev_disabled s then s else closeAllSpeechBubbles (snd (prevSlide p s)))"
| "step p NextClick s =
     (if next_disabled s then s else closeAllSpeechBubbles (snd (nextSlide p s)))"
| "step p (MenuClick i) s =
     (if i < length (menu_goto p) then closeAllSpeechBubbles (menuItemClick p i s) else s)"
| "step p ContainerClick s = closeAllSpeechBubbles (handleSlideContainerClick p False s)"
| "step p (CellClick i lay) s = cellClick p lay i s"
| "step p (InfoClick b) s = toggleSpeechBubble b s"
| "step p (BubbleCloseClick b) s = closeSpeechBubble b s"
| "step p ImageClick s = closeAllSpeechBubbles (openImageModal p s)"
| "step p ImageModalClose s = closeAllSpeechBubbles (closeImageModal p s)"
| "step p QrClick s = openQrModal p s"
| "step p QrModalClose s = closeAllSpeechBubbles (closeQrModal p s)"
| "step p (TimerFires k) s = timerFires p k s"

definition run :: "page \<Rightarrow> event list \<Rightarrow> pres \<Rightarrow> pres" where
  "run p evs s = fold (step p) evs s"

text \<open>
  The state when the \<open>DOMContentLoaded\<close> callback returns: the variables as declared,
  \<open>visible\<close> removed from every \<open>data-delay\<close> element by \<open>preloadAnimations\<close>, the progress
  readout, buttons and menu set for slide 1, the timer of \<open>init\<close> pending.  The class
  \<open>active\<close> is where the markup has it; the markup is taken to carry none of the other
  classes the script toggles.
\<close>

definition init :: "page \<Rightarrow> pres" where
  "init p =
     updateSlideMenuActive p (updateNavButtons (updateProgress
       \<lparr>currentSlide = 1,
        clickRevealState = [],
        interactiveState =
          [(''fysikk1'', False), (''fysikk2'', False), (''r1'', False), (''r2'', False)],
        interactiveState11 =
          [(''okonomi1'', False), (''okonomi2'', False), (''samfunn1'', False), (''samfunn2'', False)],
        touchStartX = 0,
        touchEndX = 0,
        pending = [AnimateActive],
        active_slides = initially_active p,
        visible_els = {},
        selected_cells = {},
        shaking_cells = {},
        arrows_visible = {},
        results_visible = {},
        arrow_attrs = [],
        menu_active = {},
        indicator_visible = False,
        progress = 0,
        current_text = 1,
        prev_disabled = False,
        next_disabled = False,
        image_modal_visible = False,
        qr_modal_visible = False,
        bubbles_visible = {},
        body_overflow_hidden = False\<rparr>))"

section \<open>Notions used in the statements\<close>

definition elementCount :: "page \<Rightarrow> int \<Rightarrow> int" where
  "elementCount p n =
     (case slideByNumber p n of
        None \<Rightarrow> 0
      | Some a \<Rightarrow> int (length (getClickRevealElements p a)))"

definition counters_ok :: "page \<Rightarrow> pres \<Rightarrow> bool" where
  "counters_ok p s \<longleftrightarrow>
     (\<forall>n c. map_of (clickRevealState s) n = Some c \<longrightarrow> 0 \<le> c \<and> c \<le> elementCount p n)"

text \<open>
  A page for the examples: fourteen slides numbered 1 to 14 in document order, slide 1
  active.  Slide 5 is click-reveal with ordinals 0, 1, 2; slide 7 is click-reveal with a
  gap (ordinals 0 and 2 and one \<open>data-delay\<close> that is no number); slide 14 is click-reveal
  with one element.  Slides 10 and 11 are click-reveal too and carry the two widgets, each
  with two prerequisite pairs, the second unit of a pair requiring the first.  No selector
  text is put to the page other than those the embedding reads itself.
\<close>

definition demo_slide :: "int \<Rightarrow> slide_markup" where
  "demo_slide n =
     \<lparr>data_slide = n,
      click_reveal = (n = 5 \<or> n = 7 \<or> n = 10 \<or> n = 11 \<or> n = 14),
      delays = (if n = 5 then [Some 0, Some 1, Some 2]
                else if n = 7 then [Some 0, Some 2, None]
                else if n = 14 then [Some 0]
                else [Some 0, Some 1])\<rparr>"

definition demo_cell :: "int \<Rightarrow> string \<Rightarrow> string option \<Rightarrow> cell_markup" where
  "demo_cell n f r = \<lparr>in_slide = n, data_fag = f, data_requires = r, clickable = True\<rparr>"

definition demo_page :: page where
  "demo_page =
     \<lparr>slides = map demo_slide [1, 2, 3, 4, 5, 6, 7, 8, 9, 10, 11, 12, 13, 14],
      initially_active = {0},
      cells =
        [demo_cell 10 ''fysikk1'' None, demo_cell 10 ''fysikk2'' (Some ''fysikk1''),
         demo_cell 10 ''r1'' None, demo_cell 10 ''r2'' (Some ''r1''),
         demo_cell 11 ''okonomi1'' None, demo_cell 11 ''okonomi2'' (Some ''okonomi1''),
         demo_cell 11 ''samfunn1'' None, demo_cell 11 ''samfunn2'' (Some ''samfunn1'')],
      menu_goto = map Some [1, 2, 3, 4, 5, 6, 7, 8, 9, 10, 11, 12, 13, 14],
      has_indicator = True,
      has_image_modal = True,
      has_modal_image = True,
      has_qr_modal = True,
      other_query = (\<lambda>selector. SyntaxError)\<rparr>"

definition demo_layout :: layout where
  "demo_layout =
     \<lparr>container_rect = Some \<lparr>r_left = 100, r_top = 50, r_width = 800, r_bottom = 650\<rparr>,
      svg_present = True,
      cell_rect = (\<lambda>j. \<lparr>r_left = 150 + 200 * real (j mod 4 div 2), r_top = 100 + 150 * real (j mod 2),
                          r_width = 120, r_bottom = 160 + 150 * real (j mod 2)\<rparr>)\<rparr>"

text \<open>Runs on the example page: on slide 5, on slide 5 with all three elements revealed,
  and on slide 7 after its first element is revealed.\<close>

definition demo_at5 :: pres where
  "demo_at5 = run demo_page [MenuClick 4, TimerFires 0, TimerFires 0] (init demo_page)"

definition demo_revealed5 :: pres where
  "demo_revealed5 =
     run demo_page
       [MenuClick 4, TimerFires 0, TimerFires 0,
        KeyDown ''ArrowRight'', KeyDown '' '', KeyDown ''PageDown'']
       (init demo_page)"

definition demo_gap7 :: pres where
  "demo_gap7 =
     run demo_page [MenuClick 6, TimerFires 0, TimerFires 0, KeyDown ''ArrowRight''] (init demo_page)"

text \<open>A forward navigation input: a forward key, or a touch that ends more than 50 pixels
  to the left of where it started.\<close>

fun forward_input :: "pres \<Rightarrow> event \<Rightarrow> bool" where
  "forward_input s (KeyDown key) =
     (key = ''ArrowRight'' \<or> key = ''ArrowDown'' \<or> key = '' '' \<or> key = ''PageDown'')"
| "forward_input s (TouchEnd x) = (touchStartX s - x > 50)"
| "forward_input s _ = False"

text \<open>On the last slide, click-reveal, with its one element revealed.\<close>

definition demo_last :: pres where
  "demo_last =
     run demo_page [KeyDown ''End'', TimerFires 0, TimerFires 0, KeyDown ''ArrowRight'']
       (init demo_page)"

text \<open>On slide 10 with both of its tagged elements revealed; the same with the image modal
  open and with a speech bubble open; and on slide 10 with \<open>fysikk1\<close> selected.\<close>

definition demo_revealed10 :: pres where
  "demo_revealed10 =
     run demo_page
       [MenuClick 9, TimerFires 0, TimerFires 0, KeyDown ''ArrowRight'', KeyDown ''ArrowRight'']
       (init demo_page)"

definition demo_modal_open :: pres where
  "demo_modal_open = step demo_page ImageClick demo_revealed10"

definition demo_bubble_open :: pres where
  "demo_bubble_open = step demo_page (InfoClick 0) demo_revealed10"

definition demo_fysikk1 :: pres where
  "demo_fysikk1 = step demo_page (CellClick 0 demo_layout) demo_revealed10"

text \<open>The names of the flags of a state object are all plain.\<close>

definition plain_keys :: "(string \<times> bool) list \<Rightarrow> bool" where
  "plain_keys st \<longleftrightarrow> list_all cssPlain (map fst st)"

text \<open>The cell that the cascade for \<open>fagId\<close> finds under \<open>key\<close> and deselects.\<close>

definition dependent_hit :: "page \<Rightarrow> (nat \<Rightarrow> bool) \<Rightarrow> string \<Rightarrow> string \<Rightarrow> nat \<Rightarrow> bool" where
  "dependent_hit p scope fagId key j \<longleftrightarrow>
     querySelector (length (cells p)) (\<lambda>j. scope j \<and> data_fag (cells p ! j) = key) = Some j
     \<and> data_requires (cells p ! j) = Some fagId"

text \<open>
  What the statements about the widgets assume of the markup: no two elements share a
  \<open>data-fag\<close>; an element that is some element's prerequisite declares no prerequisite
  itself (the depth of the dependency graph is 2) and lies on the same slide; the clickable
  cells of slide 10 and of slide 11 are named by the four flags of \<open>interactiveState\<close> and
  of \<open>interactiveState11\<close>; the page has a slide 10 and a slide 11.
\<close>

definition wf_page :: "page \<Rightarrow> bool" where
  "wf_page p \<longleftrightarrow>
     distinct (map data_fag (cells p))
     \<and> (\<forall>c\<in>set (cells p). \<forall>q\<in>set (cells p).
          data_requires c = Some (data_fag q) \<longrightarrow> data_requires q = None \<and> in_slide q = in_slide c)
     \<and> (\<forall>c\<in>set (cells p). clickable c \<and> in_slide c = 10
          \<longrightarrow> data_fag c \<in> {''fysikk1'', ''fysikk2'', ''r1'', ''r2''})
     \<and> (\<forall>c\<in>set (cells p). clickable c \<and> in_slide c = 11
          \<longrightarrow> data_fag c \<in> {''okonomi1'', ''okonomi2'', ''samfunn1'', ''samfunn2''})
     \<and> slideByNumber p 10 \<noteq> None \<and> slideByNumber p 11 \<noteq> None"

text \<open>Both flags of a pair are true.\<close>

definition pair_complete :: "pres \<Rightarrow> string \<Rightarrow> bool" where
  "pair_complete s x \<longleftrightarrow>
     (if x = ''fysikk'' then truthy (interactiveState s) ''fysikk1'' \<and> truthy (interactiveState s) ''fysikk2''
      else if x = ''matte'' then truthy (interactiveState s) ''r1'' \<and> truthy (interactiveState s) ''r2''
      else if x = ''okonomi''
        then truthy (interactiveState11 s) ''okonomi1'' \<and> truthy (interactiveState11 s) ''okonomi2''
      else if x = ''samfunn''
        then truthy (interactiveState11 s) ''samfunn1'' \<and> truthy (interactiveState11 s) ''samfunn2''
      else False)"

text \<open>The invariant of the two widgets, in four parts: the flags are the declared four;
  a selected unit has its prerequisite selected; a clickable cell is marked exactly when
  its flag is true; an arrow and a result box are visible exactly when their pair is
  complete.\<close>

definition keys_ok :: "pres \<Rightarrow> bool" where
  "keys_ok s \<longleftrightarrow>
     map fst (interactiveState s) = [''fysikk1'', ''fysikk2'', ''r1'', ''r2'']
     \<and> map fst (interactiveState11 s) = [''okonomi1'', ''okonomi2'', ''samfunn1'', ''samfunn2'']"

definition prereq_ok :: "page \<Rightarrow> pres \<Rightarrow> bool" where
  "prereq_ok p s \<longleftrightarrow>
     (\<forall>j\<in>clickableCells p 10. \<forall>r. data_requires (cells p ! j) = Some r \<and> r \<noteq> []
        \<longrightarrow> truthy (interactiveState s) (data_fag (cells p ! j)) \<longrightarrow> truthy (interactiveState s) r)
     \<and> (\<forall>j\<in>clickableCells p 11. \<forall>r. data_requires (cells p ! j) = Some r \<and> r \<noteq> []
        \<longrightarrow> truthy (interactiveState11 s) (data_fag (cells p ! j)) \<longrightarrow> truthy (interactiveState11 s) r)"

definition marks_ok :: "page \<Rightarrow> pres \<Rightarrow> bool" where
  "marks_ok p s \<longleftrightarrow>
     (\<forall>j\<in>clickableCells p 10.
        j \<in> selected_cells s \<longleftrightarrow> truthy (interactiveState s) (data_fag (cells p ! j)))
     \<and> (\<forall>j\<in>clickableCells p 11.
        j \<in> selected_cells s \<longleftrightarrow> truthy (interactiveState11 s) (data_fag (cells p ! j)))"

definition indicators_ok :: "pres \<Rightarrow> bool" where
  "indicators_ok s \<longleftrightarrow>
     (\<forall>x\<in>{''fysikk'', ''matte'', ''okonomi'', ''samfunn''}.
        (x \<in> arrows_visible s \<longleftrightarrow> pair_complete s x)
        \<and> (x \<in> results_visible s \<longleftrightarrow> pair_complete s x))"

definition widget_ok :: "page \<Rightarrow> pres \<Rightarrow> bool" where
  "widget_ok p s \<longleftrightarrow> keys_ok s \<and> prereq_ok p s \<and> marks_ok p s \<and> indicators_ok s"

text \<open>Runs on the example page that use the widget of slide 10: \<open>fysikk1\<close> and then
  \<open>fysikk2\<close> selected, and the same on slide 11 with \<open>okonomi1\<close> and \<open>okonomi2\<close>.\<close>

definition demo_pair10 :: pres where
  "demo_pair10 =
     run demo_page
       [MenuClick 9, TimerFires 0, TimerFires 0, CellClick 0 demo_layout, CellClick 1 demo_layout]
       (init demo_page)"

definition demo_pair11 :: pres where
  "demo_pair11 =
     run demo_page
       [MenuClick 10, TimerFires 0, TimerFires 0, CellClick 4 demo_layout, CellClick 5 demo_layout]
       (init demo_page)"

text \<open>A widget as it is on the first visit of its slide: the flags as declared, no clickable
  cell of the slide marked, no arrow and no result box of the slide visible.\<close>

definition first_visit10 :: "page \<Rightarrow> pres \<Rightarrow> bool" where
  "first_visit10 p s \<longleftrightarrow>
     interactiveState s = interactiveState (init p)
     \<and> selected_cells s \<inter> clickableCells p 10 = {}
     \<and> arrows_visible s \<inter> arrow_lines 10 = {}
     \<and> results_visible s \<inter> fordypning_results 10 = {}"

definition first_visit11 :: "page \<Rightarrow> pres \<Rightarrow> bool" where
  "first_visit11 p s \<longleftrightarrow>
     interactiveState11 s = interactiveState11 (init p)
     \<and> selected_cells s \<inter> clickableCells p 11 = {}
     \<and> arrows_visible s \<inter> arrow_lines 11 = {}
     \<and> results_visible s \<inter> fordypning_results 11 = {}"

text \<open>The example layout after the page has been resized.\<close>

definition demo_layout_moved :: layout where
  "demo_layout_moved =
     \<lparr>container_rect = Some \<lparr>r_left = 40, r_top = 20, r_width = 500, r_bottom = 900\<rparr>,
      svg_present = True,
      cell_rect = (\<lambda>j. \<lparr>r_left = 60, r_top = 50 + 200 * real j,
                          r_width = 300, r_bottom = 150 + 200 * real j\<rparr>)\<rparr>"

text \<open>The event is a click on a clickable cell of slide \<open>n\<close>.\<close>

fun clicks_cell_of :: "page \<Rightarrow> int \<Rightarrow> event \<Rightarrow> bool" where
  "clicks_cell_of p n (CellClick i lay) = (i \<in> clickableCells p n)"
| "clicks_cell_of p n _ = False"

text \<open>The run to \<open>demo_pair10\<close>, continued by leaving slide 10 for slide 5; and that run
  continued by a click on the cell \<open>fysikk1\<close> of slide 10 while slide 5 is the current
  slide, and the return to slide 10.\<close>

definition demo_left10 :: pres where
  "demo_left10 =
     run demo_page
       [MenuClick 9, TimerFires 0, TimerFires 0, CellClick 0 demo_layout, CellClick 1 demo_layout,
        MenuClick 4]
       (init demo_page)"

definition demo_back10 :: pres where
  "demo_back10 =
     run demo_page
       [MenuClick 9, TimerFires 0, TimerFires 0, CellClick 0 demo_layout, CellClick 1 demo_layout,
        MenuClick 4, CellClick 0 demo_layout, MenuClick 9]
       (init demo_page)"

section \<open>Basic facts\<close>

subsection \<open>The listeners of a key press\<close>

lemma keydown_unfold:
  "keydown p key s =
     (let s1 = handleKeydown p key s;
          s2 = (if key = ''Escape'' then closeAllSpeechBubbles s1 else s1);
          s3 = (if key = ''Escape'' \<and> has_image_modal p \<and> image_modal_visible s2
                then closeImageModal p s2 else s2)
      in if key = ''Escape'' \<and> has_qr_modal p \<and> qr_modal_visible s3
         then closeQrModal p s3 else s3)"
  by (simp add: keydown_def keydownListeners_def Let_def)

subsection \<open>Lookups\<close>

lemma querySelector_SomeD:
  "querySelector n P = Some i \<Longrightarrow> i < n \<and> P i \<and> (\<forall>j<i. \<not> P j)"
  by (auto simp: querySelector_def find_Some_iff)

lemma querySelector_None_iff:
  "querySelector n P = None \<longleftrightarrow> (\<forall>i<n. \<not> P i)"
  by (auto simp: querySelector_def find_None_iff)

lemma elementWithDelay_fold:
  "fold (\<lambda>i found. if ds ! i = Some k then Some i else found) [0..<n] None = Some e
     \<Longrightarrow> e < n \<and> ds ! e = Some k"
  by (induction n arbitrary: e) (auto split: if_splits)

lemma elementWithDelay_SomeD:
  "elementWithDelay ds k = Some e \<Longrightarrow> e < length ds \<and> ds ! e = Some k"
  unfolding elementWithDelay_def by (rule elementWithDelay_fold)

lemma elementWithDelay_fold_None:
  "(\<forall>e<n. ds ! e \<noteq> Some k)
     \<Longrightarrow> fold (\<lambda>i found. if ds ! i = Some k then Some i else found) [0..<n] None = None"
  by (induction n) auto

lemma elementWithDelay_None:
  "(\<forall>e<length ds. ds ! e \<noteq> Some k) \<Longrightarrow> elementWithDelay ds k = None"
  unfolding elementWithDelay_def by (rule elementWithDelay_fold_None)

subsection \<open>Frames\<close>

lemma updateProgress_frame [simp]:
  "currentSlide (updateProgress s) = currentSlide s"
  "clickRevealState (updateProgress s) = clickRevealState s"
  "interactiveState (updateProgress s) = interactiveState s"
  "interactiveState11 (updateProgress s) = interactiveState11 s"
  "selected_cells (updateProgress s) = selected_cells s"
  "arrows_visible (updateProgress s) = arrows_visible s"
  "results_visible (updateProgress s) = results_visible s"
  "arrow_attrs (updateProgress s) = arrow_attrs s"
  "active_slides (updateProgress s) = active_slides s"
  "visible_els (updateProgress s) = visible_els s"
  "pending (updateProgress s) = pending s"
  by (simp_all add: updateProgress_def Let_def)

lemma updateNavButtons_frame [simp]:
  "currentSlide (updateNavButtons s) = currentSlide s"
  "clickRevealState (updateNavButtons s) = clickRevealState s"
  "interactiveState (updateNavButtons s) = interactiveState s"
  "interactiveState11 (updateNavButtons s) = interactiveState11 s"
  "selected_cells (updateNavButtons s) = selected_cells s"
  "arrows_visible (updateNavButtons s) = arrows_visible s"
  "results_visible (updateNavButtons s) = results_visible s"
  "arrow_attrs (updateNavButtons s) = arrow_attrs s"
  "active_slides (updateNavButtons s) = active_slides s"
  "visible_els (updateNavButtons s) = visible_els s"
  "pending (updateNavButtons s) = pending s"
  by (simp_all add: updateNavButtons_def Let_def)

lemma updateSlideMenuActive_frame [simp]:
  "currentSlide (updateSlideMenuActive p s) = currentSlide s"
  "clickRevealState (updateSlideMenuActive p s) = clickRevealState s"
  "interactiveState (updateSlideMenuActive p s) = interactiveState s"
  "interactiveState11 (updateSlideMenuActive p s) = interactiveState11 s"
  "selected_cells (updateSlideMenuActive p s) = selected_cells s"
  "arrows_visible (updateSlideMenuActive p s) = arrows_visible s"
  "results_visible (updateSlideMenuActive p s) = results_visible s"
  "arrow_attrs (updateSlideMenuActive p s) = arrow_attrs s"
  "active_slides (updateSlideMenuActive p s) = active_slides s"
  "visible_els (updateSlideMenuActive p s) = visible_els s"
  "pending (updateSlideMenuActive p s) = pending s"
  by (simp_all add: updateSlideMenuActive_def Let_def)

lemma updateClickRevealIndicator_frame [simp]:
  "currentSlide (updateClickRevealIndicator p s) = currentSlide s"
  "clickRevealState (updateClickRevealIndicator p s) = clickRevealState s"
  "interactiveState (updateClickRevealIndicator p s) = interactiveState s"
  "interactiveState11 (updateClickRevealIndicator p s) = interactiveState11 s"
  "selected_cells (updateClickRevealIndicator p s) = selected_cells s"
  "arrows_visible (updateClickRevealIndicator p s) = arrows_visible s"
  "results_visible (updateClickRevealIndicator p s) = results_visible s"
  "arrow_attrs (updateClickRevealIndicator p s) = arrow_attrs s"
  "active_slides (updateClickRevealIndicator p s) = active_slides s"
  "visible_els (updateClickRevealIndicator p s) = visible_els s"
  "pending (updateClickRevealIndicator p s) = pending s"
  by (simp_all add: updateClickRevealIndicator_def Let_def)

lemma closeSpeechBubble_frame [simp]:
  "currentSlide (closeSpeechBubble b s) = currentSlide s"
  "clickRevealState (closeSpeechBubble b s) = clickRevealState s"
  "interactiveState (closeSpeechBubble b s) = interactiveState s"
  "interactiveState11 (closeSpeechBubble b s) = interactiveState11 s"
  "selected_cells (closeSpeechBubble b s) = selected_cells s"
  "arrows_visible (closeSpeechBubble b s) = arrows_visible s"
  "results_visible (closeSpeechBubble b s) = results_visible s"
  "arrow_attrs (closeSpeechBubble b s) = arrow_attrs s"
  "active_slides (closeSpeechBubble b s) = active_slides s"
  "visible_els (closeSpeechBubble b s) = visible_els s"
  "pending (closeSpeechBubble b s) = pending s"
  by (simp_all add: closeSpeechBubble_def Let_def)

lemma closeAllSpeechBubbles_frame [simp]:
  "currentSlide (closeAllSpeechBubbles s) = currentSlide s"
  "clickRevealState (closeAllSpeechBubbles s) = clickRevealState s"
  "interactiveState (closeAllSpeechBubbles s) = interactiveState s"
  "interactiveState11 (closeAllSpeechBubbles s) = interactiveState11 s"
  "selected_cells (closeAllSpeechBubbles s) = selected_cells s"
  "arrows_visible (closeAllSpeechBubbles s) = arrows_visible s"
  "results_visible (closeAllSpeechBubbles s) = results_visible s"
  "arrow_attrs (closeAllSpeechBubbles s) = arrow_attrs s"
  "active_slides (closeAllSpeechBubbles s) = active_slides s"
  "visible_els (closeAllSpeechBubbles s) = visible_els s"
  "pending (closeAllSpeechBubbles s) = pending s"
  by (simp_all add: closeAllSpeechBubbles_def Let_def)

lemma toggleSpeechBubble_frame [simp]:
  "currentSlide (toggleSpeechBubble b s) = currentSlide s"
  "clickRevealState (toggleSpeechBubble b s) = clickRevealState s"
  "interactiveState (toggleSpeechBubble b s) = interactiveState s"
  "interactiveState11 (toggleSpeechBubble b s) = interactiveState11 s"
  "selected_cells (toggleSpeechBubble b s) = selected_cells s"
  "arrows_visible (toggleSpeechBubble b s) = arrows_visible s"
  "results_visible (toggleSpeechBubble b s) = results_visible s"
  "arrow_attrs (toggleSpeechBubble b s) = arrow_attrs s"
  "active_slides (toggleSpeechBubble b s) = active_slides s"
  "visible_els (toggleSpeechBubble b s) = visible_els s"
  "pending (toggleSpeechBubble b s) = pending s"
  by (simp_all add: toggleSpeechBubble_def closeSpeechBubble_def closeAllSpeechBubbles_def Let_def)

lemma openImageModal_frame [simp]:
  "currentSlide (openImageModal p s) = currentSlide s"
  "clickRevealState (openImageModal p s) = clickRevealState s"
  "interactiveState (openImageModal p s) = interactiveState s"
  "interactiveState11 (openImageModal p s) = interactiveState11 s"
  "selected_cells (openImageModal p s) = selected_cells s"
  "arrows_visible (openImageModal p s) = arrows_visible s"
  "results_visible (openImageModal p s) = results_visible s"
  "arrow_attrs (openImageModal p s) = arrow_attrs s"
  "active_slides (openImageModal p s) = active_slides s"
  "visible_els (openImageModal p s) = visible_els s"
  "pending (openImageModal p s) = pending s"
  by (simp_all add: openImageModal_def Let_def)

lemma closeImageModal_frame [simp]:
  "currentSlide (closeImageModal p s) = currentSlide s"
  "clickRevealState (closeImageModal p s) = clickRevealState s"
  "interactiveState (closeImageModal p s) = interactiveState s"
  "interactiveState11 (closeImageModal p s) = interactiveState11 s"
  "selected_cells (closeImageModal p s) = selected_cells s"
  "arrows_visible (closeImageModal p s) = arrows_visible s"
  "results_visible (closeImageModal p s) = results_visible s"
  "arrow_attrs (closeImageModal p s) = arrow_attrs s"
  "active_slides (closeImageModal p s) = active_slides s"
  "visible_els (closeImageModal p s) = visible_els s"
  "pending (closeImageModal p s) = pending s"
  by (simp_all add: closeImageModal_def Let_def)

lemma openQrModal_frame [simp]:
  "currentSlide (openQrModal p s) = currentSlide s"
  "clickRevealState (openQrModal p s) = clickRevealState s"
  "interactiveState (openQrModal p s) = interactiveState s"
  "interactiveState11 (openQrModal p s) = interactiveState11 s"
  "selected_cells (openQrModal p s) = selected_cells s"
  "arrows_visible (openQrModal p s) = arrows_visible s"
  "results_visible (openQrModal p s) = results_visible s"
  "arrow_attrs (openQrModal p s) = arrow_attrs s"
  "active_slides (openQrModal p s) = active_slides s"
  "visible_els (openQrModal p s) = visible_els s"
  "pending (openQrModal p s) = pending s"
  by (simp_all add: openQrModal_def Let_def)

lemma closeQrModal_frame [simp]:
  "currentSlide (closeQrModal p s) = currentSlide s"
  "clickRevealState (closeQrModal p s) = clickRevealState s"
  "interactiveState (closeQrModal p s) = interactiveState s"
  "interactiveState11 (closeQrModal p s) = interactiveState11 s"
  "selected_cells (closeQrModal p s) = selected_cells s"
  "arrows_visible (closeQrModal p s) = arrows_visible s"
  "results_visible (closeQrModal p s) = results_visible s"
  "arrow_attrs (closeQrModal p s) = arrow_attrs s"
  "active_slides (closeQrModal p s) = active_slides s"
  "visible_els (closeQrModal p s) = visible_els s"
  "pending (closeQrModal p s) = pending s"
  by (simp_all add: closeQrModal_def Let_def)

lemma handleTouchStart_frame [simp]:
  "currentSlide (handleTouchStart x s) = currentSlide s"
  "clickRevealState (handleTouchStart x s) = clickRevealState s"
  "interactiveState (handleTouchStart x s) = interactiveState s"
  "interactiveState11 (handleTouchStart x s) = interactiveState11 s"
  "selected_cells (handleTouchStart x s) = selected_cells s"
  "arrows_visible (handleTouchStart x s) = arrows_visible s"
  "results_visible (handleTouchStart x s) = results_visible s"
  "arrow_attrs (handleTouchStart x s) = arrow_attrs s"
  "active_slides (handleTouchStart x s) = active_slides s"
  "visible_els (handleTouchStart x s) = visible_els s"
  "pending (handleTouchStart x s) = pending s"
  by (simp_all add: handleTouchStart_def Let_def)

lemma revealNextElement_frame [simp]:
  "currentSlide (snd (revealNextElement p s)) = currentSlide s"
  "interactiveState (snd (revealNextElement p s)) = interactiveState s"
  "interactiveState11 (snd (revealNextElement p s)) = interactiveState11 s"
  "selected_cells (snd (revealNextElement p s)) = selected_cells s"
  "arrows_visible (snd (revealNextElement p s)) = arrows_visible s"
  "results_visible (snd (revealNextElement p s)) = results_visible s"
  "arrow_attrs (snd (revealNextElement p s)) = arrow_attrs s"
  "active_slides (snd (revealNextElement p s)) = active_slides s"
  "pending (snd (revealNextElement p s)) = pending s"
  by (simp_all add: revealNextElement_def Let_def split: option.split)

lemma hideLastRevealedElement_frame [simp]:
  "currentSlide (snd (hideLastRevealedElement p s)) = currentSlide s"
  "interactiveState (snd (hideLastRevealedElement p s)) = interactiveState s"
  "interactiveState11 (snd (hideLastRevealedElement p s)) = interactiveState11 s"
  "selected_cells (snd (hideLastRevealedElement p s)) = selected_cells s"
  "arrows_visible (snd (hideLastRevealedElement p s)) = arrows_visible s"
  "results_visible (snd (hideLastRevealedElement p s)) = results_visible s"
  "arrow_attrs (snd (hideLastRevealedElement p s)) = arrow_attrs s"
  "active_slides (snd (hideLastRevealedElement p s)) = active_slides s"
  "pending (snd (hideLastRevealedElement p s)) = pending s"
  by (simp_all add: hideLastRevealedElement_def Let_def split: option.split)

lemma animateSlide_frame [simp]:
  "currentSlide (animateSlide p j s) = currentSlide s"
  "interactiveState (animateSlide p j s) = interactiveState s"
  "interactiveState11 (animateSlide p j s) = interactiveState11 s"
  "selected_cells (animateSlide p j s) = selected_cells s"
  "arrows_visible (animateSlide p j s) = arrows_visible s"
  "results_visible (animateSlide p j s) = results_visible s"
  "arrow_attrs (animateSlide p j s) = arrow_attrs s"
  "active_slides (animateSlide p j s) = active_slides s"
  "pending (animateSlide p j s) = pending s"
  by (simp_all add: animateSlide_def Let_def)

lemma originalGoToSlide_frame [simp]:
  "clickRevealState (snd (originalGoToSlide p n s)) = clickRevealState s"
  "interactiveState (snd (originalGoToSlide p n s)) = interactiveState s"
  "interactiveState11 (snd (originalGoToSlide p n s)) = interactiveState11 s"
  "selected_cells (snd (originalGoToSlide p n s)) = selected_cells s"
  "arrows_visible (snd (originalGoToSlide p n s)) = arrows_visible s"
  "results_visible (snd (originalGoToSlide p n s)) = results_visible s"
  "arrow_attrs (snd (originalGoToSlide p n s)) = arrow_attrs s"
  "visible_els (snd (originalGoToSlide p n s)) = visible_els s"
  by (simp_all add: originalGoToSlide_def Let_def split: option.split)

lemma updateArrowPosition_frame [simp]:
  "currentSlide (updateArrowPosition p lay ty s) = currentSlide s"
  "clickRevealState (updateArrowPosition p lay ty s) = clickRevealState s"
  "interactiveState (updateArrowPosition p lay ty s) = interactiveState s"
  "interactiveState11 (updateArrowPosition p lay ty s) = interactiveState11 s"
  "selected_cells (updateArrowPosition p lay ty s) = selected_cells s"
  "arrows_visible (updateArrowPosition p lay ty s) = arrows_visible s"
  "results_visible (updateArrowPosition p lay ty s) = results_visible s"
  "active_slides (updateArrowPosition p lay ty s) = active_slides s"
  "visible_els (updateArrowPosition p lay ty s) = visible_els s"
  "pending (updateArrowPosition p lay ty s) = pending s"
  by (simp_all add: updateArrowPosition_def Let_def split: option.split)

lemma updateFordypningVisuals_frame [simp]:
  "currentSlide (updateFordypningVisuals p lay s) = currentSlide s"
  "clickRevealState (updateFordypningVisuals p lay s) = clickRevealState s"
  "interactiveState (updateFordypningVisuals p lay s) = interactiveState s"
  "interactiveState11 (updateFordypningVisuals p lay s) = interactiveState11 s"
  "selected_cells (updateFordypningVisuals p lay s) = selected_cells s"
  "active_slides (updateFordypningVisuals p lay s) = active_slides s"
  "visible_els (updateFordypningVisuals p lay s) = visible_els s"
  "pending (updateFordypningVisuals p lay s) = pending s"
  by (simp_all add: updateFordypningVisuals_def Let_def split: option.split)

lemma updateArrowPositionSlide11_frame [simp]:
  "currentSlide (updateArrowPositionSlide11 p lay ty s) = currentSlide s"
  "clickRevealState (updateArrowPositionSlide11 p lay ty s) = clickRevealState s"
  "interactiveState (updateArrowPositionSlide11 p lay ty s) = interactiveState s"
  "interactiveState11 (updateArrowPositionSlide11 p lay ty s) = interactiveState11 s"
  "selected_cells (updateArrowPositionSlide11 p lay ty s) = selected_cells s"
  "arrows_visible (updateArrowPositionSlide11 p lay ty s) = arrows_visible s"
  "results_visible (updateArrowPositionSlide11 p lay ty s) = results_visible s"
  "active_slides (updateArrowPositionSlide11 p lay ty s) = active_slides s"
  "visible_els (updateArrowPositionSlide11 p lay ty s) = visible_els s"
  "pending (updateArrowPositionSlide11 p lay ty s) = pending s"
  by (simp_all add: updateArrowPositionSlide11_def Let_def split: option.split)

lemma updateFordypningVisualsSlide11_frame [simp]:
  "currentSlide (updateFordypningVisualsSlide11 p lay s) = currentSlide s"
  "clickRevealState (updateFordypningVisualsSlide11 p lay s) = clickRevealState s"
  "interactiveState (updateFordypningVisualsSlide11 p lay s) = interactiveState s"
  "interactiveState11 (updateFordypningVisualsSlide11 p lay s) = interactiveState11 s"
  "selected_cells (updateFordypningVisualsSlide11 p lay s) = selected_cells s"
  "active_slides (updateFordypningVisualsSlide11 p lay s) = active_slides s"
  "visible_els (updateFordypningVisualsSlide11 p lay s) = visible_els s"
  "pending (updateFordypningVisualsSlide11 p lay s) = pending s"
  by (simp_all add: updateFordypningVisualsSlide11_def Let_def split: option.split)

lemma handleFagClick_frame [simp]:
  "currentSlide (handleFagClick p lay i s) = currentSlide s"
  "clickRevealState (handleFagClick p lay i s) = clickRevealState s"
  "interactiveState11 (handleFagClick p lay i s) = interactiveState11 s"
  "active_slides (handleFagClick p lay i s) = active_slides s"
  "visible_els (handleFagClick p lay i s) = visible_els s"
  "pending (handleFagClick p lay i s) = pending s"
  by (simp_all add: handleFagClick_def Let_def split: option.split prod.split completion.split)

lemma handleFagClickSlide11_frame [simp]:
  "currentSlide (handleFagClickSlide11 p lay i s) = currentSlide s"
  "clickRevealState (handleFagClickSlide11 p lay i s) = clickRevealState s"
  "interactiveState (handleFagClickSlide11 p lay i s) = interactiveState s"
  "active_slides (handleFagClickSlide11 p lay i s) = active_slides s"
  "visible_els (handleFagClickSlide11 p lay i s) = visible_els s"
  "pending (handleFagClickSlide11 p lay i s) = pending s"
  by (simp_all add: handleFagClickSlide11_def Let_def split: option.split prod.split completion.split)

lemma resetInteractiveSlide10_frame [simp]:
  "currentSlide (resetInteractiveSlide10 p s) = currentSlide s"
  "clickRevealState (resetInteractiveSlide10 p s) = clickRevealState s"
  "interactiveState11 (resetInteractiveSlide10 p s) = interactiveState11 s"
  "arrow_attrs (resetInteractiveSlide10 p s) = arrow_attrs s"
  "active_slides (resetInteractiveSlide10 p s) = active_slides s"
  "visible_els (resetInteractiveSlide10 p s) = visible_els s"
  "pending (resetInteractiveSlide10 p s) = pending s"
  by (simp_all add: resetInteractiveSlide10_def Let_def split: option.split)

lemma resetInteractiveSlide11_frame [simp]:
  "currentSlide (resetInteractiveSlide11 p s) = currentSlide s"
  "clickRevealState (resetInteractiveSlide11 p s) = clickRevealState s"
  "interactiveState (resetInteractiveSlide11 p s) = interactiveState s"
  "arrow_attrs (resetInteractiveSlide11 p s) = arrow_attrs s"
  "active_slides (resetInteractiveSlide11 p s) = active_slides s"
  "visible_els (resetInteractiveSlide11 p s) = visible_els s"
  "pending (resetInteractiveSlide11 p s) = pending s"
  by (simp_all add: resetInteractiveSlide11_def Let_def split: option.split)

lemma goToSlide_snd:
  "snd (goToSlide p n s) =
     (let s1 = (if currentSlide s = 10 \<and> n \<noteq> 10 then resetInteractiveSlide10 p s else s);
          s2 = (if currentSlide s1 = 11 \<and> n \<noteq> 11 then resetInteractiveSlide11 p s1 else s1)
      in case fst (originalGoToSlide p n s2) of
           Thrown \<Rightarrow> snd (originalGoToSlide p n s2)
         | Returned \<Rightarrow>
             updateClickRevealIndicator p (updateSlideMenuActive p (snd (originalGoToSlide p n s2))))"
  by (simp add: goToSlide_def Let_def split: prod.split completion.split)

lemma goToSlide_frame [simp]:
  "clickRevealState (snd (goToSlide p n s)) = clickRevealState s"
  "arrow_attrs (snd (goToSlide p n s)) = arrow_attrs s"
  "visible_els (snd (goToSlide p n s)) = visible_els s"
  by (simp_all add: goToSlide_snd Let_def split: completion.split)

lemma cellClick_frame [simp]:
  "currentSlide (cellClick p lay i s) = currentSlide s"
  "clickRevealState (cellClick p lay i s) = clickRevealState s"
  "active_slides (cellClick p lay i s) = active_slides s"
  "visible_els (cellClick p lay i s) = visible_els s"
  "pending (cellClick p lay i s) = pending s"
  by (simp_all add: cellClick_def)


subsection \<open>The reveal functions, case by case\<close>

lemma revealNextElement_no_slide:
  "slideByNumber p (currentSlide s) = None \<Longrightarrow> revealNextElement p s = (False, s)"
  by (simp add: revealNextElement_def)

lemma revealNextElement_done:
  "slideByNumber p (currentSlide s) = Some a
     \<Longrightarrow> counterOr0 (clickRevealState s) (currentSlide s) \<ge> int (length (getClickRevealElements p a))
     \<Longrightarrow> revealNextElement p s = (False, s)"
  by (simp add: revealNextElement_def Let_def)

lemma revealNextElement_step:
  assumes "slideByNumber p (currentSlide s) = Some a"
    and "counterOr0 (clickRevealState s) (currentSlide s) < int (length (getClickRevealElements p a))"
  shows "fst (revealNextElement p s) = True"
    and "clickRevealState (snd (revealNextElement p s)) =
           AList.update (currentSlide s) (counterOr0 (clickRevealState s) (currentSlide s) + 1)
             (clickRevealState s)"
    and "currentSlide (snd (revealNextElement p s)) = currentSlide s"
    and "visible_els (snd (revealNextElement p s)) =
           (case elementWithDelay (getClickRevealElements p a)
                   (counterOr0 (clickRevealState s) (currentSlide s)) of
              None \<Rightarrow> visible_els s
            | Some e \<Rightarrow> insert (a, e) (visible_els s))"
  using assms by (simp_all add: revealNextElement_def Let_def split: option.split)

lemma hideLastRevealedElement_zero:
  "counterOr0 (clickRevealState s) (currentSlide s) \<le> 0 \<Longrightarrow> hideLastRevealedElement p s = (False, s)"
  by (simp add: hideLastRevealedElement_def Let_def split: option.split)

lemma counterOr0_update [simp]:
  "counterOr0 (AList.update n c st) m = (if m = n then c else counterOr0 st m)"
  by (simp add: counterOr0_def update_conv')

lemma counters_ok_update:
  "counters_ok p s \<Longrightarrow> 0 \<le> c \<Longrightarrow> c \<le> elementCount p n
     \<Longrightarrow> clickRevealState s' = AList.update n c (clickRevealState s) \<Longrightarrow> counters_ok p s'"
  by (simp add: counters_ok_def update_conv')

lemma counters_ok_same:
  "clickRevealState s' = clickRevealState s \<Longrightarrow> counters_ok p s' = counters_ok p s"
  by (simp add: counters_ok_def)

lemma counterOr0_bounds:
  assumes "counters_ok p s"
  shows "0 \<le> counterOr0 (clickRevealState s) n \<and> counterOr0 (clickRevealState s) n \<le> elementCount p n"
proof (cases "map_of (clickRevealState s) n")
  case None
  then show ?thesis by (simp add: counterOr0_def elementCount_def split: option.split)
next
  case (Some c)
  then show ?thesis using assms unfolding counters_ok_def counterOr0_def by auto
qed

lemma counters_ok_revealNextElement:
  assumes "counters_ok p s"
  shows "counters_ok p (snd (revealNextElement p s))"
proof (cases "slideByNumber p (currentSlide s)")
  case None
  then show ?thesis using assms by (simp add: revealNextElement_no_slide)
next
  case (Some a)
  show ?thesis
  proof (cases "counterOr0 (clickRevealState s) (currentSlide s) < int (length (getClickRevealElements p a))")
    case True
    have "0 \<le> counterOr0 (clickRevealState s) (currentSlide s)"
      using counterOr0_bounds [OF assms] by simp
    moreover have "elementCount p (currentSlide s) = int (length (getClickRevealElements p a))"
      using Some by (simp add: elementCount_def)
    ultimately show ?thesis
      using True revealNextElement_step(2) [OF Some True]
      by (intro counters_ok_update [OF assms, of "counterOr0 (clickRevealState s) (currentSlide s) + 1" "currentSlide s"]) auto
  next
    case False
    then show ?thesis using assms Some by (simp add: revealNextElement_done)
  qed
qed

lemma counters_ok_hideLastRevealedElement:
  assumes "counters_ok p s"
  shows "counters_ok p (snd (hideLastRevealedElement p s))"
proof (cases "fst (hideLastRevealedElement p s)")
  case False
  then have "snd (hideLastRevealedElement p s) = s"
    by (auto simp: hideLastRevealedElement_def Let_def split: option.splits if_splits)
  then show ?thesis using assms by simp
next
  case True
  then have pos: "0 < counterOr0 (clickRevealState s) (currentSlide s)"
    and upd: "clickRevealState (snd (hideLastRevealedElement p s)) =
           AList.update (currentSlide s) (counterOr0 (clickRevealState s) (currentSlide s) - 1)
             (clickRevealState s)"
    by (auto simp: hideLastRevealedElement_def Let_def split: option.splits if_splits)
  show ?thesis
    using pos counterOr0_bounds [OF assms, of "currentSlide s"]
    by (intro counters_ok_update [OF assms _ _ upd]) auto
qed

lemma counters_ok_animateSlide:
  assumes "counters_ok p s"
  shows "counters_ok p (animateSlide p j s)"
proof -
  have "0 \<le> elementCount p n" for n
    by (simp add: elementCount_def split: option.split)
  then show ?thesis
    using assms by (auto simp: animateSlide_def Let_def counters_ok_def update_conv')
qed

subsection \<open>Unfolding on concrete inputs\<close>

lemmas eval_defs =
  init_def run_def keydown_unfold handleKeydown_def nextSlide_def prevSlide_def goToSlide_def
  originalGoToSlide_def updateProgress_def updateNavButtons_def updateSlideMenuActive_def
  updateClickRevealIndicator_def isCurrentSlideClickReveal_def allElementsRevealed_def
  revealNextElement_def hideLastRevealedElement_def animateSlide_def timerFires_def
  menuItemClick_def slideByNumber_def activeSlideEl_def querySelector_def counterOr0_def
  elementWithDelay_def getClickRevealElements_def totalSlides_def elementCount_def
  closeAllSpeechBubbles_def closeImageModal_def closeQrModal_def
  handleTouchStart_def handleTouchEnd_def handleSwipe_def
  toggleSpeechBubble_def closeSpeechBubble_def openImageModal_def openQrModal_def
  cellClick_def clickableCells_def handleFagClick_def handleFagClickSlide11_def
  updateFordypningVisuals_def updateFordypningVisualsSlide11_def
  updateArrowPosition_def updateArrowPositionSlide11_def cellInSlide_def deselectRequiring_def deselectIfRequires_def
  resetInteractiveSlide10_def resetInteractiveSlide11_def arrow_lines_def fordypning_results_def
  truthy_def objectPrototypeNames_def assignProp_def queryFag_def queryFagSlide11_def cssPlain_def
  handleSlideContainerClick_def
  demo_page_def demo_slide_def demo_cell_def demo_layout_def Let_def upt_rec

subsection \<open>The reveal counters stay in range\<close>

lemma counters_ok_goToSlide [simp]:
  "counters_ok p (snd (goToSlide p n s)) = counters_ok p s"
  by (simp add: counters_ok_def)

lemma counters_ok_handleKeydown:
  "counters_ok p s \<Longrightarrow> counters_ok p (handleKeydown p key s)"
  by (auto simp: handleKeydown_def nextSlide_def prevSlide_def counters_ok_revealNextElement
        counters_ok_same [of "updateClickRevealIndicator p s'" s' for s']
        split: prod.split bool.split
        dest: counters_ok_hideLastRevealedElement)

lemma counters_ok_keydown:
  "counters_ok p s \<Longrightarrow> counters_ok p (keydown p key s)"
  using counters_ok_handleKeydown [of p s key]
  by (simp add: keydown_unfold Let_def counters_ok_def)

lemma counters_ok_handleSwipe:
  "counters_ok p s \<Longrightarrow> counters_ok p (handleSwipe p s)"
  by (simp add: handleSwipe_def Let_def nextSlide_def prevSlide_def counters_ok_revealNextElement)

lemma counters_ok_handleTouchEnd:
  "counters_ok p s \<Longrightarrow> counters_ok p (handleTouchEnd p x s)"
  unfolding handleTouchEnd_def
  by (rule counters_ok_handleSwipe) (simp add: counters_ok_def)

lemma counters_ok_handleSlideContainerClick:
  "counters_ok p s \<Longrightarrow> counters_ok p (handleSlideContainerClick p b s)"
  using counters_ok_revealNextElement [of p s]
  by (simp add: handleSlideContainerClick_def counters_ok_def)

lemma counters_ok_timerFires:
  assumes "counters_ok p s"
  shows "counters_ok p (timerFires p k s)"
proof -
  have "counters_ok p (s\<lparr>pending := q\<rparr>)" for q
    using assms by (simp add: counters_ok_def)
  then show ?thesis
    using assms
    by (simp add: timerFires_def Let_def counters_ok_animateSlide split: timer.split option.split)
qed

lemma counters_ok_step:
  assumes "counters_ok p s"
  shows "counters_ok p (step p e s)"
proof (cases e)
  case (KeyDown key)
  then show ?thesis using assms by (simp add: counters_ok_keydown)
next
  case (TouchEnd x)
  then show ?thesis using assms by (simp add: counters_ok_handleTouchEnd)
next
  case ContainerClick
  then show ?thesis
    using counters_ok_handleSlideContainerClick [OF assms, of False]
    by (simp add: counters_ok_def)
next
  case (TimerFires k)
  then show ?thesis using assms by (simp add: counters_ok_timerFires)
qed (use assms in \<open>simp_all add: counters_ok_def nextSlide_def prevSlide_def menuItemClick_def
       split: option.split\<close>)

lemma counters_ok_init: "counters_ok p (init p)"
  by (simp add: counters_ok_def init_def updateSlideMenuActive_def updateNavButtons_def updateProgress_def)

lemma counters_ok_run:
  "counters_ok p s \<Longrightarrow> counters_ok p (run p evs s)"
  unfolding run_def by (induction evs arbitrary: s) (simp_all add: counters_ok_step)

subsection \<open>Forward inputs\<close>

lemma currentSlide_originalGoToSlide:
  "currentSlide (snd (originalGoToSlide p n s)) = (if 1 \<le> n \<and> n \<le> totalSlides then n else currentSlide s)"
  by (auto simp: originalGoToSlide_def Let_def split: option.split)

lemma currentSlide_goToSlide:
  "currentSlide (snd (goToSlide p n s)) = (if 1 \<le> n \<and> n \<le> totalSlides then n else currentSlide s)"
  by (simp add: goToSlide_snd Let_def currentSlide_originalGoToSlide split: completion.split)

lemma forward_input_step:
  assumes "forward_input s e"
  obtains s0 where
    "step p e s = (if isCurrentSlideClickReveal p s \<and> \<not> allElementsRevealed p s
                   then snd (revealNextElement p s0) else snd (nextSlide p s0))"
    "currentSlide s0 = currentSlide s" "clickRevealState s0 = clickRevealState s"
    "visible_els s0 = visible_els s" "touchStartX s0 = touchStartX s"
proof (cases e)
  case (KeyDown key)
  then have "step p e s = (if isCurrentSlideClickReveal p s \<and> \<not> allElementsRevealed p s
                   then snd (revealNextElement p s) else snd (nextSlide p s))"
    using assms by (auto simp: keydown_unfold handleKeydown_def Let_def)
  then show ?thesis using that [of s] by simp
next
  case (TouchEnd x)
  let ?s0 = "s\<lparr>touchEndX := x\<rparr>"
  have "isCurrentSlideClickReveal p ?s0 = isCurrentSlideClickReveal p s"
    "allElementsRevealed p ?s0 = allElementsRevealed p s"
    by (simp_all add: isCurrentSlideClickReveal_def allElementsRevealed_def cong: option.case_cong)
  then have "step p e s = (if isCurrentSlideClickReveal p s \<and> \<not> allElementsRevealed p s
                   then snd (revealNextElement p ?s0) else snd (nextSlide p ?s0))"
    using assms TouchEnd by (simp add: handleTouchEnd_def handleSwipe_def Let_def)
  then show ?thesis using that [of ?s0] by simp
qed (use assms in simp_all)

lemma touchStartX_frame [simp]:
  "touchStartX (snd (revealNextElement p s)) = touchStartX s"
  "touchStartX (snd (goToSlide p n s)) = touchStartX s"
proof -
  show "touchStartX (snd (revealNextElement p s)) = touchStartX s"
    by (simp add: revealNextElement_def Let_def split: option.split)
  have "touchStartX (snd (originalGoToSlide p n s')) = touchStartX s'" for s'
    by (simp add: originalGoToSlide_def Let_def updateNavButtons_def updateProgress_def split: option.split)
  moreover have "touchStartX (resetInteractiveSlide10 p s') = touchStartX s'"
    "touchStartX (resetInteractiveSlide11 p s') = touchStartX s'" for s'
    by (simp_all add: resetInteractiveSlide10_def resetInteractiveSlide11_def Let_def split: option.split)
  ultimately show "touchStartX (snd (goToSlide p n s)) = touchStartX s"
    by (simp add: goToSlide_snd Let_def updateClickRevealIndicator_def updateSlideMenuActive_def
          split: completion.split)
qed

text \<open>One forward input on a click-reveal slide with elements left.\<close>

lemma forward_reveals:
  assumes slide: "slideByNumber p (currentSlide s) = Some a"
    and cr: "click_reveal (slides p ! a)"
    and less: "counterOr0 (clickRevealState s) (currentSlide s) < int (length (getClickRevealElements p a))"
    and fwd: "forward_input s e"
  shows "currentSlide (step p e s) = currentSlide s"
    and "counterOr0 (clickRevealState (step p e s)) (currentSlide s)
           = counterOr0 (clickRevealState s) (currentSlide s) + 1"
    and "visible_els (step p e s) =
           (case elementWithDelay (getClickRevealElements p a)
                   (counterOr0 (clickRevealState s) (currentSlide s)) of
              None \<Rightarrow> visible_els s
            | Some el \<Rightarrow> insert (a, el) (visible_els s))"
    and "touchStartX (step p e s) = touchStartX s"
proof -
  obtain s0 where s0: "step p e s = (if isCurrentSlideClickReveal p s \<and> \<not> allElementsRevealed p s
                   then snd (revealNextElement p s0) else snd (nextSlide p s0))"
    "currentSlide s0 = currentSlide s" "clickRevealState s0 = clickRevealState s"
    "visible_els s0 = visible_els s" "touchStartX s0 = touchStartX s"
    using forward_input_step [OF fwd] by blast
  have "isCurrentSlideClickReveal p s" "\<not> allElementsRevealed p s"
    using slide cr less by (simp_all add: isCurrentSlideClickReveal_def allElementsRevealed_def)
  then have eq: "step p e s = snd (revealNextElement p s0)"
    using s0(1) by simp
  have slide0: "slideByNumber p (currentSlide s0) = Some a"
    and less0: "counterOr0 (clickRevealState s0) (currentSlide s0) < int (length (getClickRevealElements p a))"
    using slide less s0 by simp_all
  show "currentSlide (step p e s) = currentSlide s"
    using eq s0 by simp
  show "counterOr0 (clickRevealState (step p e s)) (currentSlide s)
           = counterOr0 (clickRevealState s) (currentSlide s) + 1"
    using eq revealNextElement_step(2) [OF slide0 less0] s0 by simp
  show "visible_els (step p e s) =
           (case elementWithDelay (getClickRevealElements p a)
                   (counterOr0 (clickRevealState s) (currentSlide s)) of
              None \<Rightarrow> visible_els s
            | Some el \<Rightarrow> insert (a, el) (visible_els s))"
    using eq revealNextElement_step(4) [OF slide0 less0] s0 by (simp cong: option.case_cong)
  show "touchStartX (step p e s) = touchStartX s"
    using eq s0 by simp
qed

text \<open>One forward input once all elements are revealed.\<close>

lemma forward_advances:
  assumes slide: "slideByNumber p (currentSlide s) = Some a"
    and all: "int (length (getClickRevealElements p a)) \<le> counterOr0 (clickRevealState s) (currentSlide s)"
    and fwd: "forward_input s e"
  shows "currentSlide (step p e s) =
           (if 0 \<le> currentSlide s \<and> currentSlide s < totalSlides then currentSlide s + 1 else currentSlide s)"
proof -
  obtain s0 where s0: "step p e s = (if isCurrentSlideClickReveal p s \<and> \<not> allElementsRevealed p s
                   then snd (revealNextElement p s0) else snd (nextSlide p s0))"
    "currentSlide s0 = currentSlide s"
    using forward_input_step [OF fwd] by blast
  have "allElementsRevealed p s"
    using slide all by (simp add: allElementsRevealed_def)
  then have "step p e s = snd (nextSlide p s0)"
    using s0(1) by simp
  then show ?thesis
    using s0(2) by (auto simp: nextSlide_def currentSlide_goToSlide)
qed

section \<open>The reveal sequencer\<close>

text \<open>
  C3.  From the initial state, whatever events occur, the reveal counter of every slide is
  at least 0 and at most the number of tagged elements of that slide.  When the counter of
  the current slide has reached that number, \<open>revealNextElement\<close> returns failure and
  changes nothing; when it is 0, \<open>hideLastRevealedElement\<close> returns failure and changes
  nothing.
\<close>

theorem reveal_counter_in_range:
  "(\<forall>n. 0 \<le> counterOr0 (clickRevealState (run p evs (init p))) n
         \<and> counterOr0 (clickRevealState (run p evs (init p))) n \<le> elementCount p n)
   \<and> (elementCount p (currentSlide s) \<le> counterOr0 (clickRevealState s) (currentSlide s)
        \<longrightarrow> revealNextElement p s = (False, s))
   \<and> (counterOr0 (clickRevealState t) (currentSlide t) \<le> 0
        \<longrightarrow> hideLastRevealedElement p t = (False, t))"
proof (intro conjI allI impI)
  fix n
  have ok: "counters_ok p (run p evs (init p))"
    by (rule counters_ok_run) (rule counters_ok_init)
  show "0 \<le> counterOr0 (clickRevealState (run p evs (init p))) n"
    and "counterOr0 (clickRevealState (run p evs (init p))) n \<le> elementCount p n"
    using counterOr0_bounds [OF ok, of n] by simp_all
next
  assume "elementCount p (currentSlide s) \<le> counterOr0 (clickRevealState s) (currentSlide s)"
  then show "revealNextElement p s = (False, s)"
    by (cases "slideByNumber p (currentSlide s)")
       (simp_all add: elementCount_def revealNextElement_no_slide revealNextElement_done)
next
  assume "counterOr0 (clickRevealState t) (currentSlide t) \<le> 0"
  then show "hideLastRevealedElement p t = (False, t)"
    by (rule hideLastRevealedElement_zero)
qed

theorem reveal_counter_in_range_witness:
  "currentSlide demo_revealed5 = 5
   \<and> counterOr0 (clickRevealState demo_revealed5) 5 = 3
   \<and> elementCount demo_page 5 = 3
   \<and> revealNextElement demo_page demo_revealed5 = (False, demo_revealed5)
   \<and> counterOr0 (clickRevealState demo_at5) (currentSlide demo_at5) = 0
   \<and> hideLastRevealedElement demo_page demo_at5 = (False, demo_at5)"
proof -
  have a: "currentSlide demo_revealed5 = 5" "counterOr0 (clickRevealState demo_revealed5) 5 = 3"
      "elementCount demo_page 5 = 3"
    by (simp_all add: demo_revealed5_def eval_defs)
  have b: "counterOr0 (clickRevealState demo_at5) (currentSlide demo_at5) = 0"
    by (simp add: demo_at5_def eval_defs)
  show ?thesis
    using reveal_counter_in_range [of demo_page
        "[MenuClick 4, TimerFires 0, TimerFires 0,
          KeyDown ''ArrowRight'', KeyDown '' '', KeyDown ''PageDown'']" demo_revealed5 demo_at5]
      a b
    by simp
qed

text \<open>
  C10.  While the counter of the current slide is below the number of its tagged elements,
  \<open>revealNextElement\<close> returns success and adds one to the counter, whether or not an
  element has that ordinal.  If none has, no element becomes visible, and a forward key on
  such a click-reveal slide is used up by this step: the slide stays, nothing is shown, the
  counter goes up.
\<close>

theorem reveal_step_over_gap:
  assumes "slideByNumber p (currentSlide s) = Some a"
    and "counterOr0 (clickRevealState s) (currentSlide s) < int (length (getClickRevealElements p a))"
  shows "fst (revealNextElement p s)
    \<and> counterOr0 (clickRevealState (snd (revealNextElement p s))) (currentSlide s)
        = counterOr0 (clickRevealState s) (currentSlide s) + 1
    \<and> ((\<forall>e<length (getClickRevealElements p a).
           getClickRevealElements p a ! e \<noteq> Some (counterOr0 (clickRevealState s) (currentSlide s)))
        \<longrightarrow> visible_els (snd (revealNextElement p s)) = visible_els s
          \<and> (click_reveal (slides p ! a)
                \<and> key \<in> {''ArrowRight'', ''ArrowDown'', '' '', ''PageDown''}
              \<longrightarrow> handleKeydown p key s = snd (revealNextElement p s)
                \<and> currentSlide (handleKeydown p key s) = currentSlide s))"
proof (intro conjI impI)
  show "fst (revealNextElement p s)"
    using revealNextElement_step(1) [OF assms] by simp
  show "counterOr0 (clickRevealState (snd (revealNextElement p s))) (currentSlide s)
        = counterOr0 (clickRevealState s) (currentSlide s) + 1"
    using revealNextElement_step(2) [OF assms] by simp
next
  assume "\<forall>e<length (getClickRevealElements p a).
           getClickRevealElements p a ! e \<noteq> Some (counterOr0 (clickRevealState s) (currentSlide s))"
  then have "elementWithDelay (getClickRevealElements p a)
               (counterOr0 (clickRevealState s) (currentSlide s)) = None"
    by (rule elementWithDelay_None)
  then show "visible_els (snd (revealNextElement p s)) = visible_els s"
    using revealNextElement_step(4) [OF assms] by simp
next
  assume "click_reveal (slides p ! a) \<and> key \<in> {''ArrowRight'', ''ArrowDown'', '' '', ''PageDown''}"
  then have "isCurrentSlideClickReveal p s" "\<not> allElementsRevealed p s"
      "key = ''ArrowRight'' \<or> key = ''ArrowDown'' \<or> key = '' '' \<or> key = ''PageDown''"
    using assms by (auto simp: isCurrentSlideClickReveal_def allElementsRevealed_def)
  then show "handleKeydown p key s = snd (revealNextElement p s)"
    by (simp add: handleKeydown_def)
  then show "currentSlide (handleKeydown p key s) = currentSlide s"
    by simp
qed

theorem reveal_step_over_gap_witness:
  "slideByNumber demo_page (currentSlide demo_gap7) = Some 6
   \<and> getClickRevealElements demo_page 6 = [Some 0, Some 2, None]
   \<and> counterOr0 (clickRevealState demo_gap7) (currentSlide demo_gap7) = 1
   \<and> fst (revealNextElement demo_page demo_gap7)
   \<and> counterOr0 (clickRevealState (snd (revealNextElement demo_page demo_gap7))) (currentSlide demo_gap7) = 2
   \<and> visible_els (snd (revealNextElement demo_page demo_gap7)) = visible_els demo_gap7
   \<and> handleKeydown demo_page ''ArrowRight'' demo_gap7 = snd (revealNextElement demo_page demo_gap7)
   \<and> currentSlide (handleKeydown demo_page ''ArrowRight'' demo_gap7) = currentSlide demo_gap7"
proof -
  have a: "slideByNumber demo_page (currentSlide demo_gap7) = Some 6"
    and b: "getClickRevealElements demo_page 6 = [Some 0, Some 2, None]"
    and c: "counterOr0 (clickRevealState demo_gap7) (currentSlide demo_gap7) = 1"
    and d: "click_reveal (slides demo_page ! 6)"
    by (simp_all add: demo_gap7_def eval_defs)
  have e: "\<forall>e<length [Some 0, Some 2, None :: int option]. [Some 0, Some 2, None] ! e \<noteq> Some (1::int)"
    by (simp add: less_Suc_eq all_conj_distrib)
  show ?thesis
    using reveal_step_over_gap [OF a, of "''ArrowRight''"] a b c d e
    by simp
qed

lemma forward_input_cong:
  "touchStartX s' = touchStartX s \<Longrightarrow> forward_input s' e = forward_input s e"
  by (cases e) simp_all

lemma elementWithDelay_012:
  "elementWithDelay [Some 0, Some 1, Some 2] 0 = Some 0"
  "elementWithDelay [Some 0, Some 1, Some 2] 1 = Some 1"
  "elementWithDelay [Some 0, Some 1, Some 2] 2 = Some 2"
  by (simp_all add: elementWithDelay_def upt_rec)

lemma three_reveals_then_advance:
  assumes slide: "slideByNumber p (currentSlide s) = Some a"
    and cr: "click_reveal (slides p ! a)"
    and els: "getClickRevealElements p a = [Some 0, Some 1, Some 2]"
    and zero: "counterOr0 (clickRevealState s) (currentSlide s) = 0"
    and range: "0 \<le> currentSlide s" "currentSlide s < totalSlides"
    and fwd: "forward_input s e1" "forward_input s e2" "forward_input s e3" "forward_input s e4"
  shows "visible_els (run p [e1] s) = insert (a, 0) (visible_els s)"
    and "visible_els (run p [e1, e2] s) = insert (a, 1) (insert (a, 0) (visible_els s))"
    and "visible_els (run p [e1, e2, e3] s) = insert (a, 2) (insert (a, 1) (insert (a, 0) (visible_els s)))"
    and "currentSlide (run p [e1, e2, e3] s) = currentSlide s"
    and "currentSlide (run p [e1, e2, e3, e4] s) = currentSlide s + 1"
proof -
  let ?s1 = "step p e1 s"
  let ?s2 = "step p e2 ?s1"
  let ?s3 = "step p e3 ?s2"
  have less0: "counterOr0 (clickRevealState s) (currentSlide s) < int (length (getClickRevealElements p a))"
    using els zero by simp
  note r1 = forward_reveals [OF slide cr less0 fwd(1)]
  have c1: "currentSlide ?s1 = currentSlide s"
    and n1: "counterOr0 (clickRevealState ?s1) (currentSlide ?s1) = 1"
    and v1: "visible_els ?s1 = insert (a, 0) (visible_els s)"
    and t1: "touchStartX ?s1 = touchStartX s"
    using r1 els zero by (simp_all add: elementWithDelay_012)
  have slide1: "slideByNumber p (currentSlide ?s1) = Some a"
    and less1: "counterOr0 (clickRevealState ?s1) (currentSlide ?s1) < int (length (getClickRevealElements p a))"
    and fwd1: "forward_input ?s1 e2"
    using slide c1 n1 els fwd(2) forward_input_cong [OF t1] by simp_all
  note r2 = forward_reveals [OF slide1 cr less1 fwd1]
  have c2: "currentSlide ?s2 = currentSlide s"
    and n2: "counterOr0 (clickRevealState ?s2) (currentSlide ?s2) = 2"
    and v2: "visible_els ?s2 = insert (a, 1) (insert (a, 0) (visible_els s))"
    and t2: "touchStartX ?s2 = touchStartX s"
    using r2 els c1 n1 v1 t1 by (simp_all add: elementWithDelay_012)
  have slide2: "slideByNumber p (currentSlide ?s2) = Some a"
    and less2: "counterOr0 (clickRevealState ?s2) (currentSlide ?s2) < int (length (getClickRevealElements p a))"
    and fwd2: "forward_input ?s2 e3"
    using slide c2 n2 els fwd(3) forward_input_cong [OF t2] by simp_all
  note r3 = forward_reveals [OF slide2 cr less2 fwd2]
  have c3: "currentSlide ?s3 = currentSlide s"
    and n3: "counterOr0 (clickRevealState ?s3) (currentSlide ?s3) = 3"
    and v3: "visible_els ?s3 = insert (a, 2) (insert (a, 1) (insert (a, 0) (visible_els s)))"
    and t3: "touchStartX ?s3 = touchStartX s"
    using r3 els c2 n2 v2 t2 by (simp_all add: elementWithDelay_012)
  have slide3: "slideByNumber p (currentSlide ?s3) = Some a"
    and all3: "int (length (getClickRevealElements p a)) \<le> counterOr0 (clickRevealState ?s3) (currentSlide ?s3)"
    and fwd3: "forward_input ?s3 e4"
    using slide c3 n3 els fwd(4) forward_input_cong [OF t3] by simp_all
  have c4: "currentSlide (step p e4 ?s3) = currentSlide s + 1"
    using forward_advances [OF slide3 all3 fwd3] c3 range by simp
  show "visible_els (run p [e1] s) = insert (a, 0) (visible_els s)"
    using v1 by (simp add: run_def)
  show "visible_els (run p [e1, e2] s) = insert (a, 1) (insert (a, 0) (visible_els s))"
    using v2 by (simp add: run_def)
  show "visible_els (run p [e1, e2, e3] s) = insert (a, 2) (insert (a, 1) (insert (a, 0) (visible_els s)))"
    using v3 by (simp add: run_def)
  show "currentSlide (run p [e1, e2, e3] s) = currentSlide s"
    using c3 by (simp add: run_def)
  show "currentSlide (run p [e1, e2, e3, e4] s) = currentSlide s + 1"
    using c4 by (simp add: run_def)
qed

text \<open>
  C4 (as amended).  On a click-reveal slide, a forward input (a forward key or a swipe to
  the left) while the reveal counter is below the number of tagged elements does one reveal
  step: the slide stays, the counter goes up by one, and the element whose ordinal is the
  old counter, if there is one, becomes visible.  Once the counter has reached that number
  the same input moves to the next slide, unless the current slide is the last one, where
  it leaves the slide as it is.  With three elements of ordinals 0, 1, 2 on a slide before
  the last, three forward inputs show the elements 0, 1, 2 in this order and a fourth moves
  to the next slide.
\<close>

theorem forward_input_reveals_before_advancing:
  assumes "slideByNumber p (currentSlide s) = Some a"
    and "click_reveal (slides p ! a)"
    and "forward_input s e"
  shows
    "(counterOr0 (clickRevealState s) (currentSlide s) < int (length (getClickRevealElements p a))
        \<longrightarrow> currentSlide (step p e s) = currentSlide s
          \<and> counterOr0 (clickRevealState (step p e s)) (currentSlide s)
              = counterOr0 (clickRevealState s) (currentSlide s) + 1
          \<and> visible_els (step p e s) =
              (case elementWithDelay (getClickRevealElements p a)
                      (counterOr0 (clickRevealState s) (currentSlide s)) of
                 None \<Rightarrow> visible_els s
               | Some el \<Rightarrow> insert (a, el) (visible_els s)))
     \<and> (int (length (getClickRevealElements p a)) \<le> counterOr0 (clickRevealState s) (currentSlide s)
        \<longrightarrow> currentSlide (step p e s) =
              (if 0 \<le> currentSlide s \<and> currentSlide s < totalSlides
               then currentSlide s + 1 else currentSlide s))
     \<and> (getClickRevealElements p a = [Some 0, Some 1, Some 2]
          \<and> counterOr0 (clickRevealState s) (currentSlide s) = 0
          \<and> 0 \<le> currentSlide s \<and> currentSlide s < totalSlides
          \<and> forward_input s e2 \<and> forward_input s e3 \<and> forward_input s e4
        \<longrightarrow> visible_els (run p [e] s) = insert (a, 0) (visible_els s)
          \<and> visible_els (run p [e, e2] s) = insert (a, 1) (insert (a, 0) (visible_els s))
          \<and> visible_els (run p [e, e2, e3] s)
              = insert (a, 2) (insert (a, 1) (insert (a, 0) (visible_els s)))
          \<and> currentSlide (run p [e, e2, e3] s) = currentSlide s
          \<and> currentSlide (run p [e, e2, e3, e4] s) = currentSlide s + 1)"
proof (intro conjI impI)
  assume less: "counterOr0 (clickRevealState s) (currentSlide s) < int (length (getClickRevealElements p a))"
  note r = forward_reveals [OF assms(1,2) less assms(3)]
  show "currentSlide (step p e s) = currentSlide s" by (rule r(1))
  show "counterOr0 (clickRevealState (step p e s)) (currentSlide s)
              = counterOr0 (clickRevealState s) (currentSlide s) + 1" by (rule r(2))
  show "visible_els (step p e s) =
              (case elementWithDelay (getClickRevealElements p a)
                      (counterOr0 (clickRevealState s) (currentSlide s)) of
                 None \<Rightarrow> visible_els s
               | Some el \<Rightarrow> insert (a, el) (visible_els s))" by (rule r(3))
next
  assume "int (length (getClickRevealElements p a)) \<le> counterOr0 (clickRevealState s) (currentSlide s)"
  then show "currentSlide (step p e s) =
              (if 0 \<le> currentSlide s \<and> currentSlide s < totalSlides
               then currentSlide s + 1 else currentSlide s)"
    by (rule forward_advances [OF assms(1) _ assms(3)])
next
  assume h: "getClickRevealElements p a = [Some 0, Some 1, Some 2]
          \<and> counterOr0 (clickRevealState s) (currentSlide s) = 0
          \<and> 0 \<le> currentSlide s \<and> currentSlide s < totalSlides
          \<and> forward_input s e2 \<and> forward_input s e3 \<and> forward_input s e4"
  then have els: "getClickRevealElements p a = [Some 0, Some 1, Some 2]"
    and zero: "counterOr0 (clickRevealState s) (currentSlide s) = 0"
    and range: "0 \<le> currentSlide s" "currentSlide s < totalSlides"
    and fwd: "forward_input s e2" "forward_input s e3" "forward_input s e4"
    by simp_all
  note t = three_reveals_then_advance [OF assms(1,2) els zero range assms(3) fwd]
  show "visible_els (run p [e] s) = insert (a, 0) (visible_els s)" by (rule t(1))
  show "visible_els (run p [e, e2] s) = insert (a, 1) (insert (a, 0) (visible_els s))" by (rule t(2))
  show "visible_els (run p [e, e2, e3] s)
              = insert (a, 2) (insert (a, 1) (insert (a, 0) (visible_els s)))" by (rule t(3))
  show "currentSlide (run p [e, e2, e3] s) = currentSlide s" by (rule t(4))
  show "currentSlide (run p [e, e2, e3, e4] s) = currentSlide s + 1" by (rule t(5))
qed

theorem forward_input_reveals_before_advancing_witness:
  "slideByNumber demo_page (currentSlide demo_at5) = Some 4
   \<and> click_reveal (slides demo_page ! 4)
   \<and> getClickRevealElements demo_page 4 = [Some 0, Some 1, Some 2]
   \<and> counterOr0 (clickRevealState demo_at5) (currentSlide demo_at5) = 0
   \<and> currentSlide demo_at5 = 5
   \<and> forward_input demo_at5 (KeyDown ''ArrowRight'') \<and> forward_input demo_at5 (TouchEnd (-60))
   \<and> forward_input demo_at5 (KeyDown '' '') \<and> forward_input demo_at5 (KeyDown ''PageDown'')
   \<and> visible_els (run demo_page [KeyDown ''ArrowRight''] demo_at5) = {(4, 0)}
   \<and> visible_els (run demo_page [KeyDown ''ArrowRight'', TouchEnd (-60)] demo_at5) = {(4, 1), (4, 0)}
   \<and> visible_els (run demo_page [KeyDown ''ArrowRight'', TouchEnd (-60), KeyDown '' ''] demo_at5)
       = {(4, 2), (4, 1), (4, 0)}
   \<and> currentSlide (run demo_page [KeyDown ''ArrowRight'', TouchEnd (-60), KeyDown '' ''] demo_at5) = 5
   \<and> currentSlide (run demo_page
        [KeyDown ''ArrowRight'', TouchEnd (-60), KeyDown '' '', KeyDown ''PageDown''] demo_at5) = 6"
proof -
  have a: "slideByNumber demo_page (currentSlide demo_at5) = Some 4"
    and b: "click_reveal (slides demo_page ! 4)"
    and c: "getClickRevealElements demo_page 4 = [Some 0, Some 1, Some 2]"
    and d: "counterOr0 (clickRevealState demo_at5) (currentSlide demo_at5) = 0"
    and e: "currentSlide demo_at5 = 5"
    and v: "visible_els demo_at5 = {}"
    and f: "forward_input demo_at5 (KeyDown ''ArrowRight'')" "forward_input demo_at5 (TouchEnd (-60))"
      "forward_input demo_at5 (KeyDown '' '')" "forward_input demo_at5 (KeyDown ''PageDown'')"
    by (simp_all add: demo_at5_def eval_defs)
  show ?thesis
    using forward_input_reveals_before_advancing [OF a b f(1),
        of "TouchEnd (-60)" "KeyDown '' ''" "KeyDown ''PageDown''"] a b c d e v f
    by (simp add: totalSlides_def)
qed

theorem forward_input_on_last_slide_counterexample:
  "forward_input demo_last (KeyDown ''ArrowRight'')
   \<and> isCurrentSlideClickReveal demo_page demo_last
   \<and> counterOr0 (clickRevealState demo_last) (currentSlide demo_last)
       = elementCount demo_page (currentSlide demo_last)
   \<and> currentSlide (step demo_page (KeyDown ''ArrowRight'') demo_last) \<noteq> currentSlide demo_last + 1"
  by (simp add: demo_last_def eval_defs)

subsection \<open>Navigation and the reveal counters\<close>

lemma animateSlide_keeps_counter:
  "map_of (clickRevealState s) k = Some c \<Longrightarrow> map_of (clickRevealState (animateSlide p j s)) k = Some c"
  by (auto simp: animateSlide_def Let_def update_conv')

lemma animateSlide_creates_counter:
  "click_reveal (slides p ! j) \<Longrightarrow> map_of (clickRevealState s) (data_slide (slides p ! j)) = None
     \<Longrightarrow> map_of (clickRevealState (animateSlide p j s)) (data_slide (slides p ! j)) = Some 0"
  by (simp add: animateSlide_def Let_def update_conv')

lemma pending_goToSlide:
  "1 \<le> n \<Longrightarrow> n \<le> totalSlides \<Longrightarrow> slideByNumber p n = Some a
     \<Longrightarrow> pending (snd (goToSlide p n s)) = pending s @ [Animate a]"
  by (simp add: goToSlide_snd Let_def originalGoToSlide_def split: completion.split)

text \<open>
  C9 (as amended).  The reveal counter of a slide is created lazily: arriving on a slide
  defers \<open>animateSlide\<close> for it, which on a click-reveal slide without a counter creates
  the counter as 0 and otherwise writes no counter.  Navigation never resets a reveal
  counter: \<open>goToSlide\<close> leaves all counters as they are, whatever the slide left and the
  target, and \<open>animateSlide\<close> keeps every counter that exists.  So a counter persists
  across leaving a slide and returning to it.
\<close>

theorem reveal_counter_persists_across_navigation:
  "clickRevealState (snd (goToSlide p n s)) = clickRevealState s
   \<and> (1 \<le> n \<and> n \<le> totalSlides \<and> slideByNumber p n = Some a
        \<longrightarrow> pending (snd (goToSlide p n s)) = pending s @ [Animate a])
   \<and> (click_reveal (slides p ! j) \<and> map_of (clickRevealState s) (data_slide (slides p ! j)) = None
        \<longrightarrow> map_of (clickRevealState (animateSlide p j s)) (data_slide (slides p ! j)) = Some 0)
   \<and> (\<not> click_reveal (slides p ! j) \<longrightarrow> clickRevealState (animateSlide p j s) = clickRevealState s)
   \<and> (map_of (clickRevealState s) k = Some c
        \<longrightarrow> map_of (clickRevealState (animateSlide p j s)) k = Some c
          \<and> map_of (clickRevealState
                (animateSlide p j' (snd (goToSlide p m (animateSlide p j (snd (goToSlide p n s))))))) k
              = Some c)"
  by (simp add: pending_goToSlide animateSlide_creates_counter animateSlide_keeps_counter)
     (simp add: animateSlide_def)

theorem reveal_counter_persists_across_navigation_witness:
  "slideByNumber demo_page 11 = Some 10
   \<and> click_reveal (slides demo_page ! 10)
   \<and> map_of (clickRevealState demo_revealed10) 11 = None
   \<and> map_of (clickRevealState demo_revealed10) 10 = Some 2
   \<and> pending (snd (goToSlide demo_page 11 demo_revealed10)) = [Animate 10]
   \<and> map_of (clickRevealState (animateSlide demo_page 10 demo_revealed10)) 11 = Some 0
   \<and> clickRevealState (animateSlide demo_page 0 demo_revealed10) = clickRevealState demo_revealed10
   \<and> map_of (clickRevealState
        (animateSlide demo_page 9 (snd (goToSlide demo_page 10
           (animateSlide demo_page 10 (snd (goToSlide demo_page 11 demo_revealed10))))))) 10 = Some 2"
proof -
  have a: "slideByNumber demo_page 11 = Some 10" "click_reveal (slides demo_page ! 10)"
      "data_slide (slides demo_page ! 10) = 11" "\<not> click_reveal (slides demo_page ! 0)"
      "map_of (clickRevealState demo_revealed10) 11 = None"
      "map_of (clickRevealState demo_revealed10) 10 = Some 2"
      "pending demo_revealed10 = []"
    by (simp_all add: demo_revealed10_def eval_defs)
  show ?thesis
    using reveal_counter_persists_across_navigation
            [of demo_page 11 demo_revealed10 10 10 10 2 9 10]
          reveal_counter_persists_across_navigation
            [of demo_page 11 demo_revealed10 10 0 10 2 9 10] a
    by (simp add: totalSlides_def)
qed

theorem reveal_counter_reset_counterexample:
  "currentSlide demo_revealed10 = 10
   \<and> isCurrentSlideClickReveal demo_page demo_revealed10
   \<and> counterOr0 (clickRevealState demo_revealed10) 10 = 2
   \<and> currentSlide (step demo_page (KeyDown ''ArrowRight'') demo_revealed10) = 11
   \<and> counterOr0 (clickRevealState (step demo_page (KeyDown ''ArrowRight'') demo_revealed10)) 10 = 2
   \<and> currentSlide (run demo_page
         [KeyDown ''ArrowRight'', TimerFires 0, KeyDown ''ArrowLeft'', TimerFires 0] demo_revealed10) = 10
   \<and> counterOr0 (clickRevealState (run demo_page
         [KeyDown ''ArrowRight'', TimerFires 0, KeyDown ''ArrowLeft'', TimerFires 0] demo_revealed10)) 10
       \<noteq> 0"
  by (simp add: demo_revealed10_def eval_defs)

section \<open>Input dispatch and navigation targets\<close>

subsection \<open>The cancel key\<close>

lemma keydown_Escape:
  "keydown p ''Escape'' s =
     (let s1 = handleKeydown p ''Escape'' s;
          s2 = closeAllSpeechBubbles s1;
          s3 = (if has_image_modal p \<and> image_modal_visible s2 then closeImageModal p s2 else s2)
      in if has_qr_modal p \<and> qr_modal_visible s3 then closeQrModal p s3 else s3)"
  by (simp add: keydown_unfold Let_def)

lemma handleKeydown_Escape:
  "handleKeydown p ''Escape'' s =
     (if isCurrentSlideClickReveal p s then
        (case hideLastRevealedElement p s of
           (True, s1) \<Rightarrow> updateClickRevealIndicator p s1
         | (False, s1) \<Rightarrow> s1)
      else s)"
  by (simp add: handleKeydown_def)

lemma hideLastRevealedElement_step:
  assumes "activeSlideEl p s = Some a" and "click_reveal (slides p ! a)"
    and "0 < counterOr0 (clickRevealState s) (currentSlide s)"
  shows "fst (hideLastRevealedElement p s)"
    and "clickRevealState (snd (hideLastRevealedElement p s)) =
           AList.update (currentSlide s) (counterOr0 (clickRevealState s) (currentSlide s) - 1)
             (clickRevealState s)"
  using assms by (simp_all add: hideLastRevealedElement_def Let_def split: option.split)

lemma keydown_Escape_closes:
  "bubbles_visible (keydown p ''Escape'' s) = {}"
  "has_image_modal p \<Longrightarrow> \<not> image_modal_visible (keydown p ''Escape'' s)"
  "has_qr_modal p \<Longrightarrow> \<not> qr_modal_visible (keydown p ''Escape'' s)"
  by (simp_all add: keydown_Escape Let_def closeAllSpeechBubbles_def closeImageModal_def closeQrModal_def)

lemma keydown_Escape_counters:
  "clickRevealState (keydown p ''Escape'' s) = clickRevealState (handleKeydown p ''Escape'' s)"
  "visible_els (keydown p ''Escape'' s) = visible_els (handleKeydown p ''Escape'' s)"
  by (simp_all add: keydown_Escape Let_def)

lemma handleKeydown_Escape_modals:
  "bubbles_visible (handleKeydown p ''Escape'' s) = bubbles_visible s"
  "image_modal_visible (handleKeydown p ''Escape'' s) = image_modal_visible s"
  "qr_modal_visible (handleKeydown p ''Escape'' s) = qr_modal_visible s"
  by (simp_all add: handleKeydown_Escape hideLastRevealedElement_def updateClickRevealIndicator_def
        Let_def split: option.split)

lemma handleKeydown_Escape_counter:
  assumes "isCurrentSlideClickReveal p s" and "activeSlideEl p s = Some a"
    and "click_reveal (slides p ! a)" and "0 < counterOr0 (clickRevealState s) (currentSlide s)"
  shows "counterOr0 (clickRevealState (handleKeydown p ''Escape'' s)) (currentSlide s)
           = counterOr0 (clickRevealState s) (currentSlide s) - 1"
proof -
  have "fst (hideLastRevealedElement p s)"
    and "clickRevealState (snd (hideLastRevealedElement p s)) =
           AList.update (currentSlide s) (counterOr0 (clickRevealState s) (currentSlide s) - 1)
             (clickRevealState s)"
    using hideLastRevealedElement_step [OF assms(2,3,4)] by simp_all
  then have "clickRevealState (handleKeydown p ''Escape'' s) =
           AList.update (currentSlide s) (counterOr0 (clickRevealState s) (currentSlide s) - 1)
             (clickRevealState s)"
    using assms(1) by (cases "hideLastRevealedElement p s") (simp add: handleKeydown_Escape)
  then show ?thesis by simp
qed

lemma dispatch_Escape:
  "dispatch (keydownListeners p ''Escape'') s ! 0 = s"
  "dispatch (keydownListeners p ''Escape'') s ! 1 = handleKeydown p ''Escape'' s"
  "dispatch (keydownListeners p ''Escape'') s ! 2
     = closeAllSpeechBubbles (handleKeydown p ''Escape'' s)"
  "dispatch (keydownListeners p ''Escape'') s ! 3
     = (if has_image_modal p \<and> image_modal_visible s
        then closeImageModal p (closeAllSpeechBubbles (handleKeydown p ''Escape'' s))
        else closeAllSpeechBubbles (handleKeydown p ''Escape'' s))"
  "dispatch (keydownListeners p ''Escape'') s ! 4 = keydown p ''Escape'' s"
  "length (dispatch (keydownListeners p ''Escape'') s) = 5"
  "dispatch (keydownListeners p ''Escape'') s ! Suc 0 = handleKeydown p ''Escape'' s"
  by (simp_all add: keydown_def keydownListeners_def numeral_2_eq_2 numeral_3_eq_3 eval_nat_numeral
        closeAllSpeechBubbles_def handleKeydown_Escape_modals)

text \<open>
  C8 (as amended).  A press of the cancel key closes every open speech bubble and both
  modals.  It does not do so before its other effect: \<open>handleKeydown\<close> is the first
  listener, so on a click-reveal slide whose counter is above 0 the same key press first
  takes back one reveal step, whether or not a modal or a bubble is open, and then the
  bubbles and modals are closed.  In the states that the key press goes through, one
  after each listener: after the first listener the reveal step is taken back and the
  bubbles and modals are as they were before the key press; the bubbles are closed after
  the second, the image modal after the third, the QR modal after the fourth; and the
  counters and the revealed elements do not change after the first.
\<close>

theorem escape_steps_back_and_closes:
  "bubbles_visible (keydown p ''Escape'' s) = {}
   \<and> (has_image_modal p \<longrightarrow> \<not> image_modal_visible (keydown p ''Escape'' s))
   \<and> (has_qr_modal p \<longrightarrow> \<not> qr_modal_visible (keydown p ''Escape'' s))
   \<and> clickRevealState (keydown p ''Escape'' s) = clickRevealState (handleKeydown p ''Escape'' s)
   \<and> visible_els (keydown p ''Escape'' s) = visible_els (handleKeydown p ''Escape'' s)
   \<and> (isCurrentSlideClickReveal p s \<and> activeSlideEl p s = Some a \<and> click_reveal (slides p ! a)
        \<and> 0 < counterOr0 (clickRevealState s) (currentSlide s)
      \<longrightarrow> counterOr0 (clickRevealState (keydown p ''Escape'' s)) (currentSlide s)
            = counterOr0 (clickRevealState s) (currentSlide s) - 1
        \<and> counterOr0 (clickRevealState (dispatch (keydownListeners p ''Escape'') s ! 1))
              (currentSlide s)
            = counterOr0 (clickRevealState s) (currentSlide s) - 1)
   \<and> length (dispatch (keydownListeners p ''Escape'') s) = 5
   \<and> dispatch (keydownListeners p ''Escape'') s ! 0 = s
   \<and> dispatch (keydownListeners p ''Escape'') s ! 4 = keydown p ''Escape'' s
   \<and> bubbles_visible (dispatch (keydownListeners p ''Escape'') s ! 1) = bubbles_visible s
   \<and> image_modal_visible (dispatch (keydownListeners p ''Escape'') s ! 1) = image_modal_visible s
   \<and> qr_modal_visible (dispatch (keydownListeners p ''Escape'') s ! 1) = qr_modal_visible s
   \<and> bubbles_visible (dispatch (keydownListeners p ''Escape'') s ! 2) = {}
   \<and> image_modal_visible (dispatch (keydownListeners p ''Escape'') s ! 2) = image_modal_visible s
   \<and> (has_image_modal p
        \<longrightarrow> \<not> image_modal_visible (dispatch (keydownListeners p ''Escape'') s ! 3))
   \<and> qr_modal_visible (dispatch (keydownListeners p ''Escape'') s ! 3) = qr_modal_visible s
   \<and> (\<forall>k\<in>{1, 2, 3, 4}.
        clickRevealState (dispatch (keydownListeners p ''Escape'') s ! k)
          = clickRevealState (handleKeydown p ''Escape'' s)
        \<and> visible_els (dispatch (keydownListeners p ''Escape'') s ! k)
          = visible_els (handleKeydown p ''Escape'' s))"
proof (intro conjI impI ballI)
  assume h: "isCurrentSlideClickReveal p s \<and> activeSlideEl p s = Some a \<and> click_reveal (slides p ! a)
        \<and> 0 < counterOr0 (clickRevealState s) (currentSlide s)"
  then have c: "counterOr0 (clickRevealState (handleKeydown p ''Escape'' s)) (currentSlide s)
           = counterOr0 (clickRevealState s) (currentSlide s) - 1"
    using handleKeydown_Escape_counter [of p s a] by simp
  then show "counterOr0 (clickRevealState (keydown p ''Escape'' s)) (currentSlide s)
            = counterOr0 (clickRevealState s) (currentSlide s) - 1"
    by (simp add: keydown_Escape_counters)
  show "counterOr0 (clickRevealState (dispatch (keydownListeners p ''Escape'') s ! 1))
              (currentSlide s)
            = counterOr0 (clickRevealState s) (currentSlide s) - 1"
    using c by (simp add: dispatch_Escape)
next
  fix k :: nat
  assume "k \<in> {1, 2, 3, 4}"
  then consider "k = 1" | "k = 2" | "k = 3" | "k = 4" by auto
  then have "clickRevealState (dispatch (keydownListeners p ''Escape'') s ! k)
          = clickRevealState (handleKeydown p ''Escape'' s)
        \<and> visible_els (dispatch (keydownListeners p ''Escape'') s ! k)
          = visible_els (handleKeydown p ''Escape'' s)"
    by cases (simp_all add: dispatch_Escape keydown_Escape_counters)
  then show "clickRevealState (dispatch (keydownListeners p ''Escape'') s ! k)
          = clickRevealState (handleKeydown p ''Escape'' s)"
    and "visible_els (dispatch (keydownListeners p ''Escape'') s ! k)
          = visible_els (handleKeydown p ''Escape'' s)"
    by simp_all
qed (simp_all add: keydown_Escape_closes keydown_Escape_counters dispatch_Escape
       handleKeydown_Escape_modals closeAllSpeechBubbles_def closeImageModal_def)

theorem escape_steps_back_and_closes_witness:
  "has_image_modal demo_page \<and> has_qr_modal demo_page
   \<and> isCurrentSlideClickReveal demo_page demo_modal_open
   \<and> activeSlideEl demo_page demo_modal_open = Some 9
   \<and> click_reveal (slides demo_page ! 9)
   \<and> counterOr0 (clickRevealState demo_modal_open) (currentSlide demo_modal_open) = 2
   \<and> image_modal_visible demo_modal_open
   \<and> bubbles_visible (keydown demo_page ''Escape'' demo_modal_open) = {}
   \<and> \<not> image_modal_visible (keydown demo_page ''Escape'' demo_modal_open)
   \<and> \<not> qr_modal_visible (keydown demo_page ''Escape'' demo_modal_open)
   \<and> counterOr0 (clickRevealState (keydown demo_page ''Escape'' demo_modal_open))
        (currentSlide demo_modal_open) = 2 - 1
   \<and> counterOr0 (clickRevealState (dispatch (keydownListeners demo_page ''Escape'') demo_modal_open ! 1))
        (currentSlide demo_modal_open) = 2 - 1
   \<and> image_modal_visible (dispatch (keydownListeners demo_page ''Escape'') demo_modal_open ! 1)
   \<and> image_modal_visible (dispatch (keydownListeners demo_page ''Escape'') demo_modal_open ! 2)
   \<and> \<not> image_modal_visible (dispatch (keydownListeners demo_page ''Escape'') demo_modal_open ! 3)
   \<and> clickRevealState (dispatch (keydownListeners demo_page ''Escape'') demo_modal_open ! 3)
       = clickRevealState (handleKeydown demo_page ''Escape'' demo_modal_open)"
proof -
  have a: "has_image_modal demo_page \<and> has_qr_modal demo_page
      \<and> isCurrentSlideClickReveal demo_page demo_modal_open
      \<and> activeSlideEl demo_page demo_modal_open = Some 9
      \<and> click_reveal (slides demo_page ! 9)
      \<and> counterOr0 (clickRevealState demo_modal_open) (currentSlide demo_modal_open) = 2
      \<and> image_modal_visible demo_modal_open"
    by code_simp
  then have b: "0 < counterOr0 (clickRevealState demo_modal_open) (currentSlide demo_modal_open)"
    by simp
  have m: "(3::nat) \<in> {1, 2, 3, 4}" by simp
  note t = escape_steps_back_and_closes [of demo_page demo_modal_open 9]
  from t a b have c: "counterOr0 (clickRevealState (keydown demo_page ''Escape'' demo_modal_open))
        (currentSlide demo_modal_open)
      = counterOr0 (clickRevealState demo_modal_open) (currentSlide demo_modal_open) - 1
    \<and> counterOr0 (clickRevealState (dispatch (keydownListeners demo_page ''Escape'') demo_modal_open ! 1))
        (currentSlide demo_modal_open)
      = counterOr0 (clickRevealState demo_modal_open) (currentSlide demo_modal_open) - 1"
    by blast
  with a have d: "counterOr0 (clickRevealState (keydown demo_page ''Escape'' demo_modal_open))
        (currentSlide demo_modal_open) = 2 - 1
    \<and> counterOr0 (clickRevealState (dispatch (keydownListeners demo_page ''Escape'') demo_modal_open ! 1))
        (currentSlide demo_modal_open) = 2 - 1"
    by simp
  from t m have e: "clickRevealState (dispatch (keydownListeners demo_page ''Escape'') demo_modal_open ! 3)
       = clickRevealState (handleKeydown demo_page ''Escape'' demo_modal_open)"
    by blast
  from t a have f: "image_modal_visible (dispatch (keydownListeners demo_page ''Escape'') demo_modal_open ! 1)
      \<and> image_modal_visible (dispatch (keydownListeners demo_page ''Escape'') demo_modal_open ! 2)
      \<and> \<not> image_modal_visible (dispatch (keydownListeners demo_page ''Escape'') demo_modal_open ! 3)"
    by simp
  from t a d e f show ?thesis by blast
qed

theorem escape_with_modal_or_bubble_open_counterexample:
  "isCurrentSlideClickReveal demo_page demo_modal_open
   \<and> image_modal_visible demo_modal_open
   \<and> counterOr0 (clickRevealState demo_modal_open) 10 = 2
   \<and> visible_els demo_modal_open = {(9, 1), (9, 0)}
   \<and> \<not> image_modal_visible (step demo_page (KeyDown ''Escape'') demo_modal_open)
   \<and> counterOr0 (clickRevealState (step demo_page (KeyDown ''Escape'') demo_modal_open)) 10 = 1
   \<and> visible_els (step demo_page (KeyDown ''Escape'') demo_modal_open) = {(9, 0)}
   \<and> bubbles_visible demo_bubble_open = {0}
   \<and> counterOr0 (clickRevealState demo_bubble_open) 10 = 2
   \<and> bubbles_visible (step demo_page (KeyDown ''Escape'') demo_bubble_open) = {}
   \<and> counterOr0 (clickRevealState (step demo_page (KeyDown ''Escape'') demo_bubble_open)) 10 = 1"
  by code_simp

subsection \<open>Targets out of range\<close>

lemma originalGoToSlide_out_of_range:
  "n < 1 \<or> n > totalSlides \<Longrightarrow> originalGoToSlide p n s = (Returned, s)"
  by (auto simp: originalGoToSlide_def)

lemma goToSlide_out_of_range:
  assumes "n < 1 \<or> n > totalSlides"
  shows "goToSlide p n s =
     (Returned, updateClickRevealIndicator p (updateSlideMenuActive p
        (let s1 = (if currentSlide s = 10 \<and> n \<noteq> 10 then resetInteractiveSlide10 p s else s)
         in if currentSlide s1 = 11 \<and> n \<noteq> 11 then resetInteractiveSlide11 p s1 else s1)))"
  using assms by (simp add: goToSlide_def Let_def originalGoToSlide_out_of_range)

lemma currentSlide_handleKeydown:
  "1 \<le> currentSlide s \<and> currentSlide s \<le> totalSlides
     \<Longrightarrow> 1 \<le> currentSlide (handleKeydown p key s)
        \<and> currentSlide (handleKeydown p key s) \<le> totalSlides"
proof -
  obtain b s1 where h: "hideLastRevealedElement p s = (b, s1)"
    by (cases "hideLastRevealedElement p s")
  then have "currentSlide s1 = currentSlide s"
    using hideLastRevealedElement_frame(1) [of p s] by simp
  then show "1 \<le> currentSlide s \<and> currentSlide s \<le> totalSlides
     \<Longrightarrow> 1 \<le> currentSlide (handleKeydown p key s)
        \<and> currentSlide (handleKeydown p key s) \<le> totalSlides"
    using h
    by (simp add: handleKeydown_def nextSlide_def prevSlide_def currentSlide_goToSlide
          totalSlides_def split: bool.split)
qed

lemma currentSlide_step:
  assumes "1 \<le> currentSlide s \<and> currentSlide s \<le> totalSlides"
  shows "1 \<le> currentSlide (step p e s) \<and> currentSlide (step p e s) \<le> totalSlides"
  using assms currentSlide_handleKeydown [of s p]
  by (cases e)
     (simp_all add: keydown_unfold Let_def handleTouchEnd_def handleSwipe_def nextSlide_def
        prevSlide_def currentSlide_goToSlide menuItemClick_def handleSlideContainerClick_def
        timerFires_def totalSlides_def split: option.split timer.split)

lemma currentSlide_run:
  "1 \<le> currentSlide s \<and> currentSlide s \<le> totalSlides
     \<Longrightarrow> 1 \<le> currentSlide (run p evs s) \<and> currentSlide (run p evs s) \<le> totalSlides"
  unfolding run_def
proof (induction evs arbitrary: s)
  case Nil
  then show ?case by simp
next
  case (Cons e evs)
  show ?case
    using Cons.IH [OF currentSlide_step [OF Cons.prems, of p e]] by simp
qed

lemma currentSlide_init: "currentSlide (init p) = 1"
  by (simp add: init_def)

text \<open>
  C5 (as amended).  For a target below 1 or above \<open>totalSlides\<close> the declared \<open>goToSlide\<close>
  returns at once and changes nothing.  The \<open>goToSlide\<close> that callers reach, the wrapper,
  never throws on such a target and leaves the current slide, the class \<open>active\<close>, the
  reveal counters, the revealed elements and the pending timers as they are; when the
  current slide is neither 10 nor 11 it changes nothing but the menu highlight and the
  reveal indicator, which it sets anew for the unchanged current slide.  In every state
  reached from the initial one the current slide is within 1 and \<open>totalSlides\<close>, so there
  the calls with a target out of range, which are those of \<open>nextSlide\<close> on the last slide
  and of \<open>prevSlide\<close> on the first, change nothing but the menu highlight and the reveal
  indicator.  The call is thus not without effect: it hides a reveal indicator that was
  still shown.
\<close>

theorem goToSlide_target_out_of_range:
  assumes "n < 1 \<or> n > totalSlides"
  shows "originalGoToSlide p n s = (Returned, s)
    \<and> fst (goToSlide p n s) = Returned
    \<and> currentSlide (snd (goToSlide p n s)) = currentSlide s
    \<and> active_slides (snd (goToSlide p n s)) = active_slides s
    \<and> clickRevealState (snd (goToSlide p n s)) = clickRevealState s
    \<and> visible_els (snd (goToSlide p n s)) = visible_els s
    \<and> pending (snd (goToSlide p n s)) = pending s
    \<and> (currentSlide s \<noteq> 10 \<and> currentSlide s \<noteq> 11
        \<longrightarrow> snd (goToSlide p n s) = updateClickRevealIndicator p (updateSlideMenuActive p s))
    \<and> 1 \<le> currentSlide (run p evs (init p)) \<and> currentSlide (run p evs (init p)) \<le> totalSlides
    \<and> (n = currentSlide (run p evs (init p)) + 1 \<or> n = currentSlide (run p evs (init p)) - 1
        \<longrightarrow> snd (goToSlide p n (run p evs (init p)))
            = updateClickRevealIndicator p (updateSlideMenuActive p (run p evs (init p))))"
proof -
  let ?t = "run p evs (init p)"
  have r: "1 \<le> currentSlide ?t \<and> currentSlide ?t \<le> totalSlides"
    by (rule currentSlide_run) (simp add: currentSlide_init totalSlides_def)
  have g: "snd (goToSlide p n u) = updateClickRevealIndicator p (updateSlideMenuActive p u)"
    if "currentSlide u \<noteq> 10" "currentSlide u \<noteq> 11" for u
    using assms that by (simp add: goToSlide_out_of_range Let_def)
  have "currentSlide ?t \<noteq> 10 \<and> currentSlide ?t \<noteq> 11"
    if "n = currentSlide ?t + 1 \<or> n = currentSlide ?t - 1"
    using assms r that by (auto simp: totalSlides_def)
  then have reach: "n = currentSlide ?t + 1 \<or> n = currentSlide ?t - 1
        \<longrightarrow> snd (goToSlide p n ?t) = updateClickRevealIndicator p (updateSlideMenuActive p ?t)"
    using g [of ?t] by blast
  have base: "originalGoToSlide p n s = (Returned, s)
    \<and> fst (goToSlide p n s) = Returned
    \<and> currentSlide (snd (goToSlide p n s)) = currentSlide s
    \<and> active_slides (snd (goToSlide p n s)) = active_slides s
    \<and> clickRevealState (snd (goToSlide p n s)) = clickRevealState s
    \<and> visible_els (snd (goToSlide p n s)) = visible_els s
    \<and> pending (snd (goToSlide p n s)) = pending s
    \<and> (currentSlide s \<noteq> 10 \<and> currentSlide s \<noteq> 11
        \<longrightarrow> snd (goToSlide p n s) = updateClickRevealIndicator p (updateSlideMenuActive p s))"
    using assms
    by (auto simp: goToSlide_out_of_range originalGoToSlide_out_of_range Let_def)
  show ?thesis
    using base r reach by blast
qed

theorem goToSlide_target_out_of_range_witness:
  "(15::int) > totalSlides
   \<and> currentSlide demo_last = 14
   \<and> originalGoToSlide demo_page 15 demo_last = (Returned, demo_last)
   \<and> fst (goToSlide demo_page 15 demo_last) = Returned
   \<and> currentSlide (snd (goToSlide demo_page 15 demo_last)) = 14
   \<and> snd (goToSlide demo_page 15 demo_last)
       = updateClickRevealIndicator demo_page (updateSlideMenuActive demo_page demo_last)"
proof -
  have a: "(15::int) > totalSlides" "currentSlide demo_last = 14"
    by code_simp+
  note t = goToSlide_target_out_of_range [of 15 demo_page demo_last
      "[KeyDown ''End'', TimerFires 0, TimerFires 0, KeyDown ''ArrowRight'']",
      folded demo_last_def]
  show ?thesis
    using t a by simp
qed

theorem goToSlide_target_out_of_range_counterexample:
  "(15::int) > totalSlides
   \<and> demo_last =
       run demo_page [KeyDown ''End'', TimerFires 0, TimerFires 0, KeyDown ''ArrowRight'']
         (init demo_page)
   \<and> currentSlide demo_last = 14
   \<and> step demo_page (KeyDown ''ArrowRight'') demo_last = snd (goToSlide demo_page 15 demo_last)
   \<and> indicator_visible demo_last
   \<and> \<not> indicator_visible (snd (goToSlide demo_page 15 demo_last))
   \<and> snd (goToSlide demo_page 15 demo_last) \<noteq> demo_last"
proof -
  have a: "(15::int) > totalSlides" "currentSlide demo_last = 14"
      "allElementsRevealed demo_page demo_last" "indicator_visible demo_last"
    by code_simp+
  have b: "\<not> indicator_visible (snd (goToSlide demo_page 15 demo_last))"
    by code_simp
  have c: "step demo_page (KeyDown ''ArrowRight'') demo_last
      = snd (goToSlide demo_page 15 demo_last)"
    using a(2,3) by (simp add: keydown_unfold handleKeydown_def nextSlide_def)
  from a(4) b have "snd (goToSlide demo_page 15 demo_last) \<noteq> demo_last"
    by auto
  with a b c show ?thesis by (simp add: demo_last_def)
qed

section \<open>The dependency widgets: the invariant\<close>

subsection \<open>The cascade\<close>

lemma querySelector_unique:
  assumes "\<And>i j. i < n \<Longrightarrow> j < n \<Longrightarrow> P i \<Longrightarrow> P j \<Longrightarrow> i = j"
  shows "querySelector n P = Some j \<longleftrightarrow> j < n \<and> P j"
proof
  assume "querySelector n P = Some j"
  then show "j < n \<and> P j" using querySelector_SomeD by blast
next
  assume h: "j < n \<and> P j"
  then have "querySelector n P \<noteq> None" by (auto simp: querySelector_None_iff)
  then obtain i where i: "querySelector n P = Some i" by auto
  then have "i < n \<and> P i" using querySelector_SomeD by blast
  then have "i = j" using assms h by blast
  then show "querySelector n P = Some j" using i by simp
qed

lemma distinct_fag_index:
  "distinct (map data_fag (cells p)) \<Longrightarrow> i < length (cells p) \<Longrightarrow> j < length (cells p)
     \<Longrightarrow> data_fag (cells p ! i) = data_fag (cells p ! j) \<Longrightarrow> i = j"
  by (metis distinct_conv_nth length_map nth_map)

lemma cell_query_unique:
  assumes "distinct (map data_fag (cells p))"
  shows "querySelector (length (cells p)) (\<lambda>j. scope j \<and> data_fag (cells p ! j) = k) = Some j
           \<longleftrightarrow> j < length (cells p) \<and> scope j \<and> data_fag (cells p ! j) = k"
  by (rule querySelector_unique) (use assms distinct_fag_index in blast)

lemma keys_update_existing:
  "k \<in> fst ` set st \<Longrightarrow> map fst (AList.update k v st) = map fst st"
  by (simp add: update_keys)

lemma truthy_update [simp]:
  "truthy (AList.update k v st) k' = (if k' = k then v else truthy st k')"
  by (simp add: truthy_def update_conv')

lemma truthy_own:
  "k \<in> fst ` set st \<Longrightarrow> truthy st k \<longleftrightarrow> map_of st k = Some True"
  by (cases "map_of st k") (auto simp: truthy_def map_of_eq_None_iff)

lemma truthy_flag_name:
  "k \<notin> set objectPrototypeNames \<Longrightarrow> truthy st k \<longleftrightarrow> map_of st k = Some True"
  by (cases "map_of st k") (auto simp: truthy_def)

lemma truthy_key: "truthy st k \<Longrightarrow> k \<in> fst ` set st \<or> k \<in> set objectPrototypeNames"
proof (cases "map_of st k")
  case None
  then show "truthy st k \<Longrightarrow> ?thesis" by (simp add: truthy_def)
next
  case (Some b)
  then have "(k, b) \<in> set st" by (rule map_of_SomeD)
  then have "k \<in> fst ` set st" by force
  then show ?thesis by simp
qed

lemma cssPlain_prototype: "k \<in> set objectPrototypeNames \<Longrightarrow> cssPlain k"
  by (auto simp: objectPrototypeNames_def cssPlain_def)

lemma plain_keys_iff: "plain_keys st \<longleftrightarrow> (\<forall>k\<in>fst ` set st. cssPlain k)"
  by (auto simp: plain_keys_def list_all_iff)

lemma assignProp_own:
  "k \<in> fst ` set st \<Longrightarrow> assignProp k v st = AList.update k v st"
  by (simp add: assignProp_def map_of_eq_None_iff)

lemma assignProp_keys:
  "fst ` set (assignProp k v st) \<subseteq> insert k (fst ` set st)"
proof (cases "map_of st k \<noteq> None")
  case True
  then have "assignProp k v st = AList.update k v st"
    by (simp add: assignProp_def)
  then show ?thesis by (simp add: dom_update)
next
  case own: False
  show ?thesis
  proof (cases "k = ''__proto__''")
    case True
    then have "assignProp k v st = st"
      using own by (simp add: assignProp_def)
    then show ?thesis by auto
  next
    case proto: False
    let ?P = "\<lambda>e. isArrayIndex (fst e) \<and> indexValue (fst e) < indexValue k"
    show ?thesis
    proof (cases "isArrayIndex k")
      case True
      then have e: "assignProp k v st = takeWhile ?P st @ (k, v) # dropWhile ?P st"
        using own proto by (simp add: assignProp_def)
      have "set (takeWhile ?P st) \<union> set (dropWhile ?P st) = set st"
        by (metis set_append takeWhile_dropWhile_id)
      then have "set (takeWhile ?P st @ (k, v) # dropWhile ?P st) = insert (k, v) (set st)"
        by (simp only: set_append list.set) blast
      then show ?thesis unfolding e by simp
    next
      case False
      then have "assignProp k v st = st @ [(k, v)]"
        using own proto by (simp add: assignProp_def)
      then show ?thesis by auto
    qed
  qed
qed

lemma truthy_assignProp_plain:
  assumes "plain_keys st" and "truthy st k"
  shows "plain_keys (assignProp k v st)"
proof -
  have "cssPlain k"
    using truthy_key [OF assms(2)] assms(1) cssPlain_prototype unfolding plain_keys_iff by blast
  then show ?thesis
    using assms(1) assignProp_keys [of k v st] unfolding plain_keys_iff by blast
qed

lemma queryFag_plain:
  "cssPlain key \<Longrightarrow>
     queryFag p key
       = Result (querySelector (length (cells p)) (\<lambda>j. True \<and> data_fag (cells p ! j) = key))"
  by (simp add: queryFag_def)

lemma queryFagSlide11_plain:
  "cssPlain key \<Longrightarrow>
     queryFagSlide11 p key
       = Result (querySelector (length (cells p))
                   (\<lambda>j. in_slide (cells p ! j) = 11 \<and> data_fag (cells p ! j) = key))"
  by (simp add: queryFagSlide11_def)

lemma deselectIfRequires_effect:
  assumes "key \<in> fst ` set st"
    and "query key
           = Result (querySelector (length (cells p)) (\<lambda>j. scope j \<and> data_fag (cells p ! j) = key))"
  shows "fst (deselectIfRequires p query fagId key (st, sel)) = Returned"
    and "map fst (fst (snd (deselectIfRequires p query fagId key (st, sel)))) = map fst st"
    and "truthy (fst (snd (deselectIfRequires p query fagId key (st, sel)))) k
           \<longleftrightarrow> truthy st k \<and> \<not> (k = key \<and> (\<exists>j. dependent_hit p scope fagId k j))"
    and "snd (snd (deselectIfRequires p query fagId key (st, sel)))
           = sel - {j. dependent_hit p scope fagId key j}"
  using assms
  by (auto simp: deselectIfRequires_def dependent_hit_def keys_update_existing split: option.splits)

lemma cascade_forEach:
  "set ks \<subseteq> fst ` set st \<Longrightarrow>
   \<forall>key\<in>set ks. query key
      = Result (querySelector (length (cells p)) (\<lambda>j. scope j \<and> data_fag (cells p ! j) = key)) \<Longrightarrow>
     fst (forEachKey (deselectIfRequires p query fagId) ks (st, sel)) = Returned
   \<and> map fst (fst (snd (forEachKey (deselectIfRequires p query fagId) ks (st, sel)))) = map fst st
   \<and> (\<forall>k. truthy (fst (snd (forEachKey (deselectIfRequires p query fagId) ks (st, sel)))) k
           \<longleftrightarrow> truthy st k \<and> \<not> (k \<in> set ks \<and> (\<exists>j. dependent_hit p scope fagId k j)))
   \<and> snd (snd (forEachKey (deselectIfRequires p query fagId) ks (st, sel)))
       = sel - {j. \<exists>k\<in>set ks. dependent_hit p scope fagId k j}"
proof (induction ks arbitrary: st sel)
  case Nil
  show ?case by simp
next
  case (Cons key ks)
  obtain c st1 sel1 where b: "deselectIfRequires p query fagId key (st, sel) = (c, st1, sel1)"
    by (cases "deselectIfRequires p query fagId key (st, sel)") auto
  have key: "key \<in> fst ` set st" using Cons.prems(1) by simp
  have q: "query key
      = Result (querySelector (length (cells p)) (\<lambda>j. scope j \<and> data_fag (cells p ! j) = key))"
    using Cons.prems(2) by simp
  note e = deselectIfRequires_effect [where scope = scope and query = query, OF key q, of fagId sel]
  have c: "c = Returned" using e(1) b by simp
  have keys1: "map fst st1 = map fst st" using e(2) b by simp
  have t1: "truthy st1 k \<longleftrightarrow> truthy st k \<and> \<not> (k = key \<and> (\<exists>j. dependent_hit p scope fagId k j))" for k
    using e(3) [of k] b by simp
  have s1: "sel1 = sel - {j. dependent_hit p scope fagId key j}"
    using e(4) b by simp
  have "fst ` set st1 = fst ` set st"
    using keys1 by (metis list.set_map)
  then have sub: "set ks \<subseteq> fst ` set st1"
    using Cons.prems(1) by simp
  have qs: "\<forall>key\<in>set ks. query key
      = Result (querySelector (length (cells p)) (\<lambda>j. scope j \<and> data_fag (cells p ! j) = key))"
    using Cons.prems(2) by simp
  show ?case
    using Cons.IH [OF sub qs, of sel1] b c keys1 t1 s1 by auto
qed

lemma deselectRequiring_effect:
  assumes "deselectRequiring p query fagId (st, sel) = (c, st', sel')"
    and "\<forall>key\<in>fst ` set st. query key
      = Result (querySelector (length (cells p)) (\<lambda>j. scope j \<and> data_fag (cells p ! j) = key))"
  shows "c = Returned"
    and "map fst st' = map fst st"
    and "truthy st' k \<longleftrightarrow>
           truthy st k \<and> \<not> (k \<in> fst ` set st \<and> (\<exists>j. dependent_hit p scope fagId k j))"
    and "sel' = sel - {j. \<exists>k\<in>fst ` set st. dependent_hit p scope fagId k j}"
proof -
  have sub: "set (map fst st) \<subseteq> fst ` set st" by simp
  have qs: "\<forall>key\<in>set (map fst st). query key
      = Result (querySelector (length (cells p)) (\<lambda>j. scope j \<and> data_fag (cells p ! j) = key))"
    using assms(2) by simp
  note c = cascade_forEach [where scope = scope and query = query, OF sub qs, of fagId sel]
  have e: "forEachKey (deselectIfRequires p query fagId) (map fst st) (st, sel) = (c, st', sel')"
    using assms(1) by (simp add: deselectRequiring_def)
  show "c = Returned" using c e by simp
  show "map fst st' = map fst st" using c e by simp
  show "truthy st' k \<longleftrightarrow>
           truthy st k \<and> \<not> (k \<in> fst ` set st \<and> (\<exists>j. dependent_hit p scope fagId k j))"
    using c e by simp
  show "sel' = sel - {j. \<exists>k\<in>fst ` set st. dependent_hit p scope fagId k j}"
    using c e by simp
qed

text \<open>Whatever the names of the flags are, the cascade only takes marks away.\<close>

lemma deselectIfRequires_less:
  "snd (snd (deselectIfRequires p query fagId key (st, sel))) \<subseteq> sel"
  by (auto simp: deselectIfRequires_def split: query_result.splits option.splits)

lemma forEachKey_less:
  "snd (snd (forEachKey (deselectIfRequires p query fagId) ks (st, sel))) \<subseteq> sel"
proof (induction ks arbitrary: st sel)
  case Nil
  show ?case by simp
next
  case (Cons key ks)
  obtain c st1 sel1 where b: "deselectIfRequires p query fagId key (st, sel) = (c, st1, sel1)"
    by (cases "deselectIfRequires p query fagId key (st, sel)") auto
  have "sel1 \<subseteq> sel"
    using deselectIfRequires_less [of p query fagId key st sel] b by simp
  then show ?case
    using Cons.IH [of st1 sel1] b by (cases c) auto
qed

lemma deselectRequiring_less:
  "snd (snd (deselectRequiring p query fagId (st, sel))) \<subseteq> sel"
  by (simp add: deselectRequiring_def forEachKey_less)

subsection \<open>Well-formed pages\<close>

lemma clickableCells_iff:
  "j \<in> clickableCells p n \<longleftrightarrow> j < length (cells p) \<and> in_slide (cells p ! j) = n \<and> clickable (cells p ! j)"
  by (auto simp: clickableCells_def)

lemma wf_page_distinct: "wf_page p \<Longrightarrow> distinct (map data_fag (cells p))"
  by (simp add: wf_page_def)

lemma wf_page_depth:
  "wf_page p \<Longrightarrow> j < length (cells p) \<Longrightarrow> q < length (cells p)
     \<Longrightarrow> data_requires (cells p ! j) = Some (data_fag (cells p ! q))
     \<Longrightarrow> data_requires (cells p ! q) = None \<and> in_slide (cells p ! q) = in_slide (cells p ! j)"
  unfolding wf_page_def by (meson nth_mem)

lemma wf_page_names10:
  "wf_page p \<Longrightarrow> j \<in> clickableCells p 10
     \<Longrightarrow> data_fag (cells p ! j) \<in> {''fysikk1'', ''fysikk2'', ''r1'', ''r2''}"
  unfolding wf_page_def clickableCells_iff by (meson nth_mem)

lemma wf_page_names11:
  "wf_page p \<Longrightarrow> j \<in> clickableCells p 11
     \<Longrightarrow> data_fag (cells p ! j) \<in> {''okonomi1'', ''okonomi2'', ''samfunn1'', ''samfunn2''}"
  unfolding wf_page_def clickableCells_iff by (meson nth_mem)

lemma wf_page_slides: "wf_page p \<Longrightarrow> slideByNumber p 10 \<noteq> None \<and> slideByNumber p 11 \<noteq> None"
  by (simp add: wf_page_def)

lemma dependent_hit_iff:
  assumes "distinct (map data_fag (cells p))"
  shows "dependent_hit p scope f k j \<longleftrightarrow>
           j < length (cells p) \<and> scope j \<and> data_fag (cells p ! j) = k
           \<and> data_requires (cells p ! j) = Some f"
  by (simp add: dependent_hit_def cell_query_unique [OF assms])

subsection \<open>What a click on a cell of slide 10 does\<close>

lemma handleFagClick_rejected:
  assumes "data_requires (cells p ! i) = Some r" and "r \<noteq> []" and "\<not> truthy (interactiveState s) r"
  shows "handleFagClick p lay i s = s\<lparr>shaking_cells := insert i (shaking_cells s)\<rparr>"
  using assms by (simp add: handleFagClick_def)

lemma handleFagClick_select:
  assumes "\<forall>r. data_requires (cells p ! i) = Some r \<longrightarrow> r = [] \<or> truthy (interactiveState s) r"
    and "\<not> truthy (interactiveState s) (data_fag (cells p ! i))"
    and "data_fag (cells p ! i) \<in> fst ` set (interactiveState s)"
  shows "interactiveState (handleFagClick p lay i s)
           = AList.update (data_fag (cells p ! i)) True (interactiveState s)"
    and "selected_cells (handleFagClick p lay i s) = insert i (selected_cells s)"
  using assms by (auto simp: handleFagClick_def Let_def assignProp_own split: option.split)

lemma handleFagClick_cascade:
  assumes "truthy (interactiveState s) (data_fag (cells p ! i))"
    and "plain_keys (interactiveState s)"
    and "deselectRequiring p (queryFag p) (data_fag (cells p ! i))
           (assignProp (data_fag (cells p ! i)) False (interactiveState s), selected_cells s - {i})
         = (c, st', sel')"
  shows "c = Returned"
    and "map fst st' = map fst (assignProp (data_fag (cells p ! i)) False (interactiveState s))"
    and "truthy st' k \<longleftrightarrow>
           truthy (assignProp (data_fag (cells p ! i)) False (interactiveState s)) k
           \<and> \<not> (k \<in> fst ` set (assignProp (data_fag (cells p ! i)) False (interactiveState s))
                \<and> (\<exists>j. dependent_hit p (\<lambda>j. True) (data_fag (cells p ! i)) k j))"
    and "sel' = selected_cells s - {i}
           - {j. \<exists>k\<in>fst ` set (assignProp (data_fag (cells p ! i)) False (interactiveState s)).
                   dependent_hit p (\<lambda>j. True) (data_fag (cells p ! i)) k j}"
proof -
  let ?f = "data_fag (cells p ! i)"
  let ?st = "assignProp ?f False (interactiveState s)"
  have "plain_keys ?st"
    using assms(2,1) by (rule truthy_assignProp_plain)
  then have qs: "\<forall>key\<in>fst ` set ?st. queryFag p key
      = Result (querySelector (length (cells p)) (\<lambda>j. True \<and> data_fag (cells p ! j) = key))"
    using queryFag_plain [of _ p] unfolding plain_keys_iff by blast
  note e = deselectRequiring_effect [where scope = "\<lambda>j. True" and query = "queryFag p",
      OF assms(3) qs]
  show "c = Returned" by (rule e(1))
  show "map fst st' = map fst ?st" by (rule e(2))
  show "truthy st' k \<longleftrightarrow>
           truthy ?st k \<and> \<not> (k \<in> fst ` set ?st \<and> (\<exists>j. dependent_hit p (\<lambda>j. True) ?f k j))"
    by (rule e(3))
  show "sel' = selected_cells s - {i}
           - {j. \<exists>k\<in>fst ` set ?st. dependent_hit p (\<lambda>j. True) ?f k j}"
    by (rule e(4))
qed

lemma handleFagClick_deselect:
  assumes "\<forall>r. data_requires (cells p ! i) = Some r \<longrightarrow> r = [] \<or> truthy (interactiveState s) r"
    and "truthy (interactiveState s) (data_fag (cells p ! i))"
    and "data_fag (cells p ! i) \<in> fst ` set (interactiveState s)"
    and "plain_keys (interactiveState s)"
  shows "map fst (interactiveState (handleFagClick p lay i s)) = map fst (interactiveState s)"
    and "truthy (interactiveState (handleFagClick p lay i s)) k \<longleftrightarrow>
           truthy (interactiveState s) k \<and> k \<noteq> data_fag (cells p ! i)
           \<and> \<not> (k \<in> fst ` set (interactiveState s)
                \<and> (\<exists>j. dependent_hit p (\<lambda>j. True) (data_fag (cells p ! i)) k j))"
    and "selected_cells (handleFagClick p lay i s) =
           selected_cells s - {i}
           - {j. \<exists>k\<in>fst ` set (interactiveState s). dependent_hit p (\<lambda>j. True) (data_fag (cells p ! i)) k j}"
proof -
  let ?f = "data_fag (cells p ! i)"
  let ?st = "assignProp ?f False (interactiveState s)"
  obtain c st' sel' where d: "deselectRequiring p (queryFag p) ?f (?st, selected_cells s - {i}) = (c, st', sel')"
    by (cases "deselectRequiring p (queryFag p) ?f (?st, selected_cells s - {i})") auto
  note e = handleFagClick_cascade [OF assms(2,4) d]
  have u: "?st = AList.update ?f False (interactiveState s)"
    using assms(3) by (rule assignProp_own)
  have keys: "map fst ?st = map fst (interactiveState s)"
    unfolding u using assms(3) by (rule keys_update_existing)
  then have keyset: "fst ` set ?st = fst ` set (interactiveState s)"
    by (metis list.set_map)
  have r: "interactiveState (handleFagClick p lay i s) = st'"
      "selected_cells (handleFagClick p lay i s) = sel'"
    using assms(1,2) d e(1) by (auto simp: handleFagClick_def Let_def split: option.split)
  show "map fst (interactiveState (handleFagClick p lay i s)) = map fst (interactiveState s)"
    using e(2) r keys by simp
  show "truthy (interactiveState (handleFagClick p lay i s)) k \<longleftrightarrow>
           truthy (interactiveState s) k \<and> k \<noteq> ?f
           \<and> \<not> (k \<in> fst ` set (interactiveState s) \<and> (\<exists>j. dependent_hit p (\<lambda>j. True) ?f k j))"
    using e(3) [of k] r keyset unfolding u by auto
  show "selected_cells (handleFagClick p lay i s) =
           selected_cells s - {i}
           - {j. \<exists>k\<in>fst ` set (interactiveState s). dependent_hit p (\<lambda>j. True) ?f k j}"
    using e(4) r keyset by simp
qed

lemma handleFagClick_accepted:
  assumes "\<forall>r. data_requires (cells p ! i) = Some r \<longrightarrow> r = [] \<or> truthy (interactiveState s) r"
    and "plain_keys (interactiveState s)"
  obtains mid where "handleFagClick p lay i s = updateFordypningVisuals p lay mid"
    and "arrows_visible mid = arrows_visible s" and "results_visible mid = results_visible s"
    and "arrow_attrs mid = arrow_attrs s" and "interactiveState11 mid = interactiveState11 s"
proof (cases "truthy (interactiveState s) (data_fag (cells p ! i))")
  case True
  let ?f = "data_fag (cells p ! i)"
  let ?st = "assignProp ?f False (interactiveState s)"
  obtain c st' sel' where d: "deselectRequiring p (queryFag p) ?f (?st, selected_cells s - {i}) = (c, st', sel')"
    by (cases "deselectRequiring p (queryFag p) ?f (?st, selected_cells s - {i})") auto
  have c: "c = Returned"
    using handleFagClick_cascade(1) [OF True assms(2) d] .
  have "handleFagClick p lay i s
      = updateFordypningVisuals p lay (s\<lparr>interactiveState := st', selected_cells := sel'\<rparr>)"
    using assms(1) True d c by (auto simp: handleFagClick_def Let_def split: option.split)
  then show ?thesis
    by (rule that) simp_all
next
  case False
  let ?f = "data_fag (cells p ! i)"
  have "handleFagClick p lay i s
      = updateFordypningVisuals p lay
          (s\<lparr>interactiveState := assignProp ?f True (interactiveState s),
             selected_cells := insert i (selected_cells s)\<rparr>)"
    using assms(1) False by (auto simp: handleFagClick_def Let_def split: option.split)
  then show ?thesis
    by (rule that) simp_all
qed

text \<open>Whatever the names of the flags are: the state after the call is a state \<open>mid\<close> in
  which the handler has touched only the flags, the marks and the cue, or it is
  \<open>updateFordypningVisuals\<close> of such a state.\<close>

lemma handleFagClick_shape:
  obtains mid where
    "handleFagClick p lay i s = mid \<or> handleFagClick p lay i s = updateFordypningVisuals p lay mid"
    and "arrows_visible mid = arrows_visible s" and "results_visible mid = results_visible s"
    and "arrow_attrs mid = arrow_attrs s" and "interactiveState11 mid = interactiveState11 s"
    and "selected_cells mid \<subseteq> insert i (selected_cells s)"
proof (cases "\<forall>r. data_requires (cells p ! i) = Some r \<longrightarrow> r = [] \<or> truthy (interactiveState s) r")
  case False
  then obtain r where "data_requires (cells p ! i) = Some r" "r \<noteq> []" "\<not> truthy (interactiveState s) r"
    by blast
  then have "handleFagClick p lay i s = s\<lparr>shaking_cells := insert i (shaking_cells s)\<rparr>"
    by (rule handleFagClick_rejected)
  then have "handleFagClick p lay i s = s\<lparr>shaking_cells := insert i (shaking_cells s)\<rparr>
      \<or> handleFagClick p lay i s
          = updateFordypningVisuals p lay (s\<lparr>shaking_cells := insert i (shaking_cells s)\<rparr>)"
    by simp
  then show ?thesis
    by (rule that) auto
next
  case acc: True
  let ?f = "data_fag (cells p ! i)"
  show ?thesis
  proof (cases "truthy (interactiveState s) ?f")
    case True
    let ?st = "assignProp ?f False (interactiveState s)"
    obtain c st' sel' where d: "deselectRequiring p (queryFag p) ?f (?st, selected_cells s - {i}) = (c, st', sel')"
      by (cases "deselectRequiring p (queryFag p) ?f (?st, selected_cells s - {i})") auto
    have less: "sel' \<subseteq> selected_cells s - {i}"
      using deselectRequiring_less [of p "queryFag p" ?f ?st "selected_cells s - {i}"] d by simp
    let ?mid = "s\<lparr>interactiveState := st', selected_cells := sel'\<rparr>"
    have "handleFagClick p lay i s = ?mid \<or> handleFagClick p lay i s = updateFordypningVisuals p lay ?mid"
      using acc True d by (cases c) (auto simp: handleFagClick_def Let_def split: option.split)
    then show ?thesis
      by (rule that) (use less in auto)
  next
    case False
    let ?mid = "s\<lparr>interactiveState := assignProp ?f True (interactiveState s),
                  selected_cells := insert i (selected_cells s)\<rparr>"
    have "handleFagClick p lay i s = ?mid \<or> handleFagClick p lay i s = updateFordypningVisuals p lay ?mid"
      using acc False by (auto simp: handleFagClick_def Let_def split: option.split)
    then show ?thesis
      by (rule that) auto
  qed
qed

lemma updateFordypningVisuals_shown:
  assumes "slideByNumber p 10 = Some a"
  shows "x \<in> arrows_visible (updateFordypningVisuals p lay s) \<longleftrightarrow>
           (if x = ''fysikk'' \<or> x = ''matte'' then pair_complete s x else x \<in> arrows_visible s)"
    and "x \<in> results_visible (updateFordypningVisuals p lay s) \<longleftrightarrow>
           (if x = ''fysikk'' \<or> x = ''matte'' then pair_complete s x else x \<in> results_visible s)"
  using assms by (auto simp: updateFordypningVisuals_def Let_def pair_complete_def)

lemma pair_complete_cong:
  "interactiveState s' = interactiveState s \<Longrightarrow> interactiveState11 s' = interactiveState11 s
     \<Longrightarrow> pair_complete s' x = pair_complete s x"
  by (simp add: pair_complete_def)

lemma handleFagClick_shown:
  assumes "\<forall>r. data_requires (cells p ! i) = Some r \<longrightarrow> r = [] \<or> truthy (interactiveState s) r"
    and "slideByNumber p 10 = Some a"
    and "plain_keys (interactiveState s)"
  shows "x \<in> arrows_visible (handleFagClick p lay i s) \<longleftrightarrow>
           (if x = ''fysikk'' \<or> x = ''matte'' then pair_complete (handleFagClick p lay i s) x
            else x \<in> arrows_visible s)"
    and "x \<in> results_visible (handleFagClick p lay i s) \<longleftrightarrow>
           (if x = ''fysikk'' \<or> x = ''matte'' then pair_complete (handleFagClick p lay i s) x
            else x \<in> results_visible s)"
proof -
  obtain mid where m: "handleFagClick p lay i s = updateFordypningVisuals p lay mid"
    "arrows_visible mid = arrows_visible s" "results_visible mid = results_visible s"
    using handleFagClick_accepted [OF assms(1,3)] by metis
  have pc: "pair_complete (updateFordypningVisuals p lay mid) x = pair_complete mid x"
    by (rule pair_complete_cong) simp_all
  show "x \<in> arrows_visible (handleFagClick p lay i s) \<longleftrightarrow>
           (if x = ''fysikk'' \<or> x = ''matte'' then pair_complete (handleFagClick p lay i s) x
            else x \<in> arrows_visible s)"
    using updateFordypningVisuals_shown(1) [OF assms(2), of x lay mid] m pc by simp
  show "x \<in> results_visible (handleFagClick p lay i s) \<longleftrightarrow>
           (if x = ''fysikk'' \<or> x = ''matte'' then pair_complete (handleFagClick p lay i s) x
            else x \<in> results_visible s)"
    using updateFordypningVisuals_shown(2) [OF assms(2), of x lay mid] m pc by simp
qed

lemma handleFagClick_flags:
  assumes dist: "distinct (map data_fag (cells p))"
    and acc: "\<forall>r. data_requires (cells p ! i) = Some r \<longrightarrow> r = [] \<or> truthy (interactiveState s) r"
    and own: "data_fag (cells p ! i) \<in> fst ` set (interactiveState s)"
    and plain: "plain_keys (interactiveState s)"
  shows "truthy (interactiveState (handleFagClick p lay i s)) k \<longleftrightarrow>
      (if truthy (interactiveState s) (data_fag (cells p ! i))
       then truthy (interactiveState s) k \<and> k \<noteq> data_fag (cells p ! i)
            \<and> \<not> (k \<in> fst ` set (interactiveState s)
                 \<and> (\<exists>j<length (cells p). data_fag (cells p ! j) = k
                    \<and> data_requires (cells p ! j) = Some (data_fag (cells p ! i))))
       else k = data_fag (cells p ! i) \<or> truthy (interactiveState s) k)"
proof (cases "truthy (interactiveState s) (data_fag (cells p ! i))")
  case True
  show ?thesis
    unfolding handleFagClick_deselect(2) [OF acc True own plain] dependent_hit_iff [OF dist]
    using True by simp
next
  case False
  show ?thesis
    unfolding handleFagClick_select(1) [OF acc False own]
    using False by simp
qed

lemma handleFagClick_marks:
  assumes dist: "distinct (map data_fag (cells p))"
    and acc: "\<forall>r. data_requires (cells p ! i) = Some r \<longrightarrow> r = [] \<or> truthy (interactiveState s) r"
    and own: "data_fag (cells p ! i) \<in> fst ` set (interactiveState s)"
    and plain: "plain_keys (interactiveState s)"
  shows "j \<in> selected_cells (handleFagClick p lay i s) \<longleftrightarrow>
      (if truthy (interactiveState s) (data_fag (cells p ! i))
       then j \<in> selected_cells s \<and> j \<noteq> i
            \<and> \<not> (j < length (cells p) \<and> data_fag (cells p ! j) \<in> fst ` set (interactiveState s)
                  \<and> data_requires (cells p ! j) = Some (data_fag (cells p ! i)))
       else j = i \<or> j \<in> selected_cells s)"
proof (cases "truthy (interactiveState s) (data_fag (cells p ! i))")
  case True
  show ?thesis
    unfolding handleFagClick_deselect(3) [OF acc True own plain] dependent_hit_iff [OF dist]
    using True by auto
next
  case False
  show ?thesis
    unfolding handleFagClick_select(2) [OF acc False own]
    using False by simp
qed

subsection \<open>The widget invariant under a click on slide 10\<close>

lemma names10_are_keys:
  "keys_ok s \<Longrightarrow> f \<in> {''fysikk1'', ''fysikk2'', ''r1'', ''r2''} \<Longrightarrow> f \<in> fst ` set (interactiveState s)"
proof -
  assume "keys_ok s" and f: "f \<in> {''fysikk1'', ''fysikk2'', ''r1'', ''r2''}"
  then have "set (map fst (interactiveState s)) = {''fysikk1'', ''fysikk2'', ''r1'', ''r2''}"
    by (simp add: keys_ok_def)
  then show ?thesis using f by (metis list.set_map)
qed

lemma keys_ok_plain:
  "keys_ok s \<Longrightarrow> plain_keys (interactiveState s)"
  "keys_ok s \<Longrightarrow> plain_keys (interactiveState11 s)"
  by (simp_all add: keys_ok_def plain_keys_def cssPlain_def)

lemma rejected_click_keeps_invariant:
  "widget_ok p s \<Longrightarrow> widget_ok p (s\<lparr>shaking_cells := cs\<rparr>)"
  by (simp add: widget_ok_def keys_ok_def prereq_ok_def marks_ok_def indicators_ok_def
        pair_complete_def)

lemma keys_ok_handleFagClick:
  assumes wf: "wf_page p" and ok: "keys_ok s" and i: "i \<in> clickableCells p 10"
    and acc: "\<forall>r. data_requires (cells p ! i) = Some r \<longrightarrow> r = [] \<or> truthy (interactiveState s) r"
  shows "keys_ok (handleFagClick p lay i s)"
proof -
  have fkey: "data_fag (cells p ! i) \<in> fst ` set (interactiveState s)"
    using names10_are_keys [OF ok wf_page_names10 [OF wf i]] .
  have "map fst (interactiveState (handleFagClick p lay i s)) = map fst (interactiveState s)"
  proof (cases "truthy (interactiveState s) (data_fag (cells p ! i))")
    case True
    then show ?thesis
      using handleFagClick_deselect(1) [OF acc _ fkey keys_ok_plain(1) [OF ok]] by simp
  next
    case False
    show ?thesis
      unfolding handleFagClick_select(1) [OF acc False fkey] by (rule keys_update_existing [OF fkey])
  qed
  then show ?thesis using ok by (simp add: keys_ok_def)
qed

lemma prereq_ok_handleFagClick:
  assumes wf: "wf_page p" and pre: "prereq_ok p s" and i: "i \<in> clickableCells p 10"
    and acc: "\<forall>r. data_requires (cells p ! i) = Some r \<longrightarrow> r = [] \<or> truthy (interactiveState s) r"
    and ok: "keys_ok s"
  shows "prereq_ok p (handleFagClick p lay i s)"
proof -
  let ?s' = "handleFagClick p lay i s"
  let ?f = "data_fag (cells p ! i)"
  let ?n = "length (cells p)"
  have dist: "distinct (map data_fag (cells p))" using wf by (rule wf_page_distinct)
  have iN: "i < ?n" using i by (simp add: clickableCells_iff)
  have own: "?f \<in> fst ` set (interactiveState s)"
    using names10_are_keys [OF ok wf_page_names10 [OF wf i]] .
  note flags = handleFagClick_flags [OF dist acc own keys_ok_plain(1) [OF ok], of lay]
  have p10: "truthy (interactiveState ?s') r"
    if j: "j \<in> clickableCells p 10" and rq: "data_requires (cells p ! j) = Some r" "r \<noteq> []"
      and tj: "truthy (interactiveState ?s') (data_fag (cells p ! j))" for j r
  proof (cases "truthy (interactiveState s) ?f")
    case False
    show ?thesis
    proof (cases "data_fag (cells p ! j) = ?f")
      case True
      then have "j = i" using distinct_fag_index [OF dist _ iN] j by (simp add: clickableCells_iff)
      then have "truthy (interactiveState s) r" using acc rq by auto
      then show ?thesis using flags [of r] False by simp
    next
      case neq: False
      then have "truthy (interactiveState s) (data_fag (cells p ! j))"
        using tj flags [of "data_fag (cells p ! j)"] False by simp
      then have "truthy (interactiveState s) r" using pre j rq unfolding prereq_ok_def by blast
      then show ?thesis using flags [of r] False by simp
    qed
  next
    case True
    have jN: "j < ?n" using j by (simp add: clickableCells_iff)
    have jkey: "data_fag (cells p ! j) \<in> fst ` set (interactiveState s)"
      using names10_are_keys [OF ok wf_page_names10 [OF wf j]] .
    have old: "truthy (interactiveState s) (data_fag (cells p ! j))"
      and notdep: "data_requires (cells p ! j) \<noteq> Some ?f"
      using tj flags [of "data_fag (cells p ! j)"] True jN jkey by auto
    have r: "truthy (interactiveState s) r" using pre j rq old unfolding prereq_ok_def by blast
    have "r \<noteq> ?f" using notdep rq by auto
    moreover have "\<not> (\<exists>q<?n. data_fag (cells p ! q) = r \<and> data_requires (cells p ! q) = Some ?f)"
    proof
      assume "\<exists>q<?n. data_fag (cells p ! q) = r \<and> data_requires (cells p ! q) = Some ?f"
      then obtain q where q: "q < ?n" "data_fag (cells p ! q) = r" "data_requires (cells p ! q) = Some ?f"
        by blast
      have "data_requires (cells p ! q) = None"
        using wf_page_depth [OF wf jN q(1)] rq q(2) by simp
      then show False using q(3) by simp
    qed
    ultimately show ?thesis using flags [of r] True r by simp
  qed
  have "interactiveState11 ?s' = interactiveState11 s" by simp
  then have "\<forall>j\<in>clickableCells p 11. \<forall>r. data_requires (cells p ! j) = Some r \<and> r \<noteq> []
        \<longrightarrow> truthy (interactiveState11 ?s') (data_fag (cells p ! j)) \<longrightarrow> truthy (interactiveState11 ?s') r"
    using pre unfolding prereq_ok_def by simp
  moreover have "\<forall>j\<in>clickableCells p 10. \<forall>r. data_requires (cells p ! j) = Some r \<and> r \<noteq> []
        \<longrightarrow> truthy (interactiveState ?s') (data_fag (cells p ! j)) \<longrightarrow> truthy (interactiveState ?s') r"
    using p10 by blast
  ultimately show ?thesis unfolding prereq_ok_def by blast
qed

lemma marks_ok_handleFagClick:
  assumes wf: "wf_page p" and mk: "marks_ok p s" and i: "i \<in> clickableCells p 10"
    and acc: "\<forall>r. data_requires (cells p ! i) = Some r \<longrightarrow> r = [] \<or> truthy (interactiveState s) r"
    and ok: "keys_ok s"
  shows "marks_ok p (handleFagClick p lay i s)"
proof -
  let ?s' = "handleFagClick p lay i s"
  let ?f = "data_fag (cells p ! i)"
  let ?n = "length (cells p)"
  have dist: "distinct (map data_fag (cells p))" using wf by (rule wf_page_distinct)
  have iN: "i < ?n" and i10: "in_slide (cells p ! i) = 10"
    using i by (simp_all add: clickableCells_iff)
  have own: "?f \<in> fst ` set (interactiveState s)"
    using names10_are_keys [OF ok wf_page_names10 [OF wf i]] .
  note flags = handleFagClick_flags [OF dist acc own keys_ok_plain(1) [OF ok], of lay]
  note marks = handleFagClick_marks [OF dist acc own keys_ok_plain(1) [OF ok], of _ lay]
  have m10: "j \<in> selected_cells ?s' \<longleftrightarrow> truthy (interactiveState ?s') (data_fag (cells p ! j))"
    if j: "j \<in> clickableCells p 10" for j
  proof -
    have jN: "j < ?n" using j by (simp add: clickableCells_iff)
    have old: "j \<in> selected_cells s \<longleftrightarrow> truthy (interactiveState s) (data_fag (cells p ! j))"
      using mk j by (simp add: marks_ok_def)
    have ji: "j = i \<longleftrightarrow> data_fag (cells p ! j) = ?f"
      using distinct_fag_index [OF dist jN iN] by auto
    have inkeys: "data_fag (cells p ! j) \<in> fst ` set (interactiveState s)"
      using names10_are_keys [OF ok wf_page_names10 [OF wf j]] .
    have uniq: "(\<exists>q<?n. data_fag (cells p ! q) = data_fag (cells p ! j)
                    \<and> data_requires (cells p ! q) = Some ?f)
                 \<longleftrightarrow> data_requires (cells p ! j) = Some ?f"
      using distinct_fag_index [OF dist _ jN] jN by blast
    show ?thesis
    proof (cases "truthy (interactiveState s) ?f")
      case True
      have "j \<in> selected_cells ?s' \<longleftrightarrow>
              j \<in> selected_cells s \<and> j \<noteq> i
              \<and> \<not> (data_fag (cells p ! j) \<in> fst ` set (interactiveState s)
                    \<and> data_requires (cells p ! j) = Some ?f)"
        using marks [of j] True jN by simp
      moreover have "truthy (interactiveState ?s') (data_fag (cells p ! j)) \<longleftrightarrow>
              truthy (interactiveState s) (data_fag (cells p ! j)) \<and> data_fag (cells p ! j) \<noteq> ?f
              \<and> data_requires (cells p ! j) \<noteq> Some ?f"
        using flags [of "data_fag (cells p ! j)"] True uniq inkeys by simp
      ultimately show ?thesis using old ji inkeys by blast
    next
      case False
      then show ?thesis
        using marks [of j] flags [of "data_fag (cells p ! j)"] old ji by simp
    qed
  qed
  have m11: "j \<in> selected_cells ?s' \<longleftrightarrow> j \<in> selected_cells s" if j: "j \<in> clickableCells p 11" for j
  proof -
    have j11: "in_slide (cells p ! j) = 11" and jN: "j < ?n" and "j \<noteq> i"
      using j i10 by (auto simp: clickableCells_iff)
    have "data_requires (cells p ! j) \<noteq> Some ?f"
      using wf_page_depth [OF wf jN iN] i10 j11 by auto
    then show ?thesis using marks [of j] \<open>j \<noteq> i\<close> by simp
  qed
  have "interactiveState11 ?s' = interactiveState11 s" by simp
  then have "\<forall>j\<in>clickableCells p 11.
        j \<in> selected_cells ?s' \<longleftrightarrow> truthy (interactiveState11 ?s') (data_fag (cells p ! j))"
    using mk m11 unfolding marks_ok_def by simp
  then show ?thesis using m10 unfolding marks_ok_def by blast
qed

lemma indicators_ok_handleFagClick:
  assumes ind: "indicators_ok s" and slide: "slideByNumber p 10 = Some a"
    and acc: "\<forall>r. data_requires (cells p ! i) = Some r \<longrightarrow> r = [] \<or> truthy (interactiveState s) r"
    and plain: "plain_keys (interactiveState s)"
  shows "indicators_ok (handleFagClick p lay i s)"
  unfolding indicators_ok_def
proof (intro ballI)
  let ?s' = "handleFagClick p lay i s"
  fix x assume x: "x \<in> {''fysikk'', ''matte'', ''okonomi'', ''samfunn''}"
  show "(x \<in> arrows_visible ?s' \<longleftrightarrow> pair_complete ?s' x)
      \<and> (x \<in> results_visible ?s' \<longleftrightarrow> pair_complete ?s' x)"
  proof (cases "x = ''fysikk'' \<or> x = ''matte''")
    case True
    then show ?thesis
      using handleFagClick_shown [OF acc slide plain, of x lay] by simp
  next
    case False
    have "interactiveState11 ?s' = interactiveState11 s" by simp
    then have "pair_complete ?s' x = pair_complete s x"
      using False by (simp add: pair_complete_def)
    moreover have "(x \<in> arrows_visible s \<longleftrightarrow> pair_complete s x)
      \<and> (x \<in> results_visible s \<longleftrightarrow> pair_complete s x)"
      using ind x unfolding indicators_ok_def by blast
    ultimately show ?thesis
      using handleFagClick_shown [OF acc slide plain, of x lay] False by simp
  qed
qed

lemma widget_ok_handleFagClick:
  assumes wf: "wf_page p" and ok: "widget_ok p s" and i: "i \<in> clickableCells p 10"
  shows "widget_ok p (handleFagClick p lay i s)"
proof (cases "\<forall>r. data_requires (cells p ! i) = Some r \<longrightarrow> r = [] \<or> truthy (interactiveState s) r")
  case False
  then obtain r where "data_requires (cells p ! i) = Some r" "r \<noteq> []" "\<not> truthy (interactiveState s) r"
    by blast
  then have "handleFagClick p lay i s = s\<lparr>shaking_cells := insert i (shaking_cells s)\<rparr>"
    by (rule handleFagClick_rejected)
  then show ?thesis
    using rejected_click_keeps_invariant [OF ok] by simp
next
  case acc: True
  obtain a where slide: "slideByNumber p 10 = Some a"
    using wf_page_slides [OF wf] by auto
  have k: "keys_ok s" using ok by (simp add: widget_ok_def)
  show ?thesis
    using ok keys_ok_handleFagClick [OF wf k i acc] prereq_ok_handleFagClick [OF wf _ i acc k]
      marks_ok_handleFagClick [OF wf _ i acc k]
      indicators_ok_handleFagClick [OF _ slide acc keys_ok_plain(1) [OF k]]
    by (simp add: widget_ok_def)
qed

subsection \<open>What a click on a cell of slide 11 does\<close>

lemma handleFagClickSlide11_rejected:
  assumes "data_requires (cells p ! i) = Some r" and "r \<noteq> []" and "\<not> truthy (interactiveState11 s) r"
  shows "handleFagClickSlide11 p lay i s = s\<lparr>shaking_cells := insert i (shaking_cells s)\<rparr>"
  using assms by (simp add: handleFagClickSlide11_def)

lemma handleFagClickSlide11_select:
  assumes "\<forall>r. data_requires (cells p ! i) = Some r \<longrightarrow> r = [] \<or> truthy (interactiveState11 s) r"
    and "\<not> truthy (interactiveState11 s) (data_fag (cells p ! i))"
    and "data_fag (cells p ! i) \<in> fst ` set (interactiveState11 s)"
  shows "interactiveState11 (handleFagClickSlide11 p lay i s)
           = AList.update (data_fag (cells p ! i)) True (interactiveState11 s)"
    and "selected_cells (handleFagClickSlide11 p lay i s) = insert i (selected_cells s)"
  using assms by (auto simp: handleFagClickSlide11_def Let_def assignProp_own split: option.split)

lemma handleFagClickSlide11_cascade:
  assumes "truthy (interactiveState11 s) (data_fag (cells p ! i))"
    and "plain_keys (interactiveState11 s)"
    and "deselectRequiring p (queryFagSlide11 p) (data_fag (cells p ! i))
           (assignProp (data_fag (cells p ! i)) False (interactiveState11 s), selected_cells s - {i})
         = (c, st', sel')"
  shows "c = Returned"
    and "map fst st' = map fst (assignProp (data_fag (cells p ! i)) False (interactiveState11 s))"
    and "truthy st' k \<longleftrightarrow>
           truthy (assignProp (data_fag (cells p ! i)) False (interactiveState11 s)) k
           \<and> \<not> (k \<in> fst ` set (assignProp (data_fag (cells p ! i)) False (interactiveState11 s))
                \<and> (\<exists>j. dependent_hit p (\<lambda>j. in_slide (cells p ! j) = 11) (data_fag (cells p ! i)) k j))"
    and "sel' = selected_cells s - {i}
           - {j. \<exists>k\<in>fst ` set (assignProp (data_fag (cells p ! i)) False (interactiveState11 s)).
                   dependent_hit p (\<lambda>j. in_slide (cells p ! j) = 11) (data_fag (cells p ! i)) k j}"
proof -
  let ?f = "data_fag (cells p ! i)"
  let ?st = "assignProp ?f False (interactiveState11 s)"
  have "plain_keys ?st"
    using assms(2,1) by (rule truthy_assignProp_plain)
  then have qs: "\<forall>key\<in>fst ` set ?st. queryFagSlide11 p key
      = Result (querySelector (length (cells p)) (\<lambda>j. in_slide (cells p ! j) = 11 \<and> data_fag (cells p ! j) = key))"
    using queryFagSlide11_plain [of _ p] unfolding plain_keys_iff by blast
  note e = deselectRequiring_effect [where scope = "\<lambda>j. in_slide (cells p ! j) = 11" and query = "queryFagSlide11 p",
      OF assms(3) qs]
  show "c = Returned" by (rule e(1))
  show "map fst st' = map fst ?st" by (rule e(2))
  show "truthy st' k \<longleftrightarrow>
           truthy ?st k \<and> \<not> (k \<in> fst ` set ?st \<and> (\<exists>j. dependent_hit p (\<lambda>j. in_slide (cells p ! j) = 11) ?f k j))"
    by (rule e(3))
  show "sel' = selected_cells s - {i}
           - {j. \<exists>k\<in>fst ` set ?st. dependent_hit p (\<lambda>j. in_slide (cells p ! j) = 11) ?f k j}"
    by (rule e(4))
qed

lemma handleFagClickSlide11_deselect:
  assumes "\<forall>r. data_requires (cells p ! i) = Some r \<longrightarrow> r = [] \<or> truthy (interactiveState11 s) r"
    and "truthy (interactiveState11 s) (data_fag (cells p ! i))"
    and "data_fag (cells p ! i) \<in> fst ` set (interactiveState11 s)"
    and "plain_keys (interactiveState11 s)"
  shows "map fst (interactiveState11 (handleFagClickSlide11 p lay i s)) = map fst (interactiveState11 s)"
    and "truthy (interactiveState11 (handleFagClickSlide11 p lay i s)) k \<longleftrightarrow>
           truthy (interactiveState11 s) k \<and> k \<noteq> data_fag (cells p ! i)
           \<and> \<not> (k \<in> fst ` set (interactiveState11 s)
                \<and> (\<exists>j. dependent_hit p (\<lambda>j. in_slide (cells p ! j) = 11) (data_fag (cells p ! i)) k j))"
    and "selected_cells (handleFagClickSlide11 p lay i s) =
           selected_cells s - {i}
           - {j. \<exists>k\<in>fst ` set (interactiveState11 s). dependent_hit p (\<lambda>j. in_slide (cells p ! j) = 11) (data_fag (cells p ! i)) k j}"
proof -
  let ?f = "data_fag (cells p ! i)"
  let ?st = "assignProp ?f False (interactiveState11 s)"
  obtain c st' sel' where d: "deselectRequiring p (queryFagSlide11 p) ?f (?st, selected_cells s - {i}) = (c, st', sel')"
    by (cases "deselectRequiring p (queryFagSlide11 p) ?f (?st, selected_cells s - {i})") auto
  note e = handleFagClickSlide11_cascade [OF assms(2,4) d]
  have u: "?st = AList.update ?f False (interactiveState11 s)"
    using assms(3) by (rule assignProp_own)
  have keys: "map fst ?st = map fst (interactiveState11 s)"
    unfolding u using assms(3) by (rule keys_update_existing)
  then have keyset: "fst ` set ?st = fst ` set (interactiveState11 s)"
    by (metis list.set_map)
  have r: "interactiveState11 (handleFagClickSlide11 p lay i s) = st'"
      "selected_cells (handleFagClickSlide11 p lay i s) = sel'"
    using assms(1,2) d e(1) by (auto simp: handleFagClickSlide11_def Let_def split: option.split)
  show "map fst (interactiveState11 (handleFagClickSlide11 p lay i s)) = map fst (interactiveState11 s)"
    using e(2) r keys by simp
  show "truthy (interactiveState11 (handleFagClickSlide11 p lay i s)) k \<longleftrightarrow>
           truthy (interactiveState11 s) k \<and> k \<noteq> ?f
           \<and> \<not> (k \<in> fst ` set (interactiveState11 s) \<and> (\<exists>j. dependent_hit p (\<lambda>j. in_slide (cells p ! j) = 11) ?f k j))"
    using e(3) [of k] r keyset unfolding u by auto
  show "selected_cells (handleFagClickSlide11 p lay i s) =
           selected_cells s - {i}
           - {j. \<exists>k\<in>fst ` set (interactiveState11 s). dependent_hit p (\<lambda>j. in_slide (cells p ! j) = 11) ?f k j}"
    using e(4) r keyset by simp
qed

lemma handleFagClickSlide11_accepted:
  assumes "\<forall>r. data_requires (cells p ! i) = Some r \<longrightarrow> r = [] \<or> truthy (interactiveState11 s) r"
    and "plain_keys (interactiveState11 s)"
  obtains mid where "handleFagClickSlide11 p lay i s = updateFordypningVisualsSlide11 p lay mid"
    and "arrows_visible mid = arrows_visible s" and "results_visible mid = results_visible s"
    and "arrow_attrs mid = arrow_attrs s" and "interactiveState mid = interactiveState s"
proof (cases "truthy (interactiveState11 s) (data_fag (cells p ! i))")
  case True
  let ?f = "data_fag (cells p ! i)"
  let ?st = "assignProp ?f False (interactiveState11 s)"
  obtain c st' sel' where d: "deselectRequiring p (queryFagSlide11 p) ?f (?st, selected_cells s - {i}) = (c, st', sel')"
    by (cases "deselectRequiring p (queryFagSlide11 p) ?f (?st, selected_cells s - {i})") auto
  have c: "c = Returned"
    using handleFagClickSlide11_cascade(1) [OF True assms(2) d] .
  have "handleFagClickSlide11 p lay i s
      = updateFordypningVisualsSlide11 p lay (s\<lparr>interactiveState11 := st', selected_cells := sel'\<rparr>)"
    using assms(1) True d c by (auto simp: handleFagClickSlide11_def Let_def split: option.split)
  then show ?thesis
    by (rule that) simp_all
next
  case False
  let ?f = "data_fag (cells p ! i)"
  have "handleFagClickSlide11 p lay i s
      = updateFordypningVisualsSlide11 p lay
          (s\<lparr>interactiveState11 := assignProp ?f True (interactiveState11 s),
             selected_cells := insert i (selected_cells s)\<rparr>)"
    using assms(1) False by (auto simp: handleFagClickSlide11_def Let_def split: option.split)
  then show ?thesis
    by (rule that) simp_all
qed

text \<open>Whatever the names of the flags are: the state after the call is a state \<open>mid\<close> in
  which the handler has touched only the flags, the marks and the cue, or it is
  \<open>updateFordypningVisualsSlide11\<close> of such a state.\<close>

lemma handleFagClickSlide11_shape:
  obtains mid where
    "handleFagClickSlide11 p lay i s = mid \<or> handleFagClickSlide11 p lay i s = updateFordypningVisualsSlide11 p lay mid"
    and "arrows_visible mid = arrows_visible s" and "results_visible mid = results_visible s"
    and "arrow_attrs mid = arrow_attrs s" and "interactiveState mid = interactiveState s"
    and "selected_cells mid \<subseteq> insert i (selected_cells s)"
proof (cases "\<forall>r. data_requires (cells p ! i) = Some r \<longrightarrow> r = [] \<or> truthy (interactiveState11 s) r")
  case False
  then obtain r where "data_requires (cells p ! i) = Some r" "r \<noteq> []" "\<not> truthy (interactiveState11 s) r"
    by blast
  then have "handleFagClickSlide11 p lay i s = s\<lparr>shaking_cells := insert i (shaking_cells s)\<rparr>"
    by (rule handleFagClickSlide11_rejected)
  then have "handleFagClickSlide11 p lay i s = s\<lparr>shaking_cells := insert i (shaking_cells s)\<rparr>
      \<or> handleFagClickSlide11 p lay i s
          = updateFordypningVisualsSlide11 p lay (s\<lparr>shaking_cells := insert i (shaking_cells s)\<rparr>)"
    by simp
  then show ?thesis
    by (rule that) auto
next
  case acc: True
  let ?f = "data_fag (cells p ! i)"
  show ?thesis
  proof (cases "truthy (interactiveState11 s) ?f")
    case True
    let ?st = "assignProp ?f False (interactiveState11 s)"
    obtain c st' sel' where d: "deselectRequiring p (queryFagSlide11 p) ?f (?st, selected_cells s - {i}) = (c, st', sel')"
      by (cases "deselectRequiring p (queryFagSlide11 p) ?f (?st, selected_cells s - {i})") auto
    have less: "sel' \<subseteq> selected_cells s - {i}"
      using deselectRequiring_less [of p "queryFagSlide11 p" ?f ?st "selected_cells s - {i}"] d by simp
    let ?mid = "s\<lparr>interactiveState11 := st', selected_cells := sel'\<rparr>"
    have "handleFagClickSlide11 p lay i s = ?mid \<or> handleFagClickSlide11 p lay i s = updateFordypningVisualsSlide11 p lay ?mid"
      using acc True d by (cases c) (auto simp: handleFagClickSlide11_def Let_def split: option.split)
    then show ?thesis
      by (rule that) (use less in auto)
  next
    case False
    let ?mid = "s\<lparr>interactiveState11 := assignProp ?f True (interactiveState11 s),
                  selected_cells := insert i (selected_cells s)\<rparr>"
    have "handleFagClickSlide11 p lay i s = ?mid \<or> handleFagClickSlide11 p lay i s = updateFordypningVisualsSlide11 p lay ?mid"
      using acc False by (auto simp: handleFagClickSlide11_def Let_def split: option.split)
    then show ?thesis
      by (rule that) auto
  qed
qed

lemma updateFordypningVisualsSlide11_shown:
  assumes "slideByNumber p 11 = Some a"
  shows "x \<in> arrows_visible (updateFordypningVisualsSlide11 p lay s) \<longleftrightarrow>
           (if x = ''okonomi'' \<or> x = ''samfunn'' then pair_complete s x else x \<in> arrows_visible s)"
    and "x \<in> results_visible (updateFordypningVisualsSlide11 p lay s) \<longleftrightarrow>
           (if x = ''okonomi'' \<or> x = ''samfunn'' then pair_complete s x else x \<in> results_visible s)"
  using assms by (auto simp: updateFordypningVisualsSlide11_def Let_def pair_complete_def)

lemma handleFagClickSlide11_shown:
  assumes "\<forall>r. data_requires (cells p ! i) = Some r \<longrightarrow> r = [] \<or> truthy (interactiveState11 s) r"
    and "slideByNumber p 11 = Some a"
    and "plain_keys (interactiveState11 s)"
  shows "x \<in> arrows_visible (handleFagClickSlide11 p lay i s) \<longleftrightarrow>
           (if x = ''okonomi'' \<or> x = ''samfunn'' then pair_complete (handleFagClickSlide11 p lay i s) x
            else x \<in> arrows_visible s)"
    and "x \<in> results_visible (handleFagClickSlide11 p lay i s) \<longleftrightarrow>
           (if x = ''okonomi'' \<or> x = ''samfunn'' then pair_complete (handleFagClickSlide11 p lay i s) x
            else x \<in> results_visible s)"
proof -
  obtain mid where m: "handleFagClickSlide11 p lay i s = updateFordypningVisualsSlide11 p lay mid"
    "arrows_visible mid = arrows_visible s" "results_visible mid = results_visible s"
    using handleFagClickSlide11_accepted [OF assms(1,3)] by metis
  have pc: "pair_complete (updateFordypningVisualsSlide11 p lay mid) x = pair_complete mid x"
    by (rule pair_complete_cong) simp_all
  show "x \<in> arrows_visible (handleFagClickSlide11 p lay i s) \<longleftrightarrow>
           (if x = ''okonomi'' \<or> x = ''samfunn'' then pair_complete (handleFagClickSlide11 p lay i s) x
            else x \<in> arrows_visible s)"
    using updateFordypningVisualsSlide11_shown(1) [OF assms(2), of x lay mid] m pc by simp
  show "x \<in> results_visible (handleFagClickSlide11 p lay i s) \<longleftrightarrow>
           (if x = ''okonomi'' \<or> x = ''samfunn'' then pair_complete (handleFagClickSlide11 p lay i s) x
            else x \<in> results_visible s)"
    using updateFordypningVisualsSlide11_shown(2) [OF assms(2), of x lay mid] m pc by simp
qed

lemma handleFagClickSlide11_flags:
  assumes dist: "distinct (map data_fag (cells p))"
    and acc: "\<forall>r. data_requires (cells p ! i) = Some r \<longrightarrow> r = [] \<or> truthy (interactiveState11 s) r"
    and own: "data_fag (cells p ! i) \<in> fst ` set (interactiveState11 s)"
    and plain: "plain_keys (interactiveState11 s)"
  shows "truthy (interactiveState11 (handleFagClickSlide11 p lay i s)) k \<longleftrightarrow>
      (if truthy (interactiveState11 s) (data_fag (cells p ! i))
       then truthy (interactiveState11 s) k \<and> k \<noteq> data_fag (cells p ! i)
            \<and> \<not> (k \<in> fst ` set (interactiveState11 s)
                 \<and> (\<exists>j<length (cells p). in_slide (cells p ! j) = 11 \<and> data_fag (cells p ! j) = k
                    \<and> data_requires (cells p ! j) = Some (data_fag (cells p ! i))))
       else k = data_fag (cells p ! i) \<or> truthy (interactiveState11 s) k)"
proof (cases "truthy (interactiveState11 s) (data_fag (cells p ! i))")
  case True
  show ?thesis
    unfolding handleFagClickSlide11_deselect(2) [OF acc True own plain] dependent_hit_iff [OF dist]
    using True by simp
next
  case False
  show ?thesis
    unfolding handleFagClickSlide11_select(1) [OF acc False own]
    using False by simp
qed

lemma handleFagClickSlide11_marks:
  assumes dist: "distinct (map data_fag (cells p))"
    and acc: "\<forall>r. data_requires (cells p ! i) = Some r \<longrightarrow> r = [] \<or> truthy (interactiveState11 s) r"
    and own: "data_fag (cells p ! i) \<in> fst ` set (interactiveState11 s)"
    and plain: "plain_keys (interactiveState11 s)"
  shows "j \<in> selected_cells (handleFagClickSlide11 p lay i s) \<longleftrightarrow>
      (if truthy (interactiveState11 s) (data_fag (cells p ! i))
       then j \<in> selected_cells s \<and> j \<noteq> i
            \<and> \<not> (j < length (cells p) \<and> in_slide (cells p ! j) = 11
                  \<and> data_fag (cells p ! j) \<in> fst ` set (interactiveState11 s)
                  \<and> data_requires (cells p ! j) = Some (data_fag (cells p ! i)))
       else j = i \<or> j \<in> selected_cells s)"
proof (cases "truthy (interactiveState11 s) (data_fag (cells p ! i))")
  case True
  show ?thesis
    unfolding handleFagClickSlide11_deselect(3) [OF acc True own plain] dependent_hit_iff [OF dist]
    using True by auto
next
  case False
  show ?thesis
    unfolding handleFagClickSlide11_select(2) [OF acc False own]
    using False by simp
qed

subsection \<open>The widget invariant under a click on slide 11\<close>

lemma names11_are_keys:
  "keys_ok s \<Longrightarrow> f \<in> {''okonomi1'', ''okonomi2'', ''samfunn1'', ''samfunn2''} \<Longrightarrow> f \<in> fst ` set (interactiveState11 s)"
proof -
  assume "keys_ok s" and f: "f \<in> {''okonomi1'', ''okonomi2'', ''samfunn1'', ''samfunn2''}"
  then have "set (map fst (interactiveState11 s)) = {''okonomi1'', ''okonomi2'', ''samfunn1'', ''samfunn2''}"
    by (simp add: keys_ok_def)
  then show ?thesis using f by (metis list.set_map)
qed

lemma keys_ok_handleFagClickSlide11:
  assumes wf: "wf_page p" and ok: "keys_ok s" and i: "i \<in> clickableCells p 11"
    and acc: "\<forall>r. data_requires (cells p ! i) = Some r \<longrightarrow> r = [] \<or> truthy (interactiveState11 s) r"
  shows "keys_ok (handleFagClickSlide11 p lay i s)"
proof -
  have fkey: "data_fag (cells p ! i) \<in> fst ` set (interactiveState11 s)"
    using names11_are_keys [OF ok wf_page_names11 [OF wf i]] .
  have "map fst (interactiveState11 (handleFagClickSlide11 p lay i s)) = map fst (interactiveState11 s)"
  proof (cases "truthy (interactiveState11 s) (data_fag (cells p ! i))")
    case True
    then show ?thesis
      using handleFagClickSlide11_deselect(1) [OF acc _ fkey keys_ok_plain(2) [OF ok]] by simp
  next
    case False
    show ?thesis
      unfolding handleFagClickSlide11_select(1) [OF acc False fkey] by (rule keys_update_existing [OF fkey])
  qed
  then show ?thesis using ok by (simp add: keys_ok_def)
qed

lemma prereq_ok_handleFagClickSlide11:
  assumes wf: "wf_page p" and pre: "prereq_ok p s" and i: "i \<in> clickableCells p 11"
    and acc: "\<forall>r. data_requires (cells p ! i) = Some r \<longrightarrow> r = [] \<or> truthy (interactiveState11 s) r"
    and ok: "keys_ok s"
  shows "prereq_ok p (handleFagClickSlide11 p lay i s)"
proof -
  let ?s' = "handleFagClickSlide11 p lay i s"
  let ?f = "data_fag (cells p ! i)"
  let ?n = "length (cells p)"
  have dist: "distinct (map data_fag (cells p))" using wf by (rule wf_page_distinct)
  have iN: "i < ?n" using i by (simp add: clickableCells_iff)
  have own: "?f \<in> fst ` set (interactiveState11 s)"
    using names11_are_keys [OF ok wf_page_names11 [OF wf i]] .
  note flags = handleFagClickSlide11_flags [OF dist acc own keys_ok_plain(2) [OF ok], of lay]
  have p11: "truthy (interactiveState11 ?s') r"
    if j: "j \<in> clickableCells p 11" and rq: "data_requires (cells p ! j) = Some r" "r \<noteq> []"
      and tj: "truthy (interactiveState11 ?s') (data_fag (cells p ! j))" for j r
  proof (cases "truthy (interactiveState11 s) ?f")
    case False
    show ?thesis
    proof (cases "data_fag (cells p ! j) = ?f")
      case True
      then have "j = i" using distinct_fag_index [OF dist _ iN] j by (simp add: clickableCells_iff)
      then have "truthy (interactiveState11 s) r" using acc rq by auto
      then show ?thesis using flags [of r] False by simp
    next
      case neq: False
      then have "truthy (interactiveState11 s) (data_fag (cells p ! j))"
        using tj flags [of "data_fag (cells p ! j)"] False by simp
      then have "truthy (interactiveState11 s) r" using pre j rq unfolding prereq_ok_def by blast
      then show ?thesis using flags [of r] False by simp
    qed
  next
    case True
    have jN: "j < ?n" and j11: "in_slide (cells p ! j) = 11"
      using j by (simp_all add: clickableCells_iff)
    have jkey: "data_fag (cells p ! j) \<in> fst ` set (interactiveState11 s)"
      using names11_are_keys [OF ok wf_page_names11 [OF wf j]] .
    have old: "truthy (interactiveState11 s) (data_fag (cells p ! j))"
      and notdep: "data_requires (cells p ! j) \<noteq> Some ?f"
      using tj flags [of "data_fag (cells p ! j)"] True jN j11 jkey by auto
    have r: "truthy (interactiveState11 s) r" using pre j rq old unfolding prereq_ok_def by blast
    have "r \<noteq> ?f" using notdep rq by auto
    moreover have "\<not> (\<exists>q<?n. in_slide (cells p ! q) = 11 \<and> data_fag (cells p ! q) = r
                    \<and> data_requires (cells p ! q) = Some ?f)"
    proof
      assume "\<exists>q<?n. in_slide (cells p ! q) = 11 \<and> data_fag (cells p ! q) = r
                    \<and> data_requires (cells p ! q) = Some ?f"
      then obtain q where q: "q < ?n" "data_fag (cells p ! q) = r" "data_requires (cells p ! q) = Some ?f"
        by blast
      have "data_requires (cells p ! q) = None"
        using wf_page_depth [OF wf jN q(1)] rq q(2) by simp
      then show False using q(3) by simp
    qed
    ultimately show ?thesis using flags [of r] True r by simp
  qed
  have "interactiveState ?s' = interactiveState s" by simp
  then have "\<forall>j\<in>clickableCells p 10. \<forall>r. data_requires (cells p ! j) = Some r \<and> r \<noteq> []
        \<longrightarrow> truthy (interactiveState ?s') (data_fag (cells p ! j)) \<longrightarrow> truthy (interactiveState ?s') r"
    using pre unfolding prereq_ok_def by simp
  moreover have "\<forall>j\<in>clickableCells p 11. \<forall>r. data_requires (cells p ! j) = Some r \<and> r \<noteq> []
        \<longrightarrow> truthy (interactiveState11 ?s') (data_fag (cells p ! j)) \<longrightarrow> truthy (interactiveState11 ?s') r"
    using p11 by blast
  ultimately show ?thesis unfolding prereq_ok_def by blast
qed

lemma marks_ok_handleFagClickSlide11:
  assumes wf: "wf_page p" and mk: "marks_ok p s" and i: "i \<in> clickableCells p 11"
    and acc: "\<forall>r. data_requires (cells p ! i) = Some r \<longrightarrow> r = [] \<or> truthy (interactiveState11 s) r"
    and ok: "keys_ok s"
  shows "marks_ok p (handleFagClickSlide11 p lay i s)"
proof -
  let ?s' = "handleFagClickSlide11 p lay i s"
  let ?f = "data_fag (cells p ! i)"
  let ?n = "length (cells p)"
  have dist: "distinct (map data_fag (cells p))" using wf by (rule wf_page_distinct)
  have iN: "i < ?n" and i11: "in_slide (cells p ! i) = 11"
    using i by (simp_all add: clickableCells_iff)
  have own: "?f \<in> fst ` set (interactiveState11 s)"
    using names11_are_keys [OF ok wf_page_names11 [OF wf i]] .
  note flags = handleFagClickSlide11_flags [OF dist acc own keys_ok_plain(2) [OF ok], of lay]
  note marks = handleFagClickSlide11_marks [OF dist acc own keys_ok_plain(2) [OF ok], of _ lay]
  have m11: "j \<in> selected_cells ?s' \<longleftrightarrow> truthy (interactiveState11 ?s') (data_fag (cells p ! j))"
    if j: "j \<in> clickableCells p 11" for j
  proof -
    have jN: "j < ?n" and j11: "in_slide (cells p ! j) = 11"
      using j by (simp_all add: clickableCells_iff)
    have old: "j \<in> selected_cells s \<longleftrightarrow> truthy (interactiveState11 s) (data_fag (cells p ! j))"
      using mk j by (simp add: marks_ok_def)
    have ji: "j = i \<longleftrightarrow> data_fag (cells p ! j) = ?f"
      using distinct_fag_index [OF dist jN iN] by auto
    have inkeys: "data_fag (cells p ! j) \<in> fst ` set (interactiveState11 s)"
      using names11_are_keys [OF ok wf_page_names11 [OF wf j]] .
    have uniq: "(\<exists>q<?n. in_slide (cells p ! q) = 11 \<and> data_fag (cells p ! q) = data_fag (cells p ! j)
                    \<and> data_requires (cells p ! q) = Some ?f)
                 \<longleftrightarrow> data_requires (cells p ! j) = Some ?f"
      using distinct_fag_index [OF dist _ jN] jN j11 by blast
    show ?thesis
    proof (cases "truthy (interactiveState11 s) ?f")
      case True
      have "j \<in> selected_cells ?s' \<longleftrightarrow>
              j \<in> selected_cells s \<and> j \<noteq> i
              \<and> \<not> (data_fag (cells p ! j) \<in> fst ` set (interactiveState11 s)
                    \<and> data_requires (cells p ! j) = Some ?f)"
        using marks [of j] True jN j11 by simp
      moreover have "truthy (interactiveState11 ?s') (data_fag (cells p ! j)) \<longleftrightarrow>
              truthy (interactiveState11 s) (data_fag (cells p ! j)) \<and> data_fag (cells p ! j) \<noteq> ?f
              \<and> data_requires (cells p ! j) \<noteq> Some ?f"
        using flags [of "data_fag (cells p ! j)"] True uniq inkeys by simp
      ultimately show ?thesis using old ji inkeys by blast
    next
      case False
      then show ?thesis
        using marks [of j] flags [of "data_fag (cells p ! j)"] old ji by simp
    qed
  qed
  have m10: "j \<in> selected_cells ?s' \<longleftrightarrow> j \<in> selected_cells s" if j: "j \<in> clickableCells p 10" for j
  proof -
    have "in_slide (cells p ! j) \<noteq> 11" "j \<noteq> i"
      using j i11 by (auto simp: clickableCells_iff)
    then show ?thesis using marks [of j] by simp
  qed
  have "interactiveState ?s' = interactiveState s" by simp
  then have "\<forall>j\<in>clickableCells p 10.
        j \<in> selected_cells ?s' \<longleftrightarrow> truthy (interactiveState ?s') (data_fag (cells p ! j))"
    using mk m10 unfolding marks_ok_def by simp
  then show ?thesis using m11 unfolding marks_ok_def by blast
qed

lemma indicators_ok_handleFagClickSlide11:
  assumes ind: "indicators_ok s" and slide: "slideByNumber p 11 = Some a"
    and acc: "\<forall>r. data_requires (cells p ! i) = Some r \<longrightarrow> r = [] \<or> truthy (interactiveState11 s) r"
    and plain: "plain_keys (interactiveState11 s)"
  shows "indicators_ok (handleFagClickSlide11 p lay i s)"
  unfolding indicators_ok_def
proof (intro ballI)
  let ?s' = "handleFagClickSlide11 p lay i s"
  fix x assume x: "x \<in> {''fysikk'', ''matte'', ''okonomi'', ''samfunn''}"
  show "(x \<in> arrows_visible ?s' \<longleftrightarrow> pair_complete ?s' x)
      \<and> (x \<in> results_visible ?s' \<longleftrightarrow> pair_complete ?s' x)"
  proof (cases "x = ''okonomi'' \<or> x = ''samfunn''")
    case True
    then show ?thesis
      using handleFagClickSlide11_shown [OF acc slide plain, of x lay] by simp
  next
    case False
    have "interactiveState ?s' = interactiveState s" by simp
    then have "pair_complete ?s' x = pair_complete s x"
      using False by (simp add: pair_complete_def)
    moreover have "(x \<in> arrows_visible s \<longleftrightarrow> pair_complete s x)
      \<and> (x \<in> results_visible s \<longleftrightarrow> pair_complete s x)"
      using ind x unfolding indicators_ok_def by blast
    ultimately show ?thesis
      using handleFagClickSlide11_shown [OF acc slide plain, of x lay] False by simp
  qed
qed

lemma widget_ok_handleFagClickSlide11:
  assumes wf: "wf_page p" and ok: "widget_ok p s" and i: "i \<in> clickableCells p 11"
  shows "widget_ok p (handleFagClickSlide11 p lay i s)"
proof (cases "\<forall>r. data_requires (cells p ! i) = Some r \<longrightarrow> r = [] \<or> truthy (interactiveState11 s) r")
  case False
  then obtain r where "data_requires (cells p ! i) = Some r" "r \<noteq> []" "\<not> truthy (interactiveState11 s) r"
    by blast
  then have "handleFagClickSlide11 p lay i s = s\<lparr>shaking_cells := insert i (shaking_cells s)\<rparr>"
    by (rule handleFagClickSlide11_rejected)
  then show ?thesis
    using rejected_click_keeps_invariant [OF ok] by simp
next
  case acc: True
  obtain a where slide: "slideByNumber p 11 = Some a"
    using wf_page_slides [OF wf] by auto
  have k: "keys_ok s" using ok by (simp add: widget_ok_def)
  show ?thesis
    using ok keys_ok_handleFagClickSlide11 [OF wf k i acc] prereq_ok_handleFagClickSlide11 [OF wf _ i acc k]
      marks_ok_handleFagClickSlide11 [OF wf _ i acc k]
      indicators_ok_handleFagClickSlide11 [OF _ slide acc keys_ok_plain(2) [OF k]]
    by (simp add: widget_ok_def)
qed

subsection \<open>The widget invariant under navigation\<close>

lemma widget_ok_same:
  assumes "interactiveState s' = interactiveState s" "interactiveState11 s' = interactiveState11 s"
    "selected_cells s' = selected_cells s" "arrows_visible s' = arrows_visible s"
    "results_visible s' = results_visible s"
  shows "widget_ok p s' = widget_ok p s"
  using assms
  by (simp add: widget_ok_def keys_ok_def prereq_ok_def marks_ok_def indicators_ok_def
        pair_complete_def)

lemma resetInteractiveSlide10_flags:
  "truthy (interactiveState (resetInteractiveSlide10 p s)) k \<longleftrightarrow>
     truthy (interactiveState s) k \<and> k \<notin> {''fysikk1'', ''fysikk2'', ''r1'', ''r2''}"
  by (auto simp: resetInteractiveSlide10_def Let_def split: option.split)

lemma resetInteractiveSlide10_keys:
  "keys_ok s \<Longrightarrow> map fst (interactiveState (resetInteractiveSlide10 p s)) = map fst (interactiveState s)"
  by (simp add: resetInteractiveSlide10_def Let_def keys_ok_def update_keys split: option.split)

lemma resetInteractiveSlide10_classes:
  assumes "slideByNumber p 10 = Some a"
  shows "selected_cells (resetInteractiveSlide10 p s) = selected_cells s - clickableCells p 10"
    and "arrows_visible (resetInteractiveSlide10 p s) = arrows_visible s - {''fysikk'', ''matte''}"
    and "results_visible (resetInteractiveSlide10 p s) = results_visible s - {''fysikk'', ''matte''}"
  using assms
  by (simp_all add: resetInteractiveSlide10_def Let_def arrow_lines_def fordypning_results_def)

lemma resetInteractiveSlide10_all_false:
  "k \<in> {''fysikk1'', ''fysikk2'', ''r1'', ''r2''}
     \<Longrightarrow> \<not> truthy (interactiveState (resetInteractiveSlide10 p s)) k"
  by (simp add: resetInteractiveSlide10_flags)

lemma clickableCells_disjoint:
  "j \<in> clickableCells p 10 \<Longrightarrow> j \<notin> clickableCells p 11"
  by (simp add: clickableCells_iff)

lemma widget_ok_resetInteractiveSlide10:
  assumes wf: "wf_page p" and ok: "widget_ok p s"
  shows "widget_ok p (resetInteractiveSlide10 p s)"
proof -
  let ?s' = "resetInteractiveSlide10 p s"
  obtain a where slide: "slideByNumber p 10 = Some a"
    using wf_page_slides [OF wf] by auto
  note cl = resetInteractiveSlide10_classes [OF slide, of s]
  have k: "keys_ok s" and pre: "prereq_ok p s" and mk: "marks_ok p s" and ind: "indicators_ok s"
    using ok by (simp_all add: widget_ok_def)
  have none: "\<not> truthy (interactiveState ?s') k" if "k \<in> {''fysikk1'', ''fysikk2'', ''r1'', ''r2''}" for k
    using that by (rule resetInteractiveSlide10_all_false)
  have cell: "\<not> truthy (interactiveState ?s') (data_fag (cells p ! j))" if "j \<in> clickableCells p 10" for j
    using none wf_page_names10 [OF wf that] by blast
  have "keys_ok ?s'"
    using k resetInteractiveSlide10_keys [OF k, of p] by (simp add: keys_ok_def)
  moreover have "prereq_ok p ?s'"
    using pre cell by (simp add: prereq_ok_def)
  moreover have "marks_ok p ?s'"
    using mk cell cl(1) clickableCells_disjoint [of _ p] by (auto simp: marks_ok_def)
  moreover have "indicators_ok ?s'"
    using ind none cl(2,3) by (auto simp: indicators_ok_def pair_complete_def)
  ultimately show ?thesis by (simp add: widget_ok_def)
qed

lemma resetInteractiveSlide11_flags:
  "truthy (interactiveState11 (resetInteractiveSlide11 p s)) k \<longleftrightarrow>
     truthy (interactiveState11 s) k \<and> k \<notin> {''okonomi1'', ''okonomi2'', ''samfunn1'', ''samfunn2''}"
  by (auto simp: resetInteractiveSlide11_def Let_def split: option.split)

lemma resetInteractiveSlide11_keys:
  "keys_ok s \<Longrightarrow> map fst (interactiveState11 (resetInteractiveSlide11 p s)) = map fst (interactiveState11 s)"
  by (simp add: resetInteractiveSlide11_def Let_def keys_ok_def update_keys split: option.split)

lemma resetInteractiveSlide11_classes:
  assumes "slideByNumber p 11 = Some a"
  shows "selected_cells (resetInteractiveSlide11 p s) = selected_cells s - clickableCells p 11"
    and "arrows_visible (resetInteractiveSlide11 p s) = arrows_visible s - {''okonomi'', ''samfunn''}"
    and "results_visible (resetInteractiveSlide11 p s) = results_visible s - {''okonomi'', ''samfunn''}"
  using assms
  by (simp_all add: resetInteractiveSlide11_def Let_def arrow_lines_def fordypning_results_def)

lemma resetInteractiveSlide11_all_false:
  "k \<in> {''okonomi1'', ''okonomi2'', ''samfunn1'', ''samfunn2''}
     \<Longrightarrow> \<not> truthy (interactiveState11 (resetInteractiveSlide11 p s)) k"
  by (simp add: resetInteractiveSlide11_flags)

lemma widget_ok_resetInteractiveSlide11:
  assumes wf: "wf_page p" and ok: "widget_ok p s"
  shows "widget_ok p (resetInteractiveSlide11 p s)"
proof -
  let ?s' = "resetInteractiveSlide11 p s"
  obtain a where slide: "slideByNumber p 11 = Some a"
    using wf_page_slides [OF wf] by auto
  note cl = resetInteractiveSlide11_classes [OF slide, of s]
  have k: "keys_ok s" and pre: "prereq_ok p s" and mk: "marks_ok p s" and ind: "indicators_ok s"
    using ok by (simp_all add: widget_ok_def)
  have none: "\<not> truthy (interactiveState11 ?s') k"
    if "k \<in> {''okonomi1'', ''okonomi2'', ''samfunn1'', ''samfunn2''}" for k
    using that by (rule resetInteractiveSlide11_all_false)
  have cell: "\<not> truthy (interactiveState11 ?s') (data_fag (cells p ! j))" if "j \<in> clickableCells p 11" for j
    using none wf_page_names11 [OF wf that] by blast
  have "keys_ok ?s'"
    using k resetInteractiveSlide11_keys [OF k, of p] by (simp add: keys_ok_def)
  moreover have "prereq_ok p ?s'"
    using pre cell by (simp add: prereq_ok_def)
  moreover have "marks_ok p ?s'"
    using mk cell cl(1) clickableCells_disjoint [of _ p] by (auto simp: marks_ok_def)
  moreover have "indicators_ok ?s'"
    using ind none cl(2,3) by (auto simp: indicators_ok_def pair_complete_def)
  ultimately show ?thesis by (simp add: widget_ok_def)
qed

lemma originalGoToSlide_widget_ok:
  "widget_ok p (snd (originalGoToSlide p n s)) = widget_ok p s"
  by (rule widget_ok_same) simp_all

lemma widget_ok_goToSlide:
  assumes wf: "wf_page p" and ok: "widget_ok p s"
  shows "widget_ok p (snd (goToSlide p n s))"
proof -
  define s1 where "s1 = (if currentSlide s = 10 \<and> n \<noteq> 10 then resetInteractiveSlide10 p s else s)"
  define s2 where "s2 = (if currentSlide s1 = 11 \<and> n \<noteq> 11 then resetInteractiveSlide11 p s1 else s1)"
  have ok1: "widget_ok p s1"
    using ok widget_ok_resetInteractiveSlide10 [OF wf ok] by (simp add: s1_def)
  have ok2: "widget_ok p s2"
    using ok1 widget_ok_resetInteractiveSlide11 [OF wf ok1] by (simp add: s2_def)
  have g: "snd (goToSlide p n s) =
      (case fst (originalGoToSlide p n s2) of
         Thrown \<Rightarrow> snd (originalGoToSlide p n s2)
       | Returned \<Rightarrow>
           updateClickRevealIndicator p (updateSlideMenuActive p (snd (originalGoToSlide p n s2))))"
    by (simp only: goToSlide_snd Let_def s2_def s1_def)
  have "widget_ok p (snd (goToSlide p n s)) = widget_ok p s2"
    unfolding g by (rule widget_ok_same) (simp_all split: completion.split)
  then show ?thesis using ok2 by simp
qed

subsection \<open>The widget invariant under every event\<close>

lemma widget_ok_neutral [simp]:
  "widget_ok p (snd (revealNextElement p s)) = widget_ok p s"
  "widget_ok p (snd (hideLastRevealedElement p s)) = widget_ok p s"
  "widget_ok p (updateClickRevealIndicator p s) = widget_ok p s"
  "widget_ok p (animateSlide p j s) = widget_ok p s"
  "widget_ok p (closeAllSpeechBubbles s) = widget_ok p s"
  "widget_ok p (closeSpeechBubble b s) = widget_ok p s"
  "widget_ok p (toggleSpeechBubble b s) = widget_ok p s"
  "widget_ok p (openImageModal p s) = widget_ok p s"
  "widget_ok p (closeImageModal p s) = widget_ok p s"
  "widget_ok p (openQrModal p s) = widget_ok p s"
  "widget_ok p (closeQrModal p s) = widget_ok p s"
  "widget_ok p (handleTouchStart x s) = widget_ok p s"
  "widget_ok p (s\<lparr>touchEndX := x\<rparr>) = widget_ok p s"
  "widget_ok p (s\<lparr>pending := q\<rparr>) = widget_ok p s"
  by (rule widget_ok_same; simp)+

lemma widget_ok_handleKeydown:
  "wf_page p \<Longrightarrow> widget_ok p s \<Longrightarrow> widget_ok p (handleKeydown p key s)"
  by (simp add: handleKeydown_def nextSlide_def prevSlide_def widget_ok_goToSlide
        split: prod.split bool.split)
     (metis snd_conv widget_ok_neutral(2))

lemma widget_ok_keydown:
  "wf_page p \<Longrightarrow> widget_ok p s \<Longrightarrow> widget_ok p (keydown p key s)"
  by (simp add: keydown_unfold Let_def widget_ok_handleKeydown)

lemma widget_ok_handleSwipe:
  "wf_page p \<Longrightarrow> widget_ok p s \<Longrightarrow> widget_ok p (handleSwipe p s)"
  by (simp add: handleSwipe_def Let_def nextSlide_def prevSlide_def widget_ok_goToSlide)

lemma widget_ok_handleSlideContainerClick:
  "widget_ok p s \<Longrightarrow> widget_ok p (handleSlideContainerClick p b s)"
  by (simp add: handleSlideContainerClick_def)

lemma widget_ok_cellClick:
  "wf_page p \<Longrightarrow> widget_ok p s \<Longrightarrow> widget_ok p (cellClick p lay i s)"
  by (simp add: cellClick_def widget_ok_handleFagClick widget_ok_handleFagClickSlide11)

lemma widget_ok_timerFires:
  "widget_ok p s \<Longrightarrow> widget_ok p (timerFires p k s)"
  by (simp add: timerFires_def Let_def split: timer.split option.split)

lemma widget_ok_step:
  assumes "wf_page p" and "widget_ok p s"
  shows "widget_ok p (step p e s)"
  using assms
  by (cases e)
     (simp_all add: widget_ok_keydown handleTouchEnd_def widget_ok_handleSwipe nextSlide_def
        prevSlide_def widget_ok_goToSlide menuItemClick_def widget_ok_handleSlideContainerClick
        widget_ok_cellClick widget_ok_timerFires split: option.split)

lemma init_flags:
  "interactiveState (init p)
     = [(''fysikk1'', False), (''fysikk2'', False), (''r1'', False), (''r2'', False)]"
  "interactiveState11 (init p)
     = [(''okonomi1'', False), (''okonomi2'', False), (''samfunn1'', False), (''samfunn2'', False)]"
  "selected_cells (init p) = {}" "arrows_visible (init p) = {}" "results_visible (init p) = {}"
  by (simp_all add: init_def updateSlideMenuActive_def updateNavButtons_def updateProgress_def)

lemma init_flags_false:
  "k \<in> {''fysikk1'', ''fysikk2'', ''r1'', ''r2''} \<Longrightarrow> \<not> truthy (interactiveState (init p)) k"
  "k \<in> {''okonomi1'', ''okonomi2'', ''samfunn1'', ''samfunn2''}
     \<Longrightarrow> \<not> truthy (interactiveState11 (init p)) k"
  by (auto simp: init_flags truthy_def)

lemma widget_ok_init:
  assumes wf: "wf_page p"
  shows "widget_ok p (init p)"
proof -
  have c10: "\<not> truthy (interactiveState (init p)) (data_fag (cells p ! j))"
    if "j \<in> clickableCells p 10" for j
    using init_flags_false(1) wf_page_names10 [OF wf that] by blast
  have c11: "\<not> truthy (interactiveState11 (init p)) (data_fag (cells p ! j))"
    if "j \<in> clickableCells p 11" for j
    using init_flags_false(2) wf_page_names11 [OF wf that] by blast
  have "keys_ok (init p)"
    by (simp add: keys_ok_def init_flags)
  moreover have "prereq_ok p (init p)"
    using c10 c11 by (simp add: prereq_ok_def)
  moreover have "marks_ok p (init p)"
    using c10 c11 by (simp add: marks_ok_def init_flags(3))
  moreover have "indicators_ok (init p)"
    using init_flags_false [of _ p]
    by (simp add: indicators_ok_def pair_complete_def init_flags(4,5))
  ultimately show ?thesis by (simp add: widget_ok_def)
qed

lemma widget_ok_run:
  "wf_page p \<Longrightarrow> widget_ok p s \<Longrightarrow> widget_ok p (run p evs s)"
  unfolding run_def by (induction evs arbitrary: s) (simp_all add: widget_ok_step)

section \<open>The dependency widgets: prerequisites, indicators and leaving\<close>

lemma flag_false_after:
  assumes "k \<in> fst ` set st" and "\<not> truthy st k"
  shows "map_of st k = Some False"
proof -
  have "map_of st k \<noteq> None"
    using assms(1) by (simp add: map_of_eq_None_iff)
  then obtain b where b: "map_of st k = Some b" by auto
  then have "\<not> b" using assms(2) by (simp add: truthy_def)
  then show ?thesis using b by simp
qed

text \<open>
  C1.  On a well-formed page, from the initial state and whatever events occur, on slide
  10 and on slide 11 alike: a selectable unit that declares a prerequisite is never
  selected, neither by its flag nor by its mark, while the flag of its prerequisite is
  false.  The flag is read as the script reads it, \<open>state[requires]\<close>: for a prerequisite
  that is not the name of a member of \<open>Object.prototype\<close> this is an own property of the
  state object with the value true.  A click on such a unit while that flag is false is
  rejected: the handler gives the cue (the shake) and changes nothing else.
\<close>

theorem prerequisite_holds_for_selected_units:
  assumes "wf_page p"
  shows
    "(\<forall>j\<in>clickableCells p 10. \<forall>r. data_requires (cells p ! j) = Some r \<and> r \<noteq> []
        \<longrightarrow> truthy (interactiveState (run p evs (init p))) (data_fag (cells p ! j))
            \<or> j \<in> selected_cells (run p evs (init p))
        \<longrightarrow> truthy (interactiveState (run p evs (init p))) r
            \<and> (r \<notin> set objectPrototypeNames
                 \<longrightarrow> map_of (interactiveState (run p evs (init p))) r = Some True))
     \<and> (\<forall>j\<in>clickableCells p 11. \<forall>r. data_requires (cells p ! j) = Some r \<and> r \<noteq> []
        \<longrightarrow> truthy (interactiveState11 (run p evs (init p))) (data_fag (cells p ! j))
            \<or> j \<in> selected_cells (run p evs (init p))
        \<longrightarrow> truthy (interactiveState11 (run p evs (init p))) r
            \<and> (r \<notin> set objectPrototypeNames
                 \<longrightarrow> map_of (interactiveState11 (run p evs (init p))) r = Some True))
     \<and> (data_requires (cells p ! i) = Some q \<and> q \<noteq> [] \<and> \<not> truthy (interactiveState s) q
        \<longrightarrow> handleFagClick p lay i s = s\<lparr>shaking_cells := insert i (shaking_cells s)\<rparr>)
     \<and> (data_requires (cells p ! i) = Some q \<and> q \<noteq> [] \<and> \<not> truthy (interactiveState11 s) q
        \<longrightarrow> handleFagClickSlide11 p lay i s = s\<lparr>shaking_cells := insert i (shaking_cells s)\<rparr>)"
proof -
  let ?t = "run p evs (init p)"
  have ok: "widget_ok p ?t"
    using assms widget_ok_init [OF assms] by (rule widget_ok_run)
  then have pre: "prereq_ok p ?t" and mk: "marks_ok p ?t"
    by (simp_all add: widget_ok_def)
  have a0: "\<forall>j\<in>clickableCells p 10. \<forall>r. data_requires (cells p ! j) = Some r \<and> r \<noteq> []
        \<longrightarrow> truthy (interactiveState ?t) (data_fag (cells p ! j)) \<or> j \<in> selected_cells ?t
        \<longrightarrow> truthy (interactiveState ?t) r"
    using pre mk unfolding prereq_ok_def marks_ok_def by blast
  have b0: "\<forall>j\<in>clickableCells p 11. \<forall>r. data_requires (cells p ! j) = Some r \<and> r \<noteq> []
        \<longrightarrow> truthy (interactiveState11 ?t) (data_fag (cells p ! j)) \<or> j \<in> selected_cells ?t
        \<longrightarrow> truthy (interactiveState11 ?t) r"
    using pre mk unfolding prereq_ok_def marks_ok_def by blast
  have a: "\<forall>j\<in>clickableCells p 10. \<forall>r. data_requires (cells p ! j) = Some r \<and> r \<noteq> []
        \<longrightarrow> truthy (interactiveState ?t) (data_fag (cells p ! j)) \<or> j \<in> selected_cells ?t
        \<longrightarrow> truthy (interactiveState ?t) r
            \<and> (r \<notin> set objectPrototypeNames \<longrightarrow> map_of (interactiveState ?t) r = Some True)"
    using a0 truthy_flag_name [of _ "interactiveState ?t"] by blast
  have b: "\<forall>j\<in>clickableCells p 11. \<forall>r. data_requires (cells p ! j) = Some r \<and> r \<noteq> []
        \<longrightarrow> truthy (interactiveState11 ?t) (data_fag (cells p ! j)) \<or> j \<in> selected_cells ?t
        \<longrightarrow> truthy (interactiveState11 ?t) r
            \<and> (r \<notin> set objectPrototypeNames \<longrightarrow> map_of (interactiveState11 ?t) r = Some True)"
    using b0 truthy_flag_name [of _ "interactiveState11 ?t"] by blast
  show ?thesis
    using a b handleFagClick_rejected [of p i q s lay] handleFagClickSlide11_rejected [of p i q s lay]
    by blast
qed

theorem prerequisite_holds_for_selected_units_witness:
  "wf_page demo_page
   \<and> 1 \<in> clickableCells demo_page 10
   \<and> data_requires (cells demo_page ! 1) = Some ''fysikk1''
   \<and> truthy (interactiveState demo_pair10) (data_fag (cells demo_page ! 1))
   \<and> truthy (interactiveState demo_pair10) ''fysikk1''
   \<and> ''fysikk1'' \<notin> set objectPrototypeNames
   \<and> map_of (interactiveState demo_pair10) ''fysikk1'' = Some True
   \<and> 5 \<in> clickableCells demo_page 11
   \<and> data_requires (cells demo_page ! 5) = Some ''okonomi1''
   \<and> 5 \<in> selected_cells demo_pair11
   \<and> truthy (interactiveState11 demo_pair11) ''okonomi1''
   \<and> \<not> truthy (interactiveState demo_revealed10) ''fysikk1''
   \<and> handleFagClick demo_page demo_layout 1 demo_revealed10
       = demo_revealed10\<lparr>shaking_cells := insert 1 (shaking_cells demo_revealed10)\<rparr>
   \<and> \<not> truthy (interactiveState11 demo_revealed10) ''okonomi1''
   \<and> handleFagClickSlide11 demo_page demo_layout 5 demo_revealed10
       = demo_revealed10\<lparr>shaking_cells := insert 5 (shaking_cells demo_revealed10)\<rparr>"
proof -
  have wf: "wf_page demo_page" by code_simp
  have a: "1 \<in> clickableCells demo_page 10 \<and> data_requires (cells demo_page ! 1) = Some ''fysikk1''
      \<and> truthy (interactiveState demo_pair10) (data_fag (cells demo_page ! 1))
      \<and> 5 \<in> clickableCells demo_page 11 \<and> data_requires (cells demo_page ! 5) = Some ''okonomi1''
      \<and> 5 \<in> selected_cells demo_pair11
      \<and> \<not> truthy (interactiveState demo_revealed10) ''fysikk1''
      \<and> \<not> truthy (interactiveState11 demo_revealed10) ''okonomi1''"
    by code_simp
  have n: "''fysikk1'' \<noteq> []" "''okonomi1'' \<noteq> []" "''fysikk1'' \<notin> set objectPrototypeNames"
    by (simp_all add: objectPrototypeNames_def)
  note t10 = prerequisite_holds_for_selected_units [OF wf,
      of "[MenuClick 9, TimerFires 0, TimerFires 0, CellClick 0 demo_layout, CellClick 1 demo_layout]"
         1 "''fysikk1''" demo_revealed10 demo_layout, folded demo_pair10_def]
  note t11 = prerequisite_holds_for_selected_units [OF wf,
      of "[MenuClick 10, TimerFires 0, TimerFires 0, CellClick 4 demo_layout, CellClick 5 demo_layout]"
         5 "''okonomi1''" demo_revealed10 demo_layout, folded demo_pair11_def]
  show ?thesis
    using wf a n t10 t11 by blast
qed

text \<open>
  C2.  On a page where no two elements share a \<open>data-fag\<close>, for a widget whose flag
  names are plain and whatever the values of its flags are: a click that toggles a
  selected unit \<open>x\<close> to false leaves, in the same handler call, the flag of \<open>x\<close> false
  and \<open>x\<close> without its mark, and the flag of every unit of the widget whose declared
  prerequisite is \<open>x\<close> false and that unit without its mark.  The units of a widget are
  the elements whose \<open>data-fag\<close> is the name of one of its flags; on slide 11 they lie in
  slide 11.
\<close>

theorem deselecting_cascades_to_dependents:
  assumes "distinct (map data_fag (cells p))" and "d < length (cells p)"
    and "data_requires (cells p ! d) = Some (data_fag (cells p ! i))"
  shows
    "(plain_keys (interactiveState s)
      \<and> data_fag (cells p ! i) \<in> fst ` set (interactiveState s)
      \<and> data_fag (cells p ! d) \<in> fst ` set (interactiveState s)
      \<and> truthy (interactiveState s) (data_fag (cells p ! i))
      \<and> (\<forall>r. data_requires (cells p ! i) = Some r \<longrightarrow> r = [] \<or> truthy (interactiveState s) r)
        \<longrightarrow> map_of (interactiveState (handleFagClick p lay i s)) (data_fag (cells p ! i)) = Some False
          \<and> \<not> truthy (interactiveState (handleFagClick p lay i s)) (data_fag (cells p ! i))
          \<and> i \<notin> selected_cells (handleFagClick p lay i s)
          \<and> map_of (interactiveState (handleFagClick p lay i s)) (data_fag (cells p ! d)) = Some False
          \<and> \<not> truthy (interactiveState (handleFagClick p lay i s)) (data_fag (cells p ! d))
          \<and> d \<notin> selected_cells (handleFagClick p lay i s))
     \<and> (plain_keys (interactiveState11 s)
      \<and> data_fag (cells p ! i) \<in> fst ` set (interactiveState11 s)
      \<and> data_fag (cells p ! d) \<in> fst ` set (interactiveState11 s)
      \<and> truthy (interactiveState11 s) (data_fag (cells p ! i))
      \<and> (\<forall>r. data_requires (cells p ! i) = Some r \<longrightarrow> r = [] \<or> truthy (interactiveState11 s) r)
      \<and> in_slide (cells p ! d) = 11
        \<longrightarrow> map_of (interactiveState11 (handleFagClickSlide11 p lay i s)) (data_fag (cells p ! i))
              = Some False
          \<and> \<not> truthy (interactiveState11 (handleFagClickSlide11 p lay i s)) (data_fag (cells p ! i))
          \<and> i \<notin> selected_cells (handleFagClickSlide11 p lay i s)
          \<and> map_of (interactiveState11 (handleFagClickSlide11 p lay i s)) (data_fag (cells p ! d))
              = Some False
          \<and> \<not> truthy (interactiveState11 (handleFagClickSlide11 p lay i s)) (data_fag (cells p ! d))
          \<and> d \<notin> selected_cells (handleFagClickSlide11 p lay i s))"
proof (intro conjI impI)
  let ?s' = "handleFagClick p lay i s"
  assume h: "plain_keys (interactiveState s)
      \<and> data_fag (cells p ! i) \<in> fst ` set (interactiveState s)
      \<and> data_fag (cells p ! d) \<in> fst ` set (interactiveState s)
      \<and> truthy (interactiveState s) (data_fag (cells p ! i))
      \<and> (\<forall>r. data_requires (cells p ! i) = Some r \<longrightarrow> r = [] \<or> truthy (interactiveState s) r)"
  then have plain: "plain_keys (interactiveState s)"
    and own: "data_fag (cells p ! i) \<in> fst ` set (interactiveState s)"
    and dkey: "data_fag (cells p ! d) \<in> fst ` set (interactiveState s)"
    and t: "truthy (interactiveState s) (data_fag (cells p ! i))"
    and acc: "\<forall>r. data_requires (cells p ! i) = Some r \<longrightarrow> r = [] \<or> truthy (interactiveState s) r"
    by simp_all
  note f = handleFagClick_flags [OF assms(1) acc own plain, of lay]
  note m = handleFagClick_marks [OF assms(1) acc own plain, of _ lay]
  have "map fst (interactiveState ?s') = map fst (interactiveState s)"
    using handleFagClick_deselect(1) [OF acc t own plain] .
  then have keys: "fst ` set (interactiveState ?s') = fst ` set (interactiveState s)"
    by (metis list.set_map)
  show fi: "\<not> truthy (interactiveState ?s') (data_fag (cells p ! i))"
    using f [of "data_fag (cells p ! i)"] t by simp
  show "i \<notin> selected_cells ?s'"
    using m [of i] t by simp
  show fd: "\<not> truthy (interactiveState ?s') (data_fag (cells p ! d))"
    using f [of "data_fag (cells p ! d)"] t dkey assms(2,3) by auto
  show "d \<notin> selected_cells ?s'"
    using m [of d] t dkey assms(2,3) by simp
  show "map_of (interactiveState ?s') (data_fag (cells p ! i)) = Some False"
    using own keys fi by (intro flag_false_after) simp_all
  show "map_of (interactiveState ?s') (data_fag (cells p ! d)) = Some False"
    using dkey keys fd by (intro flag_false_after) simp_all
next
  let ?s' = "handleFagClickSlide11 p lay i s"
  assume h: "plain_keys (interactiveState11 s)
      \<and> data_fag (cells p ! i) \<in> fst ` set (interactiveState11 s)
      \<and> data_fag (cells p ! d) \<in> fst ` set (interactiveState11 s)
      \<and> truthy (interactiveState11 s) (data_fag (cells p ! i))
      \<and> (\<forall>r. data_requires (cells p ! i) = Some r \<longrightarrow> r = [] \<or> truthy (interactiveState11 s) r)
      \<and> in_slide (cells p ! d) = 11"
  then have plain: "plain_keys (interactiveState11 s)"
    and own: "data_fag (cells p ! i) \<in> fst ` set (interactiveState11 s)"
    and dkey: "data_fag (cells p ! d) \<in> fst ` set (interactiveState11 s)"
    and t: "truthy (interactiveState11 s) (data_fag (cells p ! i))"
    and acc: "\<forall>r. data_requires (cells p ! i) = Some r \<longrightarrow> r = [] \<or> truthy (interactiveState11 s) r"
    and d11: "in_slide (cells p ! d) = 11"
    by simp_all
  note f = handleFagClickSlide11_flags [OF assms(1) acc own plain, of lay]
  note m = handleFagClickSlide11_marks [OF assms(1) acc own plain, of _ lay]
  have "map fst (interactiveState11 ?s') = map fst (interactiveState11 s)"
    using handleFagClickSlide11_deselect(1) [OF acc t own plain] .
  then have keys: "fst ` set (interactiveState11 ?s') = fst ` set (interactiveState11 s)"
    by (metis list.set_map)
  show fi: "\<not> truthy (interactiveState11 ?s') (data_fag (cells p ! i))"
    using f [of "data_fag (cells p ! i)"] t by simp
  show "i \<notin> selected_cells ?s'"
    using m [of i] t by simp
  show fd: "\<not> truthy (interactiveState11 ?s') (data_fag (cells p ! d))"
    using f [of "data_fag (cells p ! d)"] t dkey d11 assms(2,3) by auto
  show "d \<notin> selected_cells ?s'"
    using m [of d] t dkey d11 assms(2,3) by simp
  show "map_of (interactiveState11 ?s') (data_fag (cells p ! i)) = Some False"
    using own keys fi by (intro flag_false_after) simp_all
  show "map_of (interactiveState11 ?s') (data_fag (cells p ! d)) = Some False"
    using dkey keys fd by (intro flag_false_after) simp_all
qed

theorem deselecting_cascades_to_dependents_witness:
  "distinct (map data_fag (cells demo_page))
   \<and> data_requires (cells demo_page ! 1) = Some (data_fag (cells demo_page ! 0))
   \<and> data_requires (cells demo_page ! 0) = None
   \<and> plain_keys (interactiveState demo_pair10)
   \<and> data_fag (cells demo_page ! 0) \<in> fst ` set (interactiveState demo_pair10)
   \<and> data_fag (cells demo_page ! 1) \<in> fst ` set (interactiveState demo_pair10)
   \<and> truthy (interactiveState demo_pair10) (data_fag (cells demo_page ! 0))
   \<and> truthy (interactiveState demo_pair10) (data_fag (cells demo_page ! 1))
   \<and> 1 \<in> selected_cells demo_pair10
   \<and> \<not> truthy (interactiveState (handleFagClick demo_page demo_layout 0 demo_pair10))
         (data_fag (cells demo_page ! 0))
   \<and> 0 \<notin> selected_cells (handleFagClick demo_page demo_layout 0 demo_pair10)
   \<and> map_of (interactiveState (handleFagClick demo_page demo_layout 0 demo_pair10))
         (data_fag (cells demo_page ! 1)) = Some False
   \<and> \<not> truthy (interactiveState (handleFagClick demo_page demo_layout 0 demo_pair10))
         (data_fag (cells demo_page ! 1))
   \<and> 1 \<notin> selected_cells (handleFagClick demo_page demo_layout 0 demo_pair10)
   \<and> data_requires (cells demo_page ! 5) = Some (data_fag (cells demo_page ! 4))
   \<and> in_slide (cells demo_page ! 5) = 11
   \<and> plain_keys (interactiveState11 demo_pair11)
   \<and> truthy (interactiveState11 demo_pair11) (data_fag (cells demo_page ! 4))
   \<and> 5 \<in> selected_cells demo_pair11
   \<and> \<not> truthy (interactiveState11 (handleFagClickSlide11 demo_page demo_layout 4 demo_pair11))
         (data_fag (cells demo_page ! 5))
   \<and> 5 \<notin> selected_cells (handleFagClickSlide11 demo_page demo_layout 4 demo_pair11)"
proof -
  have a: "distinct (map data_fag (cells demo_page))
      \<and> (1::nat) < length (cells demo_page) \<and> (5::nat) < length (cells demo_page)
      \<and> data_requires (cells demo_page ! 1) = Some (data_fag (cells demo_page ! 0))
      \<and> data_requires (cells demo_page ! 0) = None
      \<and> plain_keys (interactiveState demo_pair10)
      \<and> truthy (interactiveState demo_pair10) (data_fag (cells demo_page ! 0))
      \<and> truthy (interactiveState demo_pair10) (data_fag (cells demo_page ! 1))
      \<and> 1 \<in> selected_cells demo_pair10
      \<and> data_fag (cells demo_page ! 0) \<in> fst ` set (interactiveState demo_pair10)
      \<and> data_fag (cells demo_page ! 1) \<in> fst ` set (interactiveState demo_pair10)
      \<and> data_requires (cells demo_page ! 5) = Some (data_fag (cells demo_page ! 4))
      \<and> data_requires (cells demo_page ! 4) = None
      \<and> in_slide (cells demo_page ! 5) = 11
      \<and> plain_keys (interactiveState11 demo_pair11)
      \<and> truthy (interactiveState11 demo_pair11) (data_fag (cells demo_page ! 4))
      \<and> 5 \<in> selected_cells demo_pair11
      \<and> data_fag (cells demo_page ! 4) \<in> fst ` set (interactiveState11 demo_pair11)
      \<and> data_fag (cells demo_page ! 5) \<in> fst ` set (interactiveState11 demo_pair11)"
    by code_simp
  then have b: "\<forall>r. data_requires (cells demo_page ! 0) = Some r \<longrightarrow> r = [] \<or> truthy (interactiveState demo_pair10) r"
    "\<forall>r. data_requires (cells demo_page ! 4) = Some r \<longrightarrow> r = [] \<or> truthy (interactiveState11 demo_pair11) r"
    by simp_all
  note t10 = deselecting_cascades_to_dependents [of demo_page 1 0 demo_pair10 demo_layout]
  note t11 = deselecting_cascades_to_dependents [of demo_page 5 4 demo_pair11 demo_layout]
  show ?thesis
    using a b t10 t11 by blast
qed

subsection \<open>The arrow attributes\<close>

lemma updateArrowPosition_shape:
  "(\<forall>s. updateArrowPosition p lay ty s = s)
   \<or> (\<exists>v. \<forall>s. updateArrowPosition p lay ty s = s\<lparr>arrow_attrs := AList.update ty v (arrow_attrs s)\<rparr>)"
proof (cases "slideByNumber p 10")
  case None
  then show ?thesis by (simp add: updateArrowPosition_def)
next
  case slide: (Some a)
  show ?thesis
  proof (cases "cellInSlide p 10 (if ty = ''fysikk'' then ''fysikk1'' else ''r1'')")
    case None
    then show ?thesis using slide by (simp add: updateArrowPosition_def)
  next
    case c1: (Some c1)
    show ?thesis
    proof (cases "cellInSlide p 10 (if ty = ''fysikk'' then ''fysikk2'' else ''r2'')")
      case None
      then show ?thesis using slide c1 by (simp add: updateArrowPosition_def)
    next
      case c2: (Some c2)
      show ?thesis
      proof (cases "container_rect lay")
        case None
        then show ?thesis using slide c1 c2 by (simp add: updateArrowPosition_def)
      next
        case cr: (Some containerRect)
        show ?thesis
        proof (cases "svg_present lay")
          case False
          then show ?thesis using slide c1 c2 cr by (simp add: updateArrowPosition_def)
        next
          case True
          have "\<forall>s. updateArrowPosition p lay ty s = s\<lparr>arrow_attrs := AList.update ty
                  (r_left (cell_rect lay c1) + r_width (cell_rect lay c1) / 2 - r_left containerRect,
                   r_bottom (cell_rect lay c1) - r_top containerRect + 5,
                   r_left (cell_rect lay c1) + r_width (cell_rect lay c1) / 2 - r_left containerRect,
                   r_top (cell_rect lay c2) - r_top containerRect - 5) (arrow_attrs s)\<rparr>"
            using slide c1 c2 cr True by (simp add: updateArrowPosition_def Let_def)
          then show ?thesis by blast
        qed
      qed
    qed
  qed
qed

lemma updateArrowPosition_other:
  "x \<noteq> ty \<Longrightarrow> map_of (arrow_attrs (updateArrowPosition p lay ty s)) x = map_of (arrow_attrs s) x"
  using updateArrowPosition_shape [of p lay ty] by (auto simp: update_conv')

lemma updateArrowPosition_cong:
  "map_of (arrow_attrs s') ty = map_of (arrow_attrs s) ty
     \<Longrightarrow> map_of (arrow_attrs (updateArrowPosition p lay ty s')) ty
         = map_of (arrow_attrs (updateArrowPosition p lay ty s)) ty"
  using updateArrowPosition_shape [of p lay ty] by (auto simp: update_conv')

lemma updateFordypningVisuals_attrs:
  "map_of (arrow_attrs (updateFordypningVisuals p lay s)) x =
     (if slideByNumber p 10 \<noteq> None \<and> (x = ''fysikk'' \<or> x = ''matte'') \<and> pair_complete s x
         \<and> x \<notin> arrows_visible s
      then map_of (arrow_attrs (updateArrowPosition p lay x s)) x
      else map_of (arrow_attrs s) x)"
proof (cases "slideByNumber p 10")
  case None
  then show ?thesis by (simp add: updateFordypningVisuals_def)
next
  case (Some a)
  define s1 where "s1 =
            (if truthy (interactiveState s) ''fysikk1'' \<and> truthy (interactiveState s) ''fysikk2''
             then
               (let s' = (if ''fysikk'' \<notin> arrows_visible s
                          then (let s'' = updateArrowPosition p lay ''fysikk'' s
                                in s''\<lparr>arrows_visible := insert ''fysikk'' (arrows_visible s'')\<rparr>)
                          else s)
                in s'\<lparr>results_visible := insert ''fysikk'' (results_visible s')\<rparr>)
             else s\<lparr>arrows_visible := arrows_visible s - {''fysikk''},
                    results_visible := results_visible s - {''fysikk''}\<rparr>)"
  define s2 where "s2 =
            (if truthy (interactiveState s1) ''r1'' \<and> truthy (interactiveState s1) ''r2''
             then
               (let s' = (if ''matte'' \<notin> arrows_visible s1
                          then (let s'' = updateArrowPosition p lay ''matte'' s1
                                in s''\<lparr>arrows_visible := insert ''matte'' (arrows_visible s'')\<rparr>)
                          else s1)
                in s'\<lparr>results_visible := insert ''matte'' (results_visible s')\<rparr>)
             else s1\<lparr>arrows_visible := arrows_visible s1 - {''matte''},
                     results_visible := results_visible s1 - {''matte''}\<rparr>)"
  have u: "updateFordypningVisuals p lay s = s2"
    by (simp only: updateFordypningVisuals_def s2_def s1_def Let_def Some option.case)
  have i1: "interactiveState s1 = interactiveState s"
    and v1: "''matte'' \<in> arrows_visible s1 \<longleftrightarrow> ''matte'' \<in> arrows_visible s"
    by (simp_all add: s1_def Let_def)
  have a1: "map_of (arrow_attrs s1) x =
     (if x = ''fysikk'' \<and> pair_complete s x \<and> x \<notin> arrows_visible s
      then map_of (arrow_attrs (updateArrowPosition p lay x s)) x
      else map_of (arrow_attrs s) x)" for x
    by (simp add: s1_def Let_def pair_complete_def updateArrowPosition_other)
  have m: "map_of (arrow_attrs (updateArrowPosition p lay ''matte'' s1)) ''matte''
      = map_of (arrow_attrs (updateArrowPosition p lay ''matte'' s)) ''matte''"
    by (rule updateArrowPosition_cong) (simp add: a1)
  have a2: "map_of (arrow_attrs s2) x =
     (if x = ''matte'' \<and> pair_complete s x \<and> x \<notin> arrows_visible s
      then map_of (arrow_attrs (updateArrowPosition p lay x s)) x
      else map_of (arrow_attrs s1) x)"
    using i1 v1 m
    by (simp add: s2_def Let_def pair_complete_def updateArrowPosition_other)
  show ?thesis
    unfolding u a2 a1 using Some by auto
qed

lemma handleFagClick_attrs_kept:
  assumes "x \<in> arrows_visible s \<or> \<not> pair_complete (handleFagClick p lay i s) x"
  shows "map_of (arrow_attrs (handleFagClick p lay i s)) x = map_of (arrow_attrs s) x"
proof -
  obtain mid where m:
    "handleFagClick p lay i s = mid \<or> handleFagClick p lay i s = updateFordypningVisuals p lay mid"
    "arrows_visible mid = arrows_visible s" "arrow_attrs mid = arrow_attrs s"
    using handleFagClick_shape [of p lay i s] by metis
  from m(1) show ?thesis
  proof
    assume "handleFagClick p lay i s = mid"
    then show ?thesis using m(3) by simp
  next
    assume e: "handleFagClick p lay i s = updateFordypningVisuals p lay mid"
    have pc: "pair_complete (updateFordypningVisuals p lay mid) x = pair_complete mid x"
      by (rule pair_complete_cong) simp_all
    have "x \<in> arrows_visible mid \<or> \<not> pair_complete mid x"
      using assms e pc m(2) by simp
    then have "map_of (arrow_attrs (updateFordypningVisuals p lay mid)) x = map_of (arrow_attrs mid) x"
      unfolding updateFordypningVisuals_attrs by auto
    then show ?thesis using e m(3) by simp
  qed
qed

lemma handleFagClick_attrs:
  assumes "plain_keys (interactiveState s)"
  shows "map_of (arrow_attrs (handleFagClick p lay i s)) x =
     (if (\<forall>r. data_requires (cells p ! i) = Some r \<longrightarrow> r = [] \<or> truthy (interactiveState s) r)
         \<and> slideByNumber p 10 \<noteq> None \<and> (x = ''fysikk'' \<or> x = ''matte'')
         \<and> pair_complete (handleFagClick p lay i s) x \<and> x \<notin> arrows_visible s
      then map_of (arrow_attrs (updateArrowPosition p lay x s)) x
      else map_of (arrow_attrs s) x)"
proof (cases "\<forall>r. data_requires (cells p ! i) = Some r \<longrightarrow> r = [] \<or> truthy (interactiveState s) r")
  case False
  then obtain r where "data_requires (cells p ! i) = Some r" "r \<noteq> []" "\<not> truthy (interactiveState s) r"
    by blast
  then have "handleFagClick p lay i s = s\<lparr>shaking_cells := insert i (shaking_cells s)\<rparr>"
    by (rule handleFagClick_rejected)
  then have "map_of (arrow_attrs (handleFagClick p lay i s)) x = map_of (arrow_attrs s) x"
    by simp
  moreover have "\<not> ((\<forall>r. data_requires (cells p ! i) = Some r \<longrightarrow> r = [] \<or> truthy (interactiveState s) r)
         \<and> slideByNumber p 10 \<noteq> None \<and> (x = ''fysikk'' \<or> x = ''matte'')
         \<and> pair_complete (handleFagClick p lay i s) x \<and> x \<notin> arrows_visible s)"
    using False by blast
  ultimately show ?thesis by (simp only: if_False)
next
  case True
  obtain mid where m: "handleFagClick p lay i s = updateFordypningVisuals p lay mid"
    "arrows_visible mid = arrows_visible s" "arrow_attrs mid = arrow_attrs s"
    using handleFagClick_accepted [OF True assms] by metis
  have pc: "pair_complete (updateFordypningVisuals p lay mid) x = pair_complete mid x"
    by (rule pair_complete_cong) simp_all
  have c: "map_of (arrow_attrs (updateArrowPosition p lay x mid)) x
      = map_of (arrow_attrs (updateArrowPosition p lay x s)) x"
    by (rule updateArrowPosition_cong) (simp add: m)
  show ?thesis
    using True unfolding m(1) updateFordypningVisuals_attrs pc c m(2,3) by simp
qed

lemma updateArrowPositionSlide11_shape:
  "(\<forall>s. updateArrowPositionSlide11 p lay ty s = s)
   \<or> (\<exists>v. \<forall>s. updateArrowPositionSlide11 p lay ty s = s\<lparr>arrow_attrs := AList.update ty v (arrow_attrs s)\<rparr>)"
proof (cases "slideByNumber p 11")
  case None
  then show ?thesis by (simp add: updateArrowPositionSlide11_def)
next
  case slide: (Some a)
  show ?thesis
  proof (cases "cellInSlide p 11 (if ty = ''okonomi'' then ''okonomi1'' else ''samfunn1'')")
    case None
    then show ?thesis using slide by (simp add: updateArrowPositionSlide11_def)
  next
    case c1: (Some c1)
    show ?thesis
    proof (cases "cellInSlide p 11 (if ty = ''okonomi'' then ''okonomi2'' else ''samfunn2'')")
      case None
      then show ?thesis using slide c1 by (simp add: updateArrowPositionSlide11_def)
    next
      case c2: (Some c2)
      show ?thesis
      proof (cases "container_rect lay")
        case None
        then show ?thesis using slide c1 c2 by (simp add: updateArrowPositionSlide11_def)
      next
        case cr: (Some containerRect)
        show ?thesis
        proof (cases "svg_present lay")
          case False
          then show ?thesis using slide c1 c2 cr by (simp add: updateArrowPositionSlide11_def)
        next
          case True
          have "\<forall>s. updateArrowPositionSlide11 p lay ty s = s\<lparr>arrow_attrs := AList.update ty
                  (r_left (cell_rect lay c1) + r_width (cell_rect lay c1) / 2 - r_left containerRect,
                   r_bottom (cell_rect lay c1) - r_top containerRect + 5,
                   r_left (cell_rect lay c1) + r_width (cell_rect lay c1) / 2 - r_left containerRect,
                   r_top (cell_rect lay c2) - r_top containerRect - 5) (arrow_attrs s)\<rparr>"
            using slide c1 c2 cr True by (simp add: updateArrowPositionSlide11_def Let_def)
          then show ?thesis by blast
        qed
      qed
    qed
  qed
qed

lemma updateArrowPositionSlide11_other:
  "x \<noteq> ty \<Longrightarrow> map_of (arrow_attrs (updateArrowPositionSlide11 p lay ty s)) x = map_of (arrow_attrs s) x"
  using updateArrowPositionSlide11_shape [of p lay ty] by (auto simp: update_conv')

lemma updateArrowPositionSlide11_cong:
  "map_of (arrow_attrs s') ty = map_of (arrow_attrs s) ty
     \<Longrightarrow> map_of (arrow_attrs (updateArrowPositionSlide11 p lay ty s')) ty
         = map_of (arrow_attrs (updateArrowPositionSlide11 p lay ty s)) ty"
  using updateArrowPositionSlide11_shape [of p lay ty] by (auto simp: update_conv')

lemma updateFordypningVisualsSlide11_attrs:
  "map_of (arrow_attrs (updateFordypningVisualsSlide11 p lay s)) x =
     (if slideByNumber p 11 \<noteq> None \<and> (x = ''okonomi'' \<or> x = ''samfunn'') \<and> pair_complete s x
         \<and> x \<notin> arrows_visible s
      then map_of (arrow_attrs (updateArrowPositionSlide11 p lay x s)) x
      else map_of (arrow_attrs s) x)"
proof (cases "slideByNumber p 11")
  case None
  then show ?thesis by (simp add: updateFordypningVisualsSlide11_def)
next
  case (Some a)
  define s1 where "s1 =
            (if truthy (interactiveState11 s) ''okonomi1'' \<and> truthy (interactiveState11 s) ''okonomi2''
             then
               (let s' = (if ''okonomi'' \<notin> arrows_visible s
                          then (let s'' = updateArrowPositionSlide11 p lay ''okonomi'' s
                                in s''\<lparr>arrows_visible := insert ''okonomi'' (arrows_visible s'')\<rparr>)
                          else s)
                in s'\<lparr>results_visible := insert ''okonomi'' (results_visible s')\<rparr>)
             else s\<lparr>arrows_visible := arrows_visible s - {''okonomi''},
                    results_visible := results_visible s - {''okonomi''}\<rparr>)"
  define s2 where "s2 =
            (if truthy (interactiveState11 s1) ''samfunn1'' \<and> truthy (interactiveState11 s1) ''samfunn2''
             then
               (let s' = (if ''samfunn'' \<notin> arrows_visible s1
                          then (let s'' = updateArrowPositionSlide11 p lay ''samfunn'' s1
                                in s''\<lparr>arrows_visible := insert ''samfunn'' (arrows_visible s'')\<rparr>)
                          else s1)
                in s'\<lparr>results_visible := insert ''samfunn'' (results_visible s')\<rparr>)
             else s1\<lparr>arrows_visible := arrows_visible s1 - {''samfunn''},
                     results_visible := results_visible s1 - {''samfunn''}\<rparr>)"
  have u: "updateFordypningVisualsSlide11 p lay s = s2"
    by (simp only: updateFordypningVisualsSlide11_def s2_def s1_def Let_def Some option.case)
  have i1: "interactiveState11 s1 = interactiveState11 s"
    and v1: "''samfunn'' \<in> arrows_visible s1 \<longleftrightarrow> ''samfunn'' \<in> arrows_visible s"
    by (simp_all add: s1_def Let_def)
  have a1: "map_of (arrow_attrs s1) x =
     (if x = ''okonomi'' \<and> pair_complete s x \<and> x \<notin> arrows_visible s
      then map_of (arrow_attrs (updateArrowPositionSlide11 p lay x s)) x
      else map_of (arrow_attrs s) x)" for x
    by (simp add: s1_def Let_def pair_complete_def updateArrowPositionSlide11_other)
  have m: "map_of (arrow_attrs (updateArrowPositionSlide11 p lay ''samfunn'' s1)) ''samfunn''
      = map_of (arrow_attrs (updateArrowPositionSlide11 p lay ''samfunn'' s)) ''samfunn''"
    by (rule updateArrowPositionSlide11_cong) (simp add: a1)
  have a2: "map_of (arrow_attrs s2) x =
     (if x = ''samfunn'' \<and> pair_complete s x \<and> x \<notin> arrows_visible s
      then map_of (arrow_attrs (updateArrowPositionSlide11 p lay x s)) x
      else map_of (arrow_attrs s1) x)"
    using i1 v1 m
    by (simp add: s2_def Let_def pair_complete_def updateArrowPositionSlide11_other)
  show ?thesis
    unfolding u a2 a1 using Some by auto
qed

lemma handleFagClickSlide11_attrs_kept:
  assumes "x \<in> arrows_visible s \<or> \<not> pair_complete (handleFagClickSlide11 p lay i s) x"
  shows "map_of (arrow_attrs (handleFagClickSlide11 p lay i s)) x = map_of (arrow_attrs s) x"
proof -
  obtain mid where m:
    "handleFagClickSlide11 p lay i s = mid \<or> handleFagClickSlide11 p lay i s = updateFordypningVisualsSlide11 p lay mid"
    "arrows_visible mid = arrows_visible s" "arrow_attrs mid = arrow_attrs s"
    using handleFagClickSlide11_shape [of p lay i s] by metis
  from m(1) show ?thesis
  proof
    assume "handleFagClickSlide11 p lay i s = mid"
    then show ?thesis using m(3) by simp
  next
    assume e: "handleFagClickSlide11 p lay i s = updateFordypningVisualsSlide11 p lay mid"
    have pc: "pair_complete (updateFordypningVisualsSlide11 p lay mid) x = pair_complete mid x"
      by (rule pair_complete_cong) simp_all
    have "x \<in> arrows_visible mid \<or> \<not> pair_complete mid x"
      using assms e pc m(2) by simp
    then have "map_of (arrow_attrs (updateFordypningVisualsSlide11 p lay mid)) x = map_of (arrow_attrs mid) x"
      unfolding updateFordypningVisualsSlide11_attrs by auto
    then show ?thesis using e m(3) by simp
  qed
qed

lemma handleFagClickSlide11_attrs:
  assumes "plain_keys (interactiveState11 s)"
  shows "map_of (arrow_attrs (handleFagClickSlide11 p lay i s)) x =
     (if (\<forall>r. data_requires (cells p ! i) = Some r \<longrightarrow> r = [] \<or> truthy (interactiveState11 s) r)
         \<and> slideByNumber p 11 \<noteq> None \<and> (x = ''okonomi'' \<or> x = ''samfunn'')
         \<and> pair_complete (handleFagClickSlide11 p lay i s) x \<and> x \<notin> arrows_visible s
      then map_of (arrow_attrs (updateArrowPositionSlide11 p lay x s)) x
      else map_of (arrow_attrs s) x)"
proof (cases "\<forall>r. data_requires (cells p ! i) = Some r \<longrightarrow> r = [] \<or> truthy (interactiveState11 s) r")
  case False
  then obtain r where "data_requires (cells p ! i) = Some r" "r \<noteq> []" "\<not> truthy (interactiveState11 s) r"
    by blast
  then have "handleFagClickSlide11 p lay i s = s\<lparr>shaking_cells := insert i (shaking_cells s)\<rparr>"
    by (rule handleFagClickSlide11_rejected)
  then have "map_of (arrow_attrs (handleFagClickSlide11 p lay i s)) x = map_of (arrow_attrs s) x"
    by simp
  moreover have "\<not> ((\<forall>r. data_requires (cells p ! i) = Some r \<longrightarrow> r = [] \<or> truthy (interactiveState11 s) r)
         \<and> slideByNumber p 11 \<noteq> None \<and> (x = ''okonomi'' \<or> x = ''samfunn'')
         \<and> pair_complete (handleFagClickSlide11 p lay i s) x \<and> x \<notin> arrows_visible s)"
    using False by blast
  ultimately show ?thesis by (simp only: if_False)
next
  case True
  obtain mid where m: "handleFagClickSlide11 p lay i s = updateFordypningVisualsSlide11 p lay mid"
    "arrows_visible mid = arrows_visible s" "arrow_attrs mid = arrow_attrs s"
    using handleFagClickSlide11_accepted [OF True assms] by metis
  have pc: "pair_complete (updateFordypningVisualsSlide11 p lay mid) x = pair_complete mid x"
    by (rule pair_complete_cong) simp_all
  have c: "map_of (arrow_attrs (updateArrowPositionSlide11 p lay x mid)) x
      = map_of (arrow_attrs (updateArrowPositionSlide11 p lay x s)) x"
    by (rule updateArrowPositionSlide11_cong) (simp add: m)
  show ?thesis
    using True unfolding m(1) updateFordypningVisualsSlide11_attrs pc c m(2,3) by simp
qed

lemma arrow_attrs_handleKeydown:
  "arrow_attrs (handleKeydown p key s) = arrow_attrs s"
proof -
  obtain b s1 where h: "hideLastRevealedElement p s = (b, s1)"
    by (cases "hideLastRevealedElement p s")
  then have "arrow_attrs s1 = arrow_attrs s"
    using hideLastRevealedElement_frame(7) [of p s] by simp
  then show ?thesis
    using h by (simp add: handleKeydown_def nextSlide_def prevSlide_def split: bool.split)
qed

lemma arrow_attrs_step:
  assumes "\<forall>i lay. e \<noteq> CellClick i lay"
  shows "arrow_attrs (step p e s) = arrow_attrs s"
proof (cases e)
  case (CellClick i lay)
  then show ?thesis using assms by blast
qed (simp_all add: keydown_unfold arrow_attrs_handleKeydown nextSlide_def prevSlide_def
        handleTouchEnd_def handleSwipe_def menuItemClick_def handleSlideContainerClick_def
        timerFires_def Let_def split: option.split timer.split)

lemma cellClick_attrs:
  "(x \<in> arrows_visible s \<longrightarrow> map_of (arrow_attrs (cellClick p lay i s)) x = map_of (arrow_attrs s) x)
   \<and> (\<not> pair_complete (cellClick p lay i s) x
        \<longrightarrow> map_of (arrow_attrs (cellClick p lay i s)) x = map_of (arrow_attrs s) x)"
  by (simp add: cellClick_def handleFagClick_attrs_kept handleFagClickSlide11_attrs_kept)

lemma step_attrs:
  "(x \<in> arrows_visible s \<longrightarrow> map_of (arrow_attrs (step p e s)) x = map_of (arrow_attrs s) x)
   \<and> (\<not> pair_complete (step p e s) x
        \<longrightarrow> map_of (arrow_attrs (step p e s)) x = map_of (arrow_attrs s) x)"
proof (cases "\<exists>i lay. e = CellClick i lay")
  case True
  then show ?thesis using cellClick_attrs by auto
next
  case False
  then show ?thesis by (simp add: arrow_attrs_step)
qed

subsection \<open>Leaving and returning\<close>

lemma goToSlide_after_resets:
  obtains s2 where
    "s2 = (let s1 = (if currentSlide s = 10 \<and> n \<noteq> 10 then resetInteractiveSlide10 p s else s)
           in if currentSlide s1 = 11 \<and> n \<noteq> 11 then resetInteractiveSlide11 p s1 else s1)"
    "interactiveState (snd (goToSlide p n s)) = interactiveState s2"
    "interactiveState11 (snd (goToSlide p n s)) = interactiveState11 s2"
    "selected_cells (snd (goToSlide p n s)) = selected_cells s2"
    "arrows_visible (snd (goToSlide p n s)) = arrows_visible s2"
    "results_visible (snd (goToSlide p n s)) = results_visible s2"
proof -
  define s2 where "s2 = (let s1 = (if currentSlide s = 10 \<and> n \<noteq> 10 then resetInteractiveSlide10 p s else s)
           in if currentSlide s1 = 11 \<and> n \<noteq> 11 then resetInteractiveSlide11 p s1 else s1)"
  have g: "snd (goToSlide p n s) =
      (case fst (originalGoToSlide p n s2) of
         Thrown \<Rightarrow> snd (originalGoToSlide p n s2)
       | Returned \<Rightarrow>
           updateClickRevealIndicator p (updateSlideMenuActive p (snd (originalGoToSlide p n s2))))"
    by (simp only: goToSlide_snd Let_def s2_def)
  show ?thesis
    by (rule that [of s2]) (simp_all add: g s2_def [symmetric] split: completion.split)
qed

lemma goToSlide_leaving10:
  assumes "currentSlide s = 10" and "n \<noteq> 10"
  shows "interactiveState (snd (goToSlide p n s)) = interactiveState (resetInteractiveSlide10 p s)"
    and "selected_cells (snd (goToSlide p n s)) = selected_cells (resetInteractiveSlide10 p s)"
    and "arrows_visible (snd (goToSlide p n s)) = arrows_visible (resetInteractiveSlide10 p s)"
    and "results_visible (snd (goToSlide p n s)) = results_visible (resetInteractiveSlide10 p s)"
proof -
  obtain s2 where s2: "s2 = (let s1 = (if currentSlide s = 10 \<and> n \<noteq> 10 then resetInteractiveSlide10 p s else s)
           in if currentSlide s1 = 11 \<and> n \<noteq> 11 then resetInteractiveSlide11 p s1 else s1)"
    "interactiveState (snd (goToSlide p n s)) = interactiveState s2"
    "selected_cells (snd (goToSlide p n s)) = selected_cells s2"
    "arrows_visible (snd (goToSlide p n s)) = arrows_visible s2"
    "results_visible (snd (goToSlide p n s)) = results_visible s2"
    using goToSlide_after_resets [of s n p] by metis
  have "s2 = resetInteractiveSlide10 p s"
    using assms by (simp add: s2(1) Let_def)
  then show "interactiveState (snd (goToSlide p n s)) = interactiveState (resetInteractiveSlide10 p s)"
    and "selected_cells (snd (goToSlide p n s)) = selected_cells (resetInteractiveSlide10 p s)"
    and "arrows_visible (snd (goToSlide p n s)) = arrows_visible (resetInteractiveSlide10 p s)"
    and "results_visible (snd (goToSlide p n s)) = results_visible (resetInteractiveSlide10 p s)"
    using s2 by simp_all
qed

lemma goToSlide_leaving11:
  assumes "currentSlide s = 11" and "n \<noteq> 11"
  shows "interactiveState11 (snd (goToSlide p n s)) = interactiveState11 (resetInteractiveSlide11 p s)"
    and "selected_cells (snd (goToSlide p n s)) = selected_cells (resetInteractiveSlide11 p s)"
    and "arrows_visible (snd (goToSlide p n s)) = arrows_visible (resetInteractiveSlide11 p s)"
    and "results_visible (snd (goToSlide p n s)) = results_visible (resetInteractiveSlide11 p s)"
proof -
  obtain s2 where s2: "s2 = (let s1 = (if currentSlide s = 10 \<and> n \<noteq> 10 then resetInteractiveSlide10 p s else s)
           in if currentSlide s1 = 11 \<and> n \<noteq> 11 then resetInteractiveSlide11 p s1 else s1)"
    "interactiveState11 (snd (goToSlide p n s)) = interactiveState11 s2"
    "selected_cells (snd (goToSlide p n s)) = selected_cells s2"
    "arrows_visible (snd (goToSlide p n s)) = arrows_visible s2"
    "results_visible (snd (goToSlide p n s)) = results_visible s2"
    using goToSlide_after_resets [of s n p] by metis
  have "s2 = resetInteractiveSlide11 p s"
    using assms by (simp add: s2(1) Let_def)
  then show "interactiveState11 (snd (goToSlide p n s)) = interactiveState11 (resetInteractiveSlide11 p s)"
    and "selected_cells (snd (goToSlide p n s)) = selected_cells (resetInteractiveSlide11 p s)"
    and "arrows_visible (snd (goToSlide p n s)) = arrows_visible (resetInteractiveSlide11 p s)"
    and "results_visible (snd (goToSlide p n s)) = results_visible (resetInteractiveSlide11 p s)"
    using s2 by simp_all
qed

lemma goToSlide_keeps_flags_elsewhere:
  "currentSlide s \<noteq> 10 \<Longrightarrow> interactiveState (snd (goToSlide p n s)) = interactiveState s"
  "currentSlide s \<noteq> 11 \<Longrightarrow> interactiveState11 (snd (goToSlide p n s)) = interactiveState11 s"
proof -
  obtain s2 where s2: "s2 = (let s1 = (if currentSlide s = 10 \<and> n \<noteq> 10 then resetInteractiveSlide10 p s else s)
           in if currentSlide s1 = 11 \<and> n \<noteq> 11 then resetInteractiveSlide11 p s1 else s1)"
    "interactiveState (snd (goToSlide p n s)) = interactiveState s2"
    "interactiveState11 (snd (goToSlide p n s)) = interactiveState11 s2"
    using goToSlide_after_resets [of s n p] by metis
  show "currentSlide s \<noteq> 10 \<Longrightarrow> interactiveState (snd (goToSlide p n s)) = interactiveState s"
    by (simp add: s2 Let_def)
  show "currentSlide s \<noteq> 11 \<Longrightarrow> interactiveState11 (snd (goToSlide p n s)) = interactiveState11 s"
    by (simp add: s2 Let_def)
qed

lemma resetInteractiveSlide10_map_of:
  "k \<in> {''fysikk1'', ''fysikk2'', ''r1'', ''r2''}
     \<Longrightarrow> map_of (interactiveState (resetInteractiveSlide10 p s)) k = Some False"
  by (auto simp: resetInteractiveSlide10_def Let_def update_conv' split: option.split)

lemma resetInteractiveSlide11_map_of:
  "k \<in> {''okonomi1'', ''okonomi2'', ''samfunn1'', ''samfunn2''}
     \<Longrightarrow> map_of (interactiveState11 (resetInteractiveSlide11 p s)) k = Some False"
  by (auto simp: resetInteractiveSlide11_def Let_def update_conv' split: option.split)

lemma first_visit10_same:
  assumes "interactiveState s' = interactiveState s" "selected_cells s' = selected_cells s"
    "arrows_visible s' = arrows_visible s" "results_visible s' = results_visible s"
  shows "first_visit10 p s' = first_visit10 p s"
  using assms by (simp add: first_visit10_def)

lemma first_visit10_less:
  assumes "first_visit10 p s" and "interactiveState s' = interactiveState s"
    and "selected_cells s' \<inter> clickableCells p 10 \<subseteq> selected_cells s"
    and "arrows_visible s' \<inter> arrow_lines 10 \<subseteq> arrows_visible s"
    and "results_visible s' \<inter> fordypning_results 10 \<subseteq> results_visible s"
  shows "first_visit10 p s'"
proof -
  have "selected_cells s' \<inter> clickableCells p 10 = {}"
    using assms(1,3) unfolding first_visit10_def by blast
  moreover have "arrows_visible s' \<inter> arrow_lines 10 = {}"
    using assms(1,4) unfolding first_visit10_def by blast
  moreover have "results_visible s' \<inter> fordypning_results 10 = {}"
    using assms(1,5) unfolding first_visit10_def by blast
  ultimately show ?thesis
    using assms(1,2) by (simp add: first_visit10_def)
qed

lemma resetInteractiveSlide10_first_visit:
  assumes "keys_ok s" and "slideByNumber p 10 = Some a"
  shows "first_visit10 p (resetInteractiveSlide10 p s)"
proof -
  have k: "map fst (interactiveState s) = [''fysikk1'', ''fysikk2'', ''r1'', ''r2'']"
    using assms(1) by (simp add: keys_ok_def)
  then obtain v1 v2 v3 v4 where st: "interactiveState s =
      [(''fysikk1'', v1), (''fysikk2'', v2), (''r1'', v3), (''r2'', v4)]"
    by (auto simp: map_eq_Cons_conv)
  have "interactiveState (resetInteractiveSlide10 p s) = interactiveState (init p)"
    using st by (simp add: resetInteractiveSlide10_def Let_def init_flags split: option.split)
  then show ?thesis
    unfolding first_visit10_def resetInteractiveSlide10_classes [OF assms(2)]
    by (auto simp: arrow_lines_def fordypning_results_def)
qed

lemma first_visit10_resets:
  assumes "first_visit10 p s"
  shows "first_visit10 p (resetInteractiveSlide10 p s)"
    and "first_visit10 p (resetInteractiveSlide11 p s)"
proof -
  have "interactiveState (resetInteractiveSlide10 p s) = interactiveState s"
    using assms by (simp add: first_visit10_def resetInteractiveSlide10_def Let_def init_flags
        split: option.split)
  then show "first_visit10 p (resetInteractiveSlide10 p s)"
    by (rule first_visit10_less [OF assms])
       (auto simp: resetInteractiveSlide10_def Let_def split: option.split)
  show "first_visit10 p (resetInteractiveSlide11 p s)"
    by (rule first_visit10_less [OF assms])
       (auto simp: resetInteractiveSlide11_def Let_def split: option.split)
qed

lemma first_visit11_same:
  assumes "interactiveState11 s' = interactiveState11 s" "selected_cells s' = selected_cells s"
    "arrows_visible s' = arrows_visible s" "results_visible s' = results_visible s"
  shows "first_visit11 p s' = first_visit11 p s"
  using assms by (simp add: first_visit11_def)

lemma first_visit11_less:
  assumes "first_visit11 p s" and "interactiveState11 s' = interactiveState11 s"
    and "selected_cells s' \<inter> clickableCells p 11 \<subseteq> selected_cells s"
    and "arrows_visible s' \<inter> arrow_lines 11 \<subseteq> arrows_visible s"
    and "results_visible s' \<inter> fordypning_results 11 \<subseteq> results_visible s"
  shows "first_visit11 p s'"
proof -
  have "selected_cells s' \<inter> clickableCells p 11 = {}"
    using assms(1,3) unfolding first_visit11_def by blast
  moreover have "arrows_visible s' \<inter> arrow_lines 11 = {}"
    using assms(1,4) unfolding first_visit11_def by blast
  moreover have "results_visible s' \<inter> fordypning_results 11 = {}"
    using assms(1,5) unfolding first_visit11_def by blast
  ultimately show ?thesis
    using assms(1,2) by (simp add: first_visit11_def)
qed

lemma resetInteractiveSlide11_first_visit:
  assumes "keys_ok s" and "slideByNumber p 11 = Some a"
  shows "first_visit11 p (resetInteractiveSlide11 p s)"
proof -
  have k: "map fst (interactiveState11 s) = [''okonomi1'', ''okonomi2'', ''samfunn1'', ''samfunn2'']"
    using assms(1) by (simp add: keys_ok_def)
  then obtain v1 v2 v3 v4 where st: "interactiveState11 s =
      [(''okonomi1'', v1), (''okonomi2'', v2), (''samfunn1'', v3), (''samfunn2'', v4)]"
    by (auto simp: map_eq_Cons_conv)
  have "interactiveState11 (resetInteractiveSlide11 p s) = interactiveState11 (init p)"
    using st by (simp add: resetInteractiveSlide11_def Let_def init_flags split: option.split)
  then show ?thesis
    unfolding first_visit11_def resetInteractiveSlide11_classes [OF assms(2)]
    by (auto simp: arrow_lines_def fordypning_results_def)
qed

lemma first_visit11_resets:
  assumes "first_visit11 p s"
  shows "first_visit11 p (resetInteractiveSlide11 p s)"
    and "first_visit11 p (resetInteractiveSlide10 p s)"
proof -
  have "interactiveState11 (resetInteractiveSlide11 p s) = interactiveState11 s"
    using assms by (simp add: first_visit11_def resetInteractiveSlide11_def Let_def init_flags
        split: option.split)
  then show "first_visit11 p (resetInteractiveSlide11 p s)"
    by (rule first_visit11_less [OF assms])
       (auto simp: resetInteractiveSlide11_def Let_def split: option.split)
  show "first_visit11 p (resetInteractiveSlide10 p s)"
    by (rule first_visit11_less [OF assms])
       (auto simp: resetInteractiveSlide10_def Let_def split: option.split)
qed

lemma first_visit10_goToSlide:
  assumes "first_visit10 p s"
  shows "first_visit10 p (snd (goToSlide p n s))"
proof -
  obtain s2 where s2:
    "s2 = (let s1 = (if currentSlide s = 10 \<and> n \<noteq> 10 then resetInteractiveSlide10 p s else s)
           in if currentSlide s1 = 11 \<and> n \<noteq> 11 then resetInteractiveSlide11 p s1 else s1)"
    "interactiveState (snd (goToSlide p n s)) = interactiveState s2"
    "selected_cells (snd (goToSlide p n s)) = selected_cells s2"
    "arrows_visible (snd (goToSlide p n s)) = arrows_visible s2"
    "results_visible (snd (goToSlide p n s)) = results_visible s2"
    using goToSlide_after_resets [of s n p] by metis
  have "first_visit10 p s2"
    unfolding s2(1) Let_def using assms first_visit10_resets by simp
  then show ?thesis
    using first_visit10_same [OF s2(2,3,4,5)] by simp
qed

lemma updateFordypningVisualsSlide11_others:
  "arrows_visible (updateFordypningVisualsSlide11 p lay s) \<inter> arrow_lines 10
     = arrows_visible s \<inter> arrow_lines 10"
  "results_visible (updateFordypningVisualsSlide11 p lay s) \<inter> fordypning_results 10
     = results_visible s \<inter> fordypning_results 10"
proof -
  have both: "(x \<in> arrows_visible (updateFordypningVisualsSlide11 p lay s) \<longleftrightarrow> x \<in> arrows_visible s)
      \<and> (x \<in> results_visible (updateFordypningVisualsSlide11 p lay s) \<longleftrightarrow> x \<in> results_visible s)"
    if "x = ''fysikk'' \<or> x = ''matte''" for x
  proof (cases "slideByNumber p 11")
    case None
    then show ?thesis by (simp add: updateFordypningVisualsSlide11_def)
  next
    case (Some a)
    show ?thesis
      using updateFordypningVisualsSlide11_shown [OF Some, of x lay s] that by auto
  qed
  show "arrows_visible (updateFordypningVisualsSlide11 p lay s) \<inter> arrow_lines 10
     = arrows_visible s \<inter> arrow_lines 10"
    using both by (auto simp: arrow_lines_def)
  show "results_visible (updateFordypningVisualsSlide11 p lay s) \<inter> fordypning_results 10
     = results_visible s \<inter> fordypning_results 10"
    using both by (auto simp: arrow_lines_def fordypning_results_def)
qed

lemma first_visit10_handleFagClickSlide11:
  assumes "first_visit10 p s" and "i \<notin> clickableCells p 10"
  shows "first_visit10 p (handleFagClickSlide11 p lay i s)"
proof -
  obtain mid where m:
    "handleFagClickSlide11 p lay i s = mid
       \<or> handleFagClickSlide11 p lay i s = updateFordypningVisualsSlide11 p lay mid"
    "arrows_visible mid = arrows_visible s" "results_visible mid = results_visible s"
    "interactiveState mid = interactiveState s"
    "selected_cells mid \<subseteq> insert i (selected_cells s)"
    using handleFagClickSlide11_shape [of p lay i s] by metis
  have fm: "first_visit10 p mid"
    by (rule first_visit10_less [OF assms(1) m(4)]) (use m(2,3,5) assms(2) in auto)
  from m(1) show ?thesis
  proof
    assume "handleFagClickSlide11 p lay i s = mid"
    then show ?thesis using fm by simp
  next
    assume e: "handleFagClickSlide11 p lay i s = updateFordypningVisualsSlide11 p lay mid"
    show ?thesis
      unfolding e
      by (rule first_visit10_less [OF fm])
         (simp_all add: updateFordypningVisualsSlide11_others)
  qed
qed

lemma first_visit10_neutral [simp]:
  "first_visit10 p (snd (revealNextElement p s)) = first_visit10 p s"
  "first_visit10 p (snd (hideLastRevealedElement p s)) = first_visit10 p s"
  "first_visit10 p (updateClickRevealIndicator p s) = first_visit10 p s"
  "first_visit10 p (animateSlide p j s) = first_visit10 p s"
  "first_visit10 p (closeAllSpeechBubbles s) = first_visit10 p s"
  "first_visit10 p (closeSpeechBubble b s) = first_visit10 p s"
  "first_visit10 p (toggleSpeechBubble b s) = first_visit10 p s"
  "first_visit10 p (openImageModal p s) = first_visit10 p s"
  "first_visit10 p (closeImageModal p s) = first_visit10 p s"
  "first_visit10 p (openQrModal p s) = first_visit10 p s"
  "first_visit10 p (closeQrModal p s) = first_visit10 p s"
  "first_visit10 p (handleTouchStart x s) = first_visit10 p s"
  "first_visit10 p (s\<lparr>touchEndX := x\<rparr>) = first_visit10 p s"
  "first_visit10 p (s\<lparr>pending := q\<rparr>) = first_visit10 p s"
  by (rule first_visit10_same; simp)+

lemma first_visit10_handleKeydown:
  "first_visit10 p s \<Longrightarrow> first_visit10 p (handleKeydown p key s)"
  by (simp add: handleKeydown_def nextSlide_def prevSlide_def first_visit10_goToSlide
        split: prod.split bool.split)
     (metis snd_conv first_visit10_neutral(2))

lemma first_visit10_step:
  assumes "first_visit10 p s" and "\<not> clicks_cell_of p 10 e"
  shows "first_visit10 p (step p e s)"
  using assms
  by (cases e)
     (simp_all add: keydown_unfold Let_def first_visit10_handleKeydown handleTouchEnd_def
        handleSwipe_def nextSlide_def prevSlide_def first_visit10_goToSlide menuItemClick_def
        handleSlideContainerClick_def cellClick_def first_visit10_handleFagClickSlide11
        timerFires_def split: option.split timer.split)

lemma first_visit10_run:
  "first_visit10 p s \<Longrightarrow> \<forall>e\<in>set evs. \<not> clicks_cell_of p 10 e \<Longrightarrow> first_visit10 p (run p evs s)"
  unfolding run_def by (induction evs arbitrary: s) (simp_all add: first_visit10_step)

lemma first_visit11_goToSlide:
  assumes "first_visit11 p s"
  shows "first_visit11 p (snd (goToSlide p n s))"
proof -
  obtain s2 where s2:
    "s2 = (let s1 = (if currentSlide s = 10 \<and> n \<noteq> 10 then resetInteractiveSlide10 p s else s)
           in if currentSlide s1 = 11 \<and> n \<noteq> 11 then resetInteractiveSlide11 p s1 else s1)"
    "interactiveState11 (snd (goToSlide p n s)) = interactiveState11 s2"
    "selected_cells (snd (goToSlide p n s)) = selected_cells s2"
    "arrows_visible (snd (goToSlide p n s)) = arrows_visible s2"
    "results_visible (snd (goToSlide p n s)) = results_visible s2"
    using goToSlide_after_resets [of s n p] by metis
  have "first_visit11 p s2"
    unfolding s2(1) Let_def using assms first_visit11_resets by simp
  then show ?thesis
    using first_visit11_same [OF s2(2,3,4,5)] by simp
qed

lemma updateFordypningVisuals_others:
  "arrows_visible (updateFordypningVisuals p lay s) \<inter> arrow_lines 11
     = arrows_visible s \<inter> arrow_lines 11"
  "results_visible (updateFordypningVisuals p lay s) \<inter> fordypning_results 11
     = results_visible s \<inter> fordypning_results 11"
proof -
  have both: "(x \<in> arrows_visible (updateFordypningVisuals p lay s) \<longleftrightarrow> x \<in> arrows_visible s)
      \<and> (x \<in> results_visible (updateFordypningVisuals p lay s) \<longleftrightarrow> x \<in> results_visible s)"
    if "x = ''okonomi'' \<or> x = ''samfunn''" for x
  proof (cases "slideByNumber p 10")
    case None
    then show ?thesis by (simp add: updateFordypningVisuals_def)
  next
    case (Some a)
    show ?thesis
      using updateFordypningVisuals_shown [OF Some, of x lay s] that by auto
  qed
  show "arrows_visible (updateFordypningVisuals p lay s) \<inter> arrow_lines 11
     = arrows_visible s \<inter> arrow_lines 11"
    using both by (auto simp: arrow_lines_def)
  show "results_visible (updateFordypningVisuals p lay s) \<inter> fordypning_results 11
     = results_visible s \<inter> fordypning_results 11"
    using both by (auto simp: arrow_lines_def fordypning_results_def)
qed

lemma first_visit11_handleFagClick:
  assumes "first_visit11 p s" and "i \<notin> clickableCells p 11"
  shows "first_visit11 p (handleFagClick p lay i s)"
proof -
  obtain mid where m:
    "handleFagClick p lay i s = mid
       \<or> handleFagClick p lay i s = updateFordypningVisuals p lay mid"
    "arrows_visible mid = arrows_visible s" "results_visible mid = results_visible s"
    "interactiveState11 mid = interactiveState11 s"
    "selected_cells mid \<subseteq> insert i (selected_cells s)"
    using handleFagClick_shape [of p lay i s] by metis
  have fm: "first_visit11 p mid"
    by (rule first_visit11_less [OF assms(1) m(4)]) (use m(2,3,5) assms(2) in auto)
  from m(1) show ?thesis
  proof
    assume "handleFagClick p lay i s = mid"
    then show ?thesis using fm by simp
  next
    assume e: "handleFagClick p lay i s = updateFordypningVisuals p lay mid"
    show ?thesis
      unfolding e
      by (rule first_visit11_less [OF fm])
         (simp_all add: updateFordypningVisuals_others)
  qed
qed

lemma first_visit11_neutral [simp]:
  "first_visit11 p (snd (revealNextElement p s)) = first_visit11 p s"
  "first_visit11 p (snd (hideLastRevealedElement p s)) = first_visit11 p s"
  "first_visit11 p (updateClickRevealIndicator p s) = first_visit11 p s"
  "first_visit11 p (animateSlide p j s) = first_visit11 p s"
  "first_visit11 p (closeAllSpeechBubbles s) = first_visit11 p s"
  "first_visit11 p (closeSpeechBubble b s) = first_visit11 p s"
  "first_visit11 p (toggleSpeechBubble b s) = first_visit11 p s"
  "first_visit11 p (openImageModal p s) = first_visit11 p s"
  "first_visit11 p (closeImageModal p s) = first_visit11 p s"
  "first_visit11 p (openQrModal p s) = first_visit11 p s"
  "first_visit11 p (closeQrModal p s) = first_visit11 p s"
  "first_visit11 p (handleTouchStart x s) = first_visit11 p s"
  "first_visit11 p (s\<lparr>touchEndX := x\<rparr>) = first_visit11 p s"
  "first_visit11 p (s\<lparr>pending := q\<rparr>) = first_visit11 p s"
  by (rule first_visit11_same; simp)+

lemma first_visit11_handleKeydown:
  "first_visit11 p s \<Longrightarrow> first_visit11 p (handleKeydown p key s)"
  by (simp add: handleKeydown_def nextSlide_def prevSlide_def first_visit11_goToSlide
        split: prod.split bool.split)
     (metis snd_conv first_visit11_neutral(2))

lemma first_visit11_step:
  assumes "first_visit11 p s" and "\<not> clicks_cell_of p 11 e"
  shows "first_visit11 p (step p e s)"
  using assms
  by (cases e)
     (simp_all add: keydown_unfold Let_def first_visit11_handleKeydown handleTouchEnd_def
        handleSwipe_def nextSlide_def prevSlide_def first_visit11_goToSlide menuItemClick_def
        handleSlideContainerClick_def cellClick_def first_visit11_handleFagClick
        timerFires_def split: option.split timer.split)

lemma first_visit11_run:
  "first_visit11 p s \<Longrightarrow> \<forall>e\<in>set evs. \<not> clicks_cell_of p 11 e \<Longrightarrow> first_visit11 p (run p evs s)"
  unfolding run_def by (induction evs arbitrary: s) (simp_all add: first_visit11_step)

text \<open>
  C6.  On a well-formed page, from the initial state and whatever events occur (so also
  after every call of a click handler), for each of the four prerequisite pairs the arrow
  and the result box are visible exactly when both flags of the pair are true.  The
  attributes of an arrow are written only by a click after which the pair is complete and
  before which the arrow was not visible: no event changes them while the arrow is
  visible, and none changes them unless the pair is complete afterwards.  Such a click,
  in a state whose flag names are plain as the declared ones are, makes the arrow visible
  and writes what \<open>updateArrowPosition\<close> computes from the positions on screen at that
  moment.
\<close>

theorem indicator_visible_iff_pair_complete:
  assumes "wf_page p"
  shows
    "(\<forall>y\<in>{''fysikk'', ''matte'', ''okonomi'', ''samfunn''}.
        (y \<in> arrows_visible (run p evs (init p)) \<longleftrightarrow> pair_complete (run p evs (init p)) y)
        \<and> (y \<in> results_visible (run p evs (init p)) \<longleftrightarrow> pair_complete (run p evs (init p)) y))
     \<and> (x \<in> arrows_visible s \<longrightarrow> map_of (arrow_attrs (step p e s)) x = map_of (arrow_attrs s) x)
     \<and> (\<not> pair_complete (step p e s) x
          \<longrightarrow> map_of (arrow_attrs (step p e s)) x = map_of (arrow_attrs s) x)
     \<and> ((\<forall>r. data_requires (cells p ! i) = Some r \<longrightarrow> r = [] \<or> truthy (interactiveState s) r)
          \<and> plain_keys (interactiveState s)
          \<and> (x = ''fysikk'' \<or> x = ''matte'') \<and> x \<notin> arrows_visible s
          \<and> pair_complete (handleFagClick p lay i s) x
        \<longrightarrow> x \<in> arrows_visible (handleFagClick p lay i s)
          \<and> map_of (arrow_attrs (handleFagClick p lay i s)) x
              = map_of (arrow_attrs (updateArrowPosition p lay x s)) x)
     \<and> ((\<forall>r. data_requires (cells p ! i) = Some r \<longrightarrow> r = [] \<or> truthy (interactiveState11 s) r)
          \<and> plain_keys (interactiveState11 s)
          \<and> (x = ''okonomi'' \<or> x = ''samfunn'') \<and> x \<notin> arrows_visible s
          \<and> pair_complete (handleFagClickSlide11 p lay i s) x
        \<longrightarrow> x \<in> arrows_visible (handleFagClickSlide11 p lay i s)
          \<and> map_of (arrow_attrs (handleFagClickSlide11 p lay i s)) x
              = map_of (arrow_attrs (updateArrowPositionSlide11 p lay x s)) x)"
proof (intro conjI)
  have "widget_ok p (run p evs (init p))"
    using assms widget_ok_init [OF assms] by (rule widget_ok_run)
  then show "\<forall>y\<in>{''fysikk'', ''matte'', ''okonomi'', ''samfunn''}.
        (y \<in> arrows_visible (run p evs (init p)) \<longleftrightarrow> pair_complete (run p evs (init p)) y)
        \<and> (y \<in> results_visible (run p evs (init p)) \<longleftrightarrow> pair_complete (run p evs (init p)) y)"
    by (simp add: widget_ok_def indicators_ok_def)
  show "x \<in> arrows_visible s \<longrightarrow> map_of (arrow_attrs (step p e s)) x = map_of (arrow_attrs s) x"
    and "\<not> pair_complete (step p e s) x
          \<longrightarrow> map_of (arrow_attrs (step p e s)) x = map_of (arrow_attrs s) x"
    using step_attrs [of x s p e] by simp_all
  obtain a b where slides: "slideByNumber p 10 = Some a" "slideByNumber p 11 = Some b"
    using wf_page_slides [OF assms] by auto
  show "(\<forall>r. data_requires (cells p ! i) = Some r \<longrightarrow> r = [] \<or> truthy (interactiveState s) r)
          \<and> plain_keys (interactiveState s)
          \<and> (x = ''fysikk'' \<or> x = ''matte'') \<and> x \<notin> arrows_visible s
          \<and> pair_complete (handleFagClick p lay i s) x
        \<longrightarrow> x \<in> arrows_visible (handleFagClick p lay i s)
          \<and> map_of (arrow_attrs (handleFagClick p lay i s)) x
              = map_of (arrow_attrs (updateArrowPosition p lay x s)) x"
    using handleFagClick_shown(1) [OF _ slides(1), of i s x lay] handleFagClick_attrs [of s p lay i x]
      slides(1)
    by simp
  show "(\<forall>r. data_requires (cells p ! i) = Some r \<longrightarrow> r = [] \<or> truthy (interactiveState11 s) r)
          \<and> plain_keys (interactiveState11 s)
          \<and> (x = ''okonomi'' \<or> x = ''samfunn'') \<and> x \<notin> arrows_visible s
          \<and> pair_complete (handleFagClickSlide11 p lay i s) x
        \<longrightarrow> x \<in> arrows_visible (handleFagClickSlide11 p lay i s)
          \<and> map_of (arrow_attrs (handleFagClickSlide11 p lay i s)) x
              = map_of (arrow_attrs (updateArrowPositionSlide11 p lay x s)) x"
    using handleFagClickSlide11_shown(1) [OF _ slides(2), of i s x lay]
      handleFagClickSlide11_attrs [of s p lay i x] slides(2)
    by simp
qed

theorem indicator_visible_iff_pair_complete_witness:
  "wf_page demo_page
   \<and> pair_complete demo_pair10 ''fysikk'' \<and> ''fysikk'' \<in> arrows_visible demo_pair10
   \<and> ''fysikk'' \<in> results_visible demo_pair10
   \<and> \<not> pair_complete demo_pair10 ''matte'' \<and> ''matte'' \<notin> arrows_visible demo_pair10
   \<and> map_of (arrow_attrs demo_pair10) ''fysikk'' = Some (110, 115, 110, 195)
   \<and> map_of (arrow_attrs (step demo_page (CellClick 2 demo_layout_moved) demo_pair10)) ''fysikk''
       = Some (110, 115, 110, 195)
   \<and> map_of (arrow_attrs (step demo_page (CellClick 2 demo_layout_moved) demo_pair10)) ''matte''
       = map_of (arrow_attrs demo_pair10) ''matte''
   \<and> ''fysikk'' \<notin> arrows_visible demo_fysikk1
   \<and> plain_keys (interactiveState demo_fysikk1)
   \<and> pair_complete (handleFagClick demo_page demo_layout 1 demo_fysikk1) ''fysikk''
   \<and> ''fysikk'' \<in> arrows_visible (handleFagClick demo_page demo_layout 1 demo_fysikk1)
   \<and> map_of (arrow_attrs (handleFagClick demo_page demo_layout 1 demo_fysikk1)) ''fysikk''
       = map_of (arrow_attrs (updateArrowPosition demo_page demo_layout ''fysikk'' demo_fysikk1)) ''fysikk''
   \<and> map_of (arrow_attrs (updateArrowPosition demo_page demo_layout ''fysikk'' demo_fysikk1)) ''fysikk''
       = Some (110, 115, 110, 195)
   \<and> pair_complete demo_pair11 ''okonomi'' \<and> ''okonomi'' \<in> arrows_visible demo_pair11"
proof -
  have wf: "wf_page demo_page" by code_simp
  have a: "pair_complete demo_pair10 ''fysikk'' \<and> \<not> pair_complete demo_pair10 ''matte''
      \<and> map_of (arrow_attrs demo_pair10) ''fysikk'' = Some (110, 115, 110, 195)
      \<and> \<not> pair_complete (step demo_page (CellClick 2 demo_layout_moved) demo_pair10) ''matte''
      \<and> ''fysikk'' \<notin> arrows_visible demo_fysikk1
      \<and> data_requires (cells demo_page ! 1) = Some ''fysikk1''
      \<and> truthy (interactiveState demo_fysikk1) ''fysikk1''
      \<and> plain_keys (interactiveState demo_fysikk1)
      \<and> pair_complete (handleFagClick demo_page demo_layout 1 demo_fysikk1) ''fysikk''
      \<and> map_of (arrow_attrs (updateArrowPosition demo_page demo_layout ''fysikk'' demo_fysikk1)) ''fysikk''
          = Some (110, 115, 110, 195)
      \<and> pair_complete demo_pair11 ''okonomi''"
    by code_simp
  then have acc: "\<forall>r. data_requires (cells demo_page ! 1) = Some r
             \<longrightarrow> r = [] \<or> truthy (interactiveState demo_fysikk1) r"
    by simp
  note t10 = indicator_visible_iff_pair_complete [OF wf,
      of "[MenuClick 9, TimerFires 0, TimerFires 0, CellClick 0 demo_layout, CellClick 1 demo_layout]"
         "''fysikk''" demo_pair10 "CellClick 2 demo_layout_moved" 1 demo_layout,
      folded demo_pair10_def]
  note tm = indicator_visible_iff_pair_complete [OF wf,
      of "[MenuClick 9, TimerFires 0, TimerFires 0, CellClick 0 demo_layout, CellClick 1 demo_layout]"
         "''matte''" demo_pair10 "CellClick 2 demo_layout_moved" 1 demo_layout,
      folded demo_pair10_def]
  note tc = indicator_visible_iff_pair_complete [OF wf,
      of "[MenuClick 9, TimerFires 0, TimerFires 0, CellClick 0 demo_layout, CellClick 1 demo_layout]"
         "''fysikk''" demo_fysikk1 "CellClick 2 demo_layout_moved" 1 demo_layout,
      folded demo_pair10_def]
  note t11 = indicator_visible_iff_pair_complete [OF wf,
      of "[MenuClick 10, TimerFires 0, TimerFires 0, CellClick 4 demo_layout, CellClick 5 demo_layout]"
         "''okonomi''" demo_pair11 "CellClick 2 demo_layout_moved" 1 demo_layout,
      folded demo_pair11_def]
  have f: "''fysikk'' \<in> arrows_visible demo_pair10" "''fysikk'' \<in> results_visible demo_pair10"
      "''matte'' \<notin> arrows_visible demo_pair10" "''okonomi'' \<in> arrows_visible demo_pair11"
    using a t10 t11 by auto
  have g: "map_of (arrow_attrs (step demo_page (CellClick 2 demo_layout_moved) demo_pair10)) ''fysikk''
       = Some (110, 115, 110, 195)"
    using t10 f(1) a by simp
  have h: "map_of (arrow_attrs (step demo_page (CellClick 2 demo_layout_moved) demo_pair10)) ''matte''
       = map_of (arrow_attrs demo_pair10) ''matte''"
    using tm a by blast
  have k: "''fysikk'' \<in> arrows_visible (handleFagClick demo_page demo_layout 1 demo_fysikk1)
      \<and> map_of (arrow_attrs (handleFagClick demo_page demo_layout 1 demo_fysikk1)) ''fysikk''
       = map_of (arrow_attrs (updateArrowPosition demo_page demo_layout ''fysikk'' demo_fysikk1)) ''fysikk''"
    using tc a acc by blast
  show ?thesis
    using wf a f g h k by simp
qed

text \<open>
  C7 (as amended).  On a well-formed page, for any state: \<open>goToSlide\<close> called on slide 10
  with another target sets the four flags of \<open>interactiveState\<close> to false, takes the mark
  off every clickable cell of slide 10 and hides both arrows and both result boxes of slide
  10; the same holds for slide 11 and \<open>interactiveState11\<close>.  In a state reached from the
  initial one this leaves the widget as on the first visit.  From then on the widget stays
  as on the first visit, up to and including the return to its slide, through all events
  that are not a click on one of its own cells.  The click listeners of the cells do not
  look at the current slide, so a click on a cell of the widget while another slide is
  current does change the widget, and the return to its slide does not undo that.
\<close>

theorem leaving_widget_slide_resets_widget:
  assumes "wf_page p"
  shows
    "(currentSlide s = 10 \<and> n \<noteq> 10
        \<longrightarrow> (\<forall>k\<in>{''fysikk1'', ''fysikk2'', ''r1'', ''r2''}.
               map_of (interactiveState (snd (goToSlide p n s))) k = Some False)
          \<and> selected_cells (snd (goToSlide p n s)) \<inter> clickableCells p 10 = {}
          \<and> arrows_visible (snd (goToSlide p n s)) \<inter> {''fysikk'', ''matte''} = {}
          \<and> results_visible (snd (goToSlide p n s)) \<inter> {''fysikk'', ''matte''} = {})
     \<and> (currentSlide s = 11 \<and> n \<noteq> 11
        \<longrightarrow> (\<forall>k\<in>{''okonomi1'', ''okonomi2'', ''samfunn1'', ''samfunn2''}.
               map_of (interactiveState11 (snd (goToSlide p n s))) k = Some False)
          \<and> selected_cells (snd (goToSlide p n s)) \<inter> clickableCells p 11 = {}
          \<and> arrows_visible (snd (goToSlide p n s)) \<inter> {''okonomi'', ''samfunn''} = {}
          \<and> results_visible (snd (goToSlide p n s)) \<inter> {''okonomi'', ''samfunn''} = {})
     \<and> (currentSlide (run p evs (init p)) = 10 \<and> n \<noteq> 10
        \<longrightarrow> first_visit10 p (snd (goToSlide p n (run p evs (init p)))))
     \<and> (currentSlide (run p evs (init p)) = 11 \<and> n \<noteq> 11
        \<longrightarrow> first_visit11 p (snd (goToSlide p n (run p evs (init p)))))
     \<and> (first_visit10 p s \<and> (\<forall>e\<in>set evs'. \<not> clicks_cell_of p 10 e)
        \<longrightarrow> first_visit10 p (run p evs' s)
          \<and> first_visit10 p (snd (goToSlide p 10 (run p evs' s))))
     \<and> (first_visit11 p s \<and> (\<forall>e\<in>set evs'. \<not> clicks_cell_of p 11 e)
        \<longrightarrow> first_visit11 p (run p evs' s)
          \<and> first_visit11 p (snd (goToSlide p 11 (run p evs' s))))"
proof (intro conjI impI)
  obtain a b where slides: "slideByNumber p 10 = Some a" "slideByNumber p 11 = Some b"
    using wf_page_slides [OF assms] by auto
  {
    assume h: "currentSlide s = 10 \<and> n \<noteq> 10"
    then have cur: "currentSlide s = 10" and n: "n \<noteq> 10" by simp_all
    note l = goToSlide_leaving10 [OF cur n, of p]
    note c = resetInteractiveSlide10_classes [OF slides(1), of s]
    show "\<forall>k\<in>{''fysikk1'', ''fysikk2'', ''r1'', ''r2''}.
               map_of (interactiveState (snd (goToSlide p n s))) k = Some False"
      unfolding l(1) using resetInteractiveSlide10_map_of [of _ p s] by blast
    show "selected_cells (snd (goToSlide p n s)) \<inter> clickableCells p 10 = {}"
      unfolding l(2) c(1) by blast
    show "arrows_visible (snd (goToSlide p n s)) \<inter> {''fysikk'', ''matte''} = {}"
      unfolding l(3) c(2) by blast
    show "results_visible (snd (goToSlide p n s)) \<inter> {''fysikk'', ''matte''} = {}"
      unfolding l(4) c(3) by blast
  }
  {
    assume h: "currentSlide s = 11 \<and> n \<noteq> 11"
    then have cur: "currentSlide s = 11" and n: "n \<noteq> 11" by simp_all
    note l = goToSlide_leaving11 [OF cur n, of p]
    note c = resetInteractiveSlide11_classes [OF slides(2), of s]
    show "\<forall>k\<in>{''okonomi1'', ''okonomi2'', ''samfunn1'', ''samfunn2''}.
               map_of (interactiveState11 (snd (goToSlide p n s))) k = Some False"
      unfolding l(1) using resetInteractiveSlide11_map_of [of _ p s] by blast
    show "selected_cells (snd (goToSlide p n s)) \<inter> clickableCells p 11 = {}"
      unfolding l(2) c(1) by blast
    show "arrows_visible (snd (goToSlide p n s)) \<inter> {''okonomi'', ''samfunn''} = {}"
      unfolding l(3) c(2) by blast
    show "results_visible (snd (goToSlide p n s)) \<inter> {''okonomi'', ''samfunn''} = {}"
      unfolding l(4) c(3) by blast
  }
  let ?t = "run p evs (init p)"
  have ok: "widget_ok p ?t"
    using assms widget_ok_init [OF assms] by (rule widget_ok_run)
  then have keys: "keys_ok ?t" by (simp add: widget_ok_def)
  {
    assume h: "currentSlide ?t = 10 \<and> n \<noteq> 10"
    then have cur: "currentSlide ?t = 10" and n: "n \<noteq> 10" by simp_all
    note l = goToSlide_leaving10 [OF cur n, of p]
    have "first_visit10 p (snd (goToSlide p n ?t)) = first_visit10 p (resetInteractiveSlide10 p ?t)"
      using l by (rule first_visit10_same)
    then show "first_visit10 p (snd (goToSlide p n ?t))"
      using resetInteractiveSlide10_first_visit [OF keys slides(1)] by simp
  }
  {
    assume h: "currentSlide ?t = 11 \<and> n \<noteq> 11"
    then have cur: "currentSlide ?t = 11" and n: "n \<noteq> 11" by simp_all
    note l = goToSlide_leaving11 [OF cur n, of p]
    have "first_visit11 p (snd (goToSlide p n ?t)) = first_visit11 p (resetInteractiveSlide11 p ?t)"
      using l by (rule first_visit11_same)
    then show "first_visit11 p (snd (goToSlide p n ?t))"
      using resetInteractiveSlide11_first_visit [OF keys slides(2)] by simp
  }
  {
    assume h: "first_visit10 p s \<and> (\<forall>e\<in>set evs'. \<not> clicks_cell_of p 10 e)"
    then show r: "first_visit10 p (run p evs' s)"
      using first_visit10_run [of p s evs'] by simp
    then show "first_visit10 p (snd (goToSlide p 10 (run p evs' s)))"
      by (rule first_visit10_goToSlide)
  }
  {
    assume h: "first_visit11 p s \<and> (\<forall>e\<in>set evs'. \<not> clicks_cell_of p 11 e)"
    then show r: "first_visit11 p (run p evs' s)"
      using first_visit11_run [of p s evs'] by simp
    then show "first_visit11 p (snd (goToSlide p 11 (run p evs' s)))"
      by (rule first_visit11_goToSlide)
  }
qed

theorem leaving_widget_slide_resets_widget_witness:
  "wf_page demo_page
   \<and> currentSlide demo_pair10 = 10
   \<and> truthy (interactiveState demo_pair10) ''fysikk1'' \<and> truthy (interactiveState demo_pair10) ''fysikk2''
   \<and> selected_cells demo_pair10 = {1, 0} \<and> ''fysikk'' \<in> arrows_visible demo_pair10
   \<and> map_of (interactiveState (snd (goToSlide demo_page 11 demo_pair10))) ''fysikk1'' = Some False
   \<and> map_of (interactiveState (snd (goToSlide demo_page 11 demo_pair10))) ''fysikk2'' = Some False
   \<and> selected_cells (snd (goToSlide demo_page 11 demo_pair10)) \<inter> clickableCells demo_page 10 = {}
   \<and> arrows_visible (snd (goToSlide demo_page 11 demo_pair10)) \<inter> {''fysikk'', ''matte''} = {}
   \<and> results_visible (snd (goToSlide demo_page 11 demo_pair10)) \<inter> {''fysikk'', ''matte''} = {}
   \<and> first_visit10 demo_page (snd (goToSlide demo_page 11 demo_pair10))
   \<and> 4 \<notin> clickableCells demo_page 10
   \<and> first_visit10 demo_page
        (run demo_page [KeyDown ''ArrowRight'', CellClick 4 demo_layout, MenuClick 9]
           (snd (goToSlide demo_page 11 demo_pair10)))
   \<and> currentSlide demo_pair11 = 11
   \<and> truthy (interactiveState11 demo_pair11) ''okonomi1''
   \<and> map_of (interactiveState11 (snd (goToSlide demo_page 10 demo_pair11))) ''okonomi1'' = Some False
   \<and> selected_cells (snd (goToSlide demo_page 10 demo_pair11)) \<inter> clickableCells demo_page 11 = {}
   \<and> first_visit11 demo_page (snd (goToSlide demo_page 10 demo_pair11))
   \<and> first_visit11 demo_page
        (snd (goToSlide demo_page 11
           (run demo_page [CellClick 0 demo_layout] (snd (goToSlide demo_page 10 demo_pair11)))))"
proof -
  have wf: "wf_page demo_page" by code_simp
  have a: "currentSlide demo_pair10 = 10
      \<and> truthy (interactiveState demo_pair10) ''fysikk1'' \<and> truthy (interactiveState demo_pair10) ''fysikk2''
      \<and> selected_cells demo_pair10 = {1, 0} \<and> ''fysikk'' \<in> arrows_visible demo_pair10
      \<and> currentSlide demo_pair11 = 11
      \<and> truthy (interactiveState11 demo_pair11) ''okonomi1''
      \<and> 4 \<notin> clickableCells demo_page 10 \<and> 0 \<notin> clickableCells demo_page 11"
    by code_simp
  then have c: "\<forall>e\<in>set [KeyDown ''ArrowRight'', CellClick 4 demo_layout, MenuClick 9].
        \<not> clicks_cell_of demo_page 10 e"
    "\<forall>e\<in>set [CellClick 0 demo_layout]. \<not> clicks_cell_of demo_page 11 e"
    by simp_all
  note t10 = leaving_widget_slide_resets_widget [OF wf, of demo_pair10 11
      "[MenuClick 9, TimerFires 0, TimerFires 0, CellClick 0 demo_layout, CellClick 1 demo_layout]"
      "[]", folded demo_pair10_def]
  note t11 = leaving_widget_slide_resets_widget [OF wf, of demo_pair11 10
      "[MenuClick 10, TimerFires 0, TimerFires 0, CellClick 4 demo_layout, CellClick 5 demo_layout]"
      "[]", folded demo_pair11_def]
  have f10: "first_visit10 demo_page (snd (goToSlide demo_page 11 demo_pair10))"
    using t10 a by simp
  have f11: "first_visit11 demo_page (snd (goToSlide demo_page 10 demo_pair11))"
    using t11 a by simp
  note u10 = leaving_widget_slide_resets_widget [OF wf,
      of "snd (goToSlide demo_page 11 demo_pair10)" 11 "[]"
      "[KeyDown ''ArrowRight'', CellClick 4 demo_layout, MenuClick 9]"]
  note u11 = leaving_widget_slide_resets_widget [OF wf,
      of "snd (goToSlide demo_page 10 demo_pair11)" 10 "[]" "[CellClick 0 demo_layout]"]
  have g10: "first_visit10 demo_page
        (run demo_page [KeyDown ''ArrowRight'', CellClick 4 demo_layout, MenuClick 9]
           (snd (goToSlide demo_page 11 demo_pair10)))"
    using u10 f10 c(1) by blast
  have g11: "first_visit11 demo_page
        (snd (goToSlide demo_page 11
           (run demo_page [CellClick 0 demo_layout] (snd (goToSlide demo_page 10 demo_pair11)))))"
    using u11 f11 c(2) by blast
  show ?thesis
    using wf a t10 t11 f10 f11 g10 g11 by simp
qed

theorem widget_clicked_while_away_counterexample:
  "demo_back10 =
     run demo_page
       [MenuClick 9, TimerFires 0, TimerFires 0, CellClick 0 demo_layout, CellClick 1 demo_layout,
        MenuClick 4, CellClick 0 demo_layout, MenuClick 9]
       (init demo_page)
   \<and> currentSlide demo_pair10 = 10
   \<and> currentSlide demo_left10 = 5
   \<and> first_visit10 demo_page demo_left10
   \<and> currentSlide demo_back10 = 10
   \<and> truthy (interactiveState demo_back10) ''fysikk1''
   \<and> 0 \<in> selected_cells demo_back10
   \<and> \<not> first_visit10 demo_page demo_back10"
proof -
  have a: "currentSlide demo_pair10 = 10" "currentSlide demo_left10 = 5"
      "first_visit10 demo_page demo_left10" "currentSlide demo_back10 = 10"
      "truthy (interactiveState demo_back10) ''fysikk1''" "0 \<in> selected_cells demo_back10"
      "\<not> first_visit10 demo_page demo_back10"
    by code_simp+
  then show ?thesis by (simp add: demo_back10_def)
qed

end
